(* ===== verification/Prelude.thy ===== *)
theory Prelude
  imports Main "HOL-Library.Word"
begin

text \<open>
  Vocabulary shared by every component: identifiers, instants and durations, the error values of
  the Go packages, byte strings and their decoding into runes, and the list functions that the SQL
  statements of the repositories denote (row lookup, update, delete, ordering, paging) with the
  lemmas the component proofs use.

  A \<open>uuid\<close> is a number, \<open>uuid_nil\<close> the all-zero one. An instant is the number of nanoseconds since
  1970-01-01 UTC, a duration a number of nanoseconds. Both are unbounded here; the two places where
  Go's 64-bit durations can wrap are modelled on words in the theories that contain them.
\<close>

type_synonym uuid = nat
type_synonym time = int
type_synonym duration = int

abbreviation (input) uuid_nil :: uuid where "uuid_nil \<equiv> 0"

abbreviation (input) second :: duration where "second \<equiv> 1000000000"
abbreviation (input) minute :: duration where "minute \<equiv> 60 * 1000000000"
abbreviation (input) hour :: duration where "hour \<equiv> 3600 * 1000000000"

text \<open>The zero \<open>time.Time\<close>, 0001-01-01 00:00 UTC.\<close>

definition zero_time :: time where
  "zero_time = - 62135596800 * 1000000000"

text \<open>Midnight UTC of the day of an instant: \<open>time.Date(y, m, d, 0, 0, 0, 0, UTC)\<close>.\<close>

definition day_start :: "time \<Rightarrow> time" where
  "day_start t = t - t mod (24 * hour)"

text \<open>The bucket of \<open>date_trunc('hour', t)\<close> and \<open>t.Truncate(time.Hour)\<close>.\<close>

definition hour_start :: "time \<Rightarrow> time" where
  "hour_start t = t - t mod hour"

section \<open>Go strings\<close>

text \<open>
  A Go string is a sequence of bytes. Ranging over it, or converting it to \<open>[]rune\<close>, decodes UTF-8;
  a byte that starts no valid encoding yields the replacement rune U+FFFD and a width of one.
\<close>

type_synonym rune = nat

abbreviation (input) rune_error :: rune where "rune_error \<equiv> 65533"

definition is_cont :: "nat \<Rightarrow> bool" where
  "is_cont b \<longleftrightarrow> 128 \<le> b \<and> b < 192"

definition second_byte_ok :: "nat \<Rightarrow> nat \<Rightarrow> bool" where
  "second_byte_ok b0 b1 \<longleftrightarrow>
     (if b0 = 224 then 160 \<le> b1 \<and> b1 < 192
      else if b0 = 237 then 128 \<le> b1 \<and> b1 < 160
      else if b0 = 240 then 144 \<le> b1 \<and> b1 < 192
      else if b0 = 244 then 128 \<le> b1 \<and> b1 < 144
      else is_cont b1)"

fun decode_rune :: "nat list \<Rightarrow> rune \<times> nat" where
  "decode_rune [] = (rune_error, 0)"
| "decode_rune (b0 # bs) =
     (if b0 < 128 then (b0, 1)
      else if 194 \<le> b0 \<and> b0 < 224 then
        (case bs of
           b1 # _ \<Rightarrow> if second_byte_ok b0 b1 then ((b0 - 192) * 64 + (b1 - 128), 2) else (rune_error, 1)
         | [] \<Rightarrow> (rune_error, 1))
      else if 224 \<le> b0 \<and> b0 < 240 then
        (case bs of
           b1 # b2 # _ \<Rightarrow>
             if second_byte_ok b0 b1 \<and> is_cont b2
             then ((b0 - 224) * 4096 + (b1 - 128) * 64 + (b2 - 128), 3) else (rune_error, 1)
         | _ \<Rightarrow> (rune_error, 1))
      else if 240 \<le> b0 \<and> b0 < 245 then
        (case bs of
           b1 # b2 # b3 # _ \<Rightarrow>
             if second_byte_ok b0 b1 \<and> is_cont b2 \<and> is_cont b3
             then ((b0 - 240) * 262144 + (b1 - 128) * 4096 + (b2 - 128) * 64 + (b3 - 128), 4)
             else (rune_error, 1)
         | _ \<Rightarrow> (rune_error, 1))
      else (rune_error, 1))"

function runes_of_bytes :: "nat list \<Rightarrow> rune list" where
  "runes_of_bytes [] = []"
| "runes_of_bytes (b # bs) =
     fst (decode_rune (b # bs)) # runes_of_bytes (drop (snd (decode_rune (b # bs)) - 1) bs)"
  by pat_completeness auto
termination
  by (relation "measure length") auto

definition runes :: "string \<Rightarrow> rune list" where
  "runes s = runes_of_bytes (map of_char s)"

text \<open>\<open>string(r)\<close> of a rune: its UTF-8 encoding, that of U+FFFD for a value that is no rune.\<close>

definition encode_rune :: "rune \<Rightarrow> nat list" where
  "encode_rune r =
     (if r < 128 then [r]
      else if r < 2048 then [192 + r div 64, 128 + r mod 64]
      else if (55296 \<le> r \<and> r < 57344) \<or> 1114112 \<le> r then [239, 191, 189]
      else if r < 65536 then [224 + r div 4096, 128 + r div 64 mod 64, 128 + r mod 64]
      else [240 + r div 262144, 128 + r div 4096 mod 64, 128 + r div 64 mod 64, 128 + r mod 64])"

definition string_of_runes :: "rune list \<Rightarrow> string" where
  "string_of_runes rs = map char_of (concat (map encode_rune rs))"

definition ascii_string :: "string \<Rightarrow> bool" where
  "ascii_string s \<longleftrightarrow> (\<forall>c \<in> set s. of_char c < (128::nat))"

lemma runes_ascii: "ascii_string s \<Longrightarrow> runes s = map of_char s"
  unfolding runes_def
  by (induction s) (auto simp: ascii_string_def)

lemma length_runes_of_bytes_le: "length (runes_of_bytes bs) \<le> length bs"
  by (induction bs rule: runes_of_bytes.induct) auto

lemma runes_eq_Nil [simp]: "runes s = [] \<longleftrightarrow> s = []"
  unfolding runes_def by (cases "map of_char s :: nat list") auto

text \<open>
  \<open>strings.TrimSpace\<close>: the leading and trailing runes with the Unicode property \<open>White_Space\<close> go. The
  string is cut into the byte sequences of its runes, so that invalid bytes in the middle survive.
\<close>

definition white_space :: "rune \<Rightarrow> bool" where
  "white_space r \<longleftrightarrow> r \<in> {9, 10, 11, 12, 13, 32, 133, 160, 5760, 8232, 8233, 8239, 8287, 12288} \<or>
     (8192 \<le> r \<and> r \<le> 8202)"

function rune_slices :: "nat list \<Rightarrow> nat list list" where
  "rune_slices [] = []"
| "rune_slices (b # bs) =
     (b # take (snd (decode_rune (b # bs)) - 1) bs) # rune_slices (drop (snd (decode_rune (b # bs)) - 1) bs)"
  by pat_completeness auto
termination
  by (relation "measure length") auto

definition white_slice :: "nat list \<Rightarrow> bool" where
  "white_slice bs \<longleftrightarrow> white_space (fst (decode_rune bs))"

definition trim_space :: "string \<Rightarrow> string" where
  "trim_space s = map char_of (concat (rev (dropWhile white_slice (rev (dropWhile white_slice
     (rune_slices (map of_char s)))))))"

text \<open>A \<open>TEXT\<close> value of PostgreSQL is valid UTF-8 without NUL; another one makes the statement fail.\<close>

definition pg_text :: "string \<Rightarrow> bool" where
  "pg_text s \<longleftrightarrow> list_all (\<lambda>bs. bs \<noteq> [0] \<and> \<not> (length bs = 1 \<and> fst (decode_rune bs) = rune_error)) (rune_slices (map of_char s))"

lemma rune_slices_ascii: "list_all (\<lambda>b. b < 128) as \<Longrightarrow> rune_slices (as @ bs) = map (\<lambda>b. [b]) as @ rune_slices bs"
  by (induction as) simp_all

lemma pg_text_ascii:
  "list_all (\<lambda>c. 0 < (of_char c :: nat) \<and> (of_char c :: nat) < 128) s \<Longrightarrow> pg_text (s @ t) = pg_text t"
  unfolding pg_text_def map_append by (subst rune_slices_ascii) (auto simp: list_all_iff)

lemma pg_text_Nil [simp]: "pg_text []"
  by (simp add: pg_text_def)

definition lower_char :: "char \<Rightarrow> char" where
  "lower_char c = (let n = of_char c :: nat in if 65 \<le> n \<and> n \<le> 90 then char_of (n + 32) else c)"

definition ascii_lower :: "string \<Rightarrow> string" where
  "ascii_lower s = map lower_char s"

section \<open>Formatting\<close>

text \<open>
  The verbs \<open>%d\<close> and \<open>%q\<close> of \<open>fmt.Sprintf\<close>. Which runes are printable (\<open>strconv.IsPrint\<close>) is an
  argument of \<open>go_quote\<close>; a byte that is no valid UTF-8 is shown in hexadecimal.
\<close>

fun nat_digits :: "nat \<Rightarrow> string" where
  "nat_digits n = (if n < 10 then [char_of (48 + n)] else nat_digits (n div 10) @ [char_of (48 + n mod 10)])"

declare nat_digits.simps [simp del]

definition go_decimal :: "int \<Rightarrow> string" where
  "go_decimal i = (if i < 0 then CHR ''-'' # nat_digits (nat (- i)) else nat_digits (nat i))"

definition hex_digit :: "nat \<Rightarrow> char" where
  "hex_digit n = char_of (if n < 10 then 48 + n else 87 + n)"

fun hex_digits :: "nat \<Rightarrow> nat \<Rightarrow> string" where
  "hex_digits 0 n = []"
| "hex_digits (Suc k) n = hex_digits k (n div 16) @ [hex_digit (n mod 16)]"

definition quote_rune :: "(rune \<Rightarrow> bool) \<Rightarrow> rune \<Rightarrow> string" where
  "quote_rune is_print r =
     (if r = 34 \<or> r = 92 then [char_of (92::nat), char_of r]
      else if is_print r then map char_of (encode_rune r)
      else if r = 7 then [char_of (92::nat), CHR ''a'']
      else if r = 8 then [char_of (92::nat), CHR ''b'']
      else if r = 12 then [char_of (92::nat), CHR ''f'']
      else if r = 10 then [char_of (92::nat), CHR ''n'']
      else if r = 13 then [char_of (92::nat), CHR ''r'']
      else if r = 9 then [char_of (92::nat), CHR ''t'']
      else if r = 11 then [char_of (92::nat), CHR ''v'']
      else if r < 32 \<or> r = 127 then [char_of (92::nat), CHR ''x''] @ hex_digits 2 r
      else if r < 65536 then [char_of (92::nat), CHR ''u''] @ hex_digits 4 r
      else [char_of (92::nat), CHR ''U''] @ hex_digits 8 r)"

definition quote_slice :: "(rune \<Rightarrow> bool) \<Rightarrow> nat list \<Rightarrow> string" where
  "quote_slice is_print bs =
     (if fst (decode_rune bs) = rune_error \<and> length bs = 1 then [char_of (92::nat), CHR ''x''] @ hex_digits 2 (hd bs)
      else quote_rune is_print (fst (decode_rune bs)))"

definition go_quote :: "(rune \<Rightarrow> bool) \<Rightarrow> string \<Rightarrow> string" where
  "go_quote is_print s =
     [char_of (34::nat)] @ concat (map (quote_slice is_print) (rune_slices (map of_char s))) @ [char_of (34::nat)]"

section \<open>Tables as lists of rows\<close>

text \<open>
  A table is the list of its rows. \<open>SELECT .. WHERE key = k\<close> scanned by \<open>QueryRow\<close> is the first
  matching row, \<open>UPDATE .. WHERE p\<close> rewrites every matching row in place, \<open>DELETE .. WHERE p\<close>
  drops them, and \<open>ORDER BY\<close> is a stable sort (PostgreSQL leaves the order of ties open; the stable
  one is one of those it may choose).
\<close>

definition row_by :: "('r \<Rightarrow> 'k) \<Rightarrow> 'k \<Rightarrow> 'r list \<Rightarrow> 'r option" where
  "row_by key k rows = find (\<lambda>r. key r = k) rows"

definition update_where :: "('r \<Rightarrow> bool) \<Rightarrow> ('r \<Rightarrow> 'r) \<Rightarrow> 'r list \<Rightarrow> 'r list" where
  "update_where p f rows = map (\<lambda>r. if p r then f r else r) rows"

definition delete_where :: "('r \<Rightarrow> bool) \<Rightarrow> 'r list \<Rightarrow> 'r list" where
  "delete_where p rows = filter (\<lambda>r. \<not> p r) rows"

definition matches :: "('r \<Rightarrow> bool) \<Rightarrow> 'r list \<Rightarrow> nat" where
  "matches p rows = length (filter p rows)"

definition order_asc :: "('r \<Rightarrow> int) \<Rightarrow> 'r list \<Rightarrow> 'r list" where
  "order_asc key rows = sort_key key rows"

definition order_desc :: "('r \<Rightarrow> int) \<Rightarrow> 'r list \<Rightarrow> 'r list" where
  "order_desc key rows = sort_key (\<lambda>r. - key r) rows"

definition page :: "int \<Rightarrow> int \<Rightarrow> 'r list \<Rightarrow> 'r list" where
  "page limit offset rows = take (nat limit) (drop (nat offset) rows)"

text \<open>A column of type \<open>INTEGER\<close> holds 32 bits; a value outside makes the statement fail.\<close>

definition int4 :: "int \<Rightarrow> bool" where
  "int4 n \<longleftrightarrow> - 2147483648 \<le> n \<and> n \<le> 2147483647"

definition distinct_keys :: "('r \<Rightarrow> 'k) \<Rightarrow> 'r list \<Rightarrow> bool" where
  "distinct_keys key rows \<longleftrightarrow> distinct (map key rows)"

lemma row_by_Some: "row_by key k rows = Some r \<Longrightarrow> r \<in> set rows \<and> key r = k"
  by (auto simp: row_by_def find_Some_iff)

lemma row_by_None: "row_by key k rows = None \<longleftrightarrow> (\<forall>r \<in> set rows. key r \<noteq> k)"
  by (auto simp: row_by_def find_None_iff)

lemma row_by_unique:
  "distinct_keys key rows \<Longrightarrow> r \<in> set rows \<Longrightarrow> row_by key (key r) rows = Some r"
  by (induction rows) (auto simp: row_by_def distinct_keys_def image_iff)

lemma row_by_eq_iff:
  "distinct_keys key rows \<Longrightarrow> row_by key k rows = Some r \<longleftrightarrow> r \<in> set rows \<and> key r = k"
  by (metis row_by_Some row_by_unique)

lemma row_by_update:
  "(\<And>r. p r \<Longrightarrow> key (f r) = key r) \<Longrightarrow>
   row_by key k (update_where p f rows) = map_option (\<lambda>r. if p r then f r else r) (row_by key k rows)"
  by (induction rows) (auto simp: row_by_def update_where_def)

lemma row_by_append:
  "row_by key k (rows @ rows') = (case row_by key k rows of None \<Rightarrow> row_by key k rows' | Some r \<Rightarrow> Some r)"
  by (induction rows) (auto simp: row_by_def)

lemma row_by_delete:
  "row_by key k (delete_where (\<lambda>r. key r = k') rows) = (if k = k' then None else row_by key k rows)"
  by (induction rows) (auto simp: row_by_def delete_where_def)

lemma distinct_keys_inj:
  "distinct_keys key rows \<Longrightarrow> r \<in> set rows \<Longrightarrow> r' \<in> set rows \<Longrightarrow> key r = key r' \<Longrightarrow> r = r'"
  by (metis option.inject row_by_unique)

lemma distinct_keys_append:
  "distinct_keys key (rows @ [r]) \<longleftrightarrow> distinct_keys key rows \<and> row_by key (key r) rows = None"
  by (force simp: distinct_keys_def row_by_None image_iff)

lemma distinct_keys_Cons:
  "distinct_keys key (r # rows) \<longleftrightarrow> distinct_keys key rows \<and> (\<forall>x \<in> set rows. key x \<noteq> key r)"
  by (auto simp: distinct_keys_def) (metis imageI)

lemma distinct_keys_update:
  "(\<And>r. p r \<Longrightarrow> key (f r) = key r) \<Longrightarrow> distinct_keys key (update_where p f rows) = distinct_keys key rows"
proof -
  assume "\<And>r. p r \<Longrightarrow> key (f r) = key r"
  then have "map key (update_where p f rows) = map key rows"
    by (induction rows) (auto simp: update_where_def)
  then show ?thesis by (simp add: distinct_keys_def)
qed

lemma keys_update:
  "(\<And>r. p r \<Longrightarrow> key (f r) = key r) \<Longrightarrow> key ` set (update_where p f rows) = key ` set rows"
  by (induction rows) (auto simp: update_where_def)

lemma ball_update_where:
  "(\<forall>x \<in> set (update_where p f rows). Q x) \<longleftrightarrow> (\<forall>r \<in> set rows. Q (if p r then f r else r))"
  by (induction rows) (auto simp: update_where_def)

lemma bex_update_where:
  "(\<exists>x \<in> set (update_where p f rows). Q x) \<longleftrightarrow> (\<exists>r \<in> set rows. Q (if p r then f r else r))"
  by (induction rows) (auto simp: update_where_def)

lemma find_Some_set: "find p xs = Some x \<Longrightarrow> x \<in> set xs \<and> p x"
  by (auto simp: find_Some_iff)

lemma distinct_keys_delete: "distinct_keys key rows \<Longrightarrow> distinct_keys key (delete_where p rows)"
  by (simp add: distinct_keys_def delete_where_def distinct_map_filter)

lemma set_update_where: "set (update_where p f rows) = (\<lambda>r. if p r then f r else r) ` set rows"
  by (simp add: update_where_def)

lemma set_delete_where [simp]: "set (delete_where p rows) = {r \<in> set rows. \<not> p r}"
  by (auto simp: delete_where_def)

lemma update_where_Nil [simp]: "update_where p f [] = []"
  by (simp add: update_where_def)

lemma update_where_Cons [simp]:
  "update_where p f (r # rows) = (if p r then f r else r) # update_where p f rows"
  by (simp add: update_where_def)

lemma length_update_where [simp]: "length (update_where p f rows) = length rows"
  by (simp add: update_where_def)

lemma update_where_cong:
  "(\<And>r. r \<in> set rows \<Longrightarrow> p r = q r) \<Longrightarrow> (\<And>r. r \<in> set rows \<Longrightarrow> p r \<Longrightarrow> f r = g r) \<Longrightarrow>
   update_where p f rows = update_where q g rows"
  by (simp add: update_where_def)

lemma update_where_append: "update_where p f (xs @ ys) = update_where p f xs @ update_where p f ys"
  by (simp add: update_where_def)

lemma update_where_none: "(\<And>r. r \<in> set rows \<Longrightarrow> \<not> p r) \<Longrightarrow> update_where p f rows = rows"
  by (induction rows) auto

lemma matches_0 [simp]: "matches p rows = 0 \<longleftrightarrow> (\<forall>r \<in> set rows. \<not> p r)"
  by (auto simp: matches_def filter_empty_conv)

lemma matches_Nil [simp]: "matches p [] = 0"
  by (simp add: matches_def)

lemma matches_append [simp]: "matches p (xs @ ys) = matches p xs + matches p ys"
  by (simp add: matches_def)

lemma matches_Cons [simp]: "matches p (x # xs) = (if p x then 1 else 0) + matches p xs"
  by (simp add: matches_def)

lemma matches_update_le:
  "(\<And>r. r \<in> set rows \<Longrightarrow> q r \<Longrightarrow> p (f r) \<Longrightarrow> p r) \<Longrightarrow> matches p (update_where q f rows) \<le> matches p rows"
  by (induction rows) (auto intro: le_SucI)

lemma matches_delete_le: "matches p (delete_where q rows) \<le> matches p rows"
  by (induction rows) (auto simp: delete_where_def)

lemma set_order_asc [simp]: "set (order_asc key rows) = set rows"
  by (simp add: order_asc_def)

lemma set_order_desc [simp]: "set (order_desc key rows) = set rows"
  by (simp add: order_desc_def)

lemma sorted_order_asc [simp]: "sorted (map key (order_asc key rows))"
  by (simp add: order_asc_def)

text \<open>Sums over the rows that satisfy a condition, the form every ledger invariant takes.\<close>

definition sum_where :: "('r \<Rightarrow> bool) \<Rightarrow> ('r \<Rightarrow> int) \<Rightarrow> 'r list \<Rightarrow> int" where
  "sum_where p f rows = sum_list (map f (filter p rows))"

lemma sum_where_Nil [simp]: "sum_where p f [] = 0"
  by (simp add: sum_where_def)

lemma sum_where_Cons [simp]:
  "sum_where p f (r # rows) = (if p r then f r else 0) + sum_where p f rows"
  by (simp add: sum_where_def)

lemma sum_where_append [simp]:
  "sum_where p f (xs @ ys) = sum_where p f xs + sum_where p f ys"
  by (simp add: sum_where_def)

lemma sum_where_mono:
  "(\<And>r. r \<in> set rows \<Longrightarrow> p r \<Longrightarrow> q r) \<Longrightarrow> (\<And>r. r \<in> set rows \<Longrightarrow> 0 \<le> f r) \<Longrightarrow>
   sum_where p f rows \<le> sum_where q f rows"
proof (induction rows)
  case (Cons r rows)
  then have "sum_where p f rows \<le> sum_where q f rows" and "0 \<le> f r" and "p r \<Longrightarrow> q r"
    by auto
  then show ?case by auto
qed simp

lemma sum_where_cong:
  "(\<And>r. r \<in> set rows \<Longrightarrow> p r = q r) \<Longrightarrow> (\<And>r. r \<in> set rows \<Longrightarrow> p r \<Longrightarrow> f r = g r) \<Longrightarrow>
   sum_where p f rows = sum_where q g rows"
  by (induction rows) auto

lemma sum_where_nonneg: "(\<And>r. r \<in> set rows \<Longrightarrow> 0 \<le> f r) \<Longrightarrow> 0 \<le> sum_where p f rows"
  by (induction rows) auto

lemma sum_where_update:
  "sum_where p f (update_where q g rows) = sum_where (\<lambda>r. p (if q r then g r else r))
     (\<lambda>r. f (if q r then g r else r)) rows"
  by (induction rows) auto

lemma sum_where_delete:
  "sum_where p f (delete_where q rows) = sum_where (\<lambda>r. p r \<and> \<not> q r) f rows"
  by (induction rows) (auto simp: delete_where_def)

lemma sum_where_none: "(\<And>r. r \<in> set rows \<Longrightarrow> \<not> p r) \<Longrightarrow> sum_where p f rows = 0"
  by (induction rows) auto

lemma sum_where_single:
  assumes "distinct_keys key rows" and "r \<in> set rows" and "p r"
    and "\<And>r'. r' \<in> set rows \<Longrightarrow> p r' \<Longrightarrow> key r' = key r"
  shows "sum_where p f rows = f r"
proof -
  obtain xs ys where rows: "rows = xs @ r # ys"
    using assms(2) by (meson split_list)
  have "key x \<noteq> key r" if "x \<in> set xs \<union> set ys" for x
    using assms(1) that unfolding rows distinct_keys_def by (force simp: image_iff)
  then have "\<not> p x" if "x \<in> set xs \<union> set ys" for x
    using assms(4) [of x] that rows by auto
  then have "sum_where p f xs = 0" and "sum_where p f ys = 0"
    by (auto intro!: sum_where_none)
  then show ?thesis using assms(3) by (simp add: rows)
qed

text \<open>Half-open windows: the overlap test of every scheduling query.\<close>

definition overlaps :: "time \<Rightarrow> time \<Rightarrow> time \<Rightarrow> time \<Rightarrow> bool" where
  "overlaps s e s' e' \<longleftrightarrow> s < e' \<and> e > s'"

lemma overlaps_sym: "overlaps s e s' e' \<longleftrightarrow> overlaps s' e' s e"
  by (auto simp: overlaps_def)

lemma overlaps_common_instant: "s \<le> t \<Longrightarrow> t < e \<Longrightarrow> s' \<le> t \<Longrightarrow> t < e' \<Longrightarrow> overlaps s e s' e'"
  by (simp add: overlaps_def)

lemma day_start_bounds: "day_start t \<le> t \<and> t < day_start t + 24 * hour"
  by (simp add: day_start_def pos_mod_bound)

lemma day_start_eq_iff: "day_start s = day_start t \<longleftrightarrow> day_start t \<le> s \<and> s < day_start t + 24 * hour"
proof
  assume "day_start s = day_start t"
  then show "day_start t \<le> s \<and> s < day_start t + 24 * hour"
    using day_start_bounds [of s] by simp
next
  have dv: "day_start u = (u div (24 * hour)) * (24 * hour)" for u
    by (simp add: day_start_def minus_mod_eq_div_mult)
  assume "day_start t \<le> s \<and> s < day_start t + 24 * hour"
  then have "s div (24 * hour) = t div (24 * hour)"
    unfolding dv by (intro int_div_pos_eq [where r = "s - day_start t"]) (auto simp: dv)
  then show "day_start s = day_start t" by (simp add: dv)
qed

end
