(* ===== verification/Effects.thy ===== *)
theory Effects
  imports Prelude
begin

text \<open>
  What the Go functions do besides returning a value: they read the clock, mint UUIDs and random
  tokens, and send SQL statements that may fail. A \<open>world\<close> carries the store (the database, of a
  type \<open>'d\<close> fixed by theory Schema) and the four sources of outside influence as oracles with a
  counter each: the readings of the clock, the UUIDs, the outcomes of the random generator, and
  which statements the database driver fails (connection lost, context canceled, \<dots>); it also records
  the requests posted to other hosts, in the order they are sent. A function
  that returns \<open>(T, error)\<close> has the type \<open>('d, T) io\<close>: it maps a world to an error or a value,
  and the world after.

  Nothing is assumed about the oracles: the clock may go backwards, UUIDs may repeat, any statement
  may fail. A property that needs more says so.
\<close>

section \<open>Error values\<close>

text \<open>
  The sentinel errors of \<open>domain/models.go\<close>. An error joined with or wrapping a sentinel is that
  sentinel: \<open>errors.Is\<close> is all the callers look at, the message text is not modelled. \<open>DBError\<close> is
  an error of the database driver or a constraint violation, \<open>OtherError\<close> any error that carries no
  sentinel.
\<close>

datatype go_error =
    ErrNotFound | ErrInvalidInput | ErrCapacityExceed | ErrConflict | ErrUnauthorized
  | ErrForbidden | ErrBlacklisted | ErrLocked | ErrCaptchaRequired | ErrCaptchaInvalid
  | ErrPasswordPolicy | ErrCredentialInvalid | ErrSessionExpired | ErrIdempotencyMismatch
  | ErrOversold | ErrOptimisticLock | ErrDeadlinePassed | ErrAlreadyJoined | ErrLeadTime
  | ErrCutoff | ErrDailyLimit | ErrOverlap | ErrInvalidTransition
  | DBError | OtherError

section \<open>Worlds and actions\<close>

text \<open>What the program sends to other hosts: the requests of the webhook worker.\<close>

record http_request =
  hr_URL :: string
  hr_Headers :: "(string \<times> string) list"
  hr_Body :: string

record 'd world =
  store :: 'd
  clock :: "nat \<Rightarrow> time"
  readings :: nat
  uuids :: "nat \<Rightarrow> uuid"
  minted :: nat
  entropy :: "nat \<Rightarrow> (nat \<Rightarrow> char) option"
  drawn :: nat
  outage :: "nat \<Rightarrow> bool"
  stmts :: nat
  posted :: "http_request list"

type_synonym ('d, 'a) io = "'d world \<Rightarrow> (go_error + 'a) \<times> 'd world"

definition ret :: "'a \<Rightarrow> ('d, 'a) io" where
  "ret x w = (Inr x, w)"

definition fail :: "go_error \<Rightarrow> ('d, 'a) io" where
  "fail e w = (Inl e, w)"

text \<open>\<open>x, err := m(); ..\<close> with the error inspected by what follows.\<close>

definition attempt :: "('d, 'a) io \<Rightarrow> (go_error + 'a \<Rightarrow> ('d, 'b) io) \<Rightarrow> ('d, 'b) io" where
  "attempt m k w = (case m w of (r, w') \<Rightarrow> k r w')"

text \<open>\<open>x, err := m(); if err != nil { return err }; ..\<close>.\<close>

definition bindE :: "('d, 'a) io \<Rightarrow> ('a \<Rightarrow> ('d, 'b) io) \<Rightarrow> ('d, 'b) io" where
  "bindE m k w = (case m w of (Inl e, w') \<Rightarrow> (Inl e, w') | (Inr x, w') \<Rightarrow> k x w')"

text \<open>\<open>_ = m()\<close>: the outcome is dropped.\<close>

definition ignoring :: "('d, 'a) io \<Rightarrow> ('d, 'b) io \<Rightarrow> ('d, 'b) io" where
  "ignoring m k = attempt m (\<lambda>_. k)"

text \<open>
  \<open>time.Now().UTC()\<close>, \<open>uuid.New()\<close> and \<open>n\<close> bytes from \<open>crypto/rand\<close> (a draw may fail).
  \<open>draw_below n\<close> is \<open>rand.Int(rand.Reader, n)\<close> for the small bounds the code uses: some number below
  \<open>n\<close>, each of them possible.
\<close>

definition now :: "('d, time) io" where
  "now w = (Inr (clock w (readings w)), w\<lparr>readings := Suc (readings w)\<rparr>)"

definition new_uuid :: "('d, uuid) io" where
  "new_uuid w = (Inr (uuids w (minted w)), w\<lparr>minted := Suc (minted w)\<rparr>)"

definition draw_bytes :: "nat \<Rightarrow> ('d, string) io" where
  "draw_bytes n w =
     (case entropy w (drawn w) of None \<Rightarrow> Inl OtherError | Some f \<Rightarrow> Inr (map f [0..<n]),
      w\<lparr>drawn := Suc (drawn w)\<rparr>)"

definition draw_below :: "nat \<Rightarrow> ('d, nat) io" where
  "draw_below n = bindE (draw_bytes 1) (\<lambda>s. ret (of_char (hd s) mod n))"

text \<open>
  One SQL statement, autocommitted: it takes the database's own \<open>NOW()\<close>, either fails and leaves the
  store alone, or returns a value and the new store.
\<close>

definition sql :: "(time \<Rightarrow> 'd \<Rightarrow> go_error + 'a \<times> 'd) \<Rightarrow> ('d, 'a) io" where
  "sql f w =
     (let t = clock w (readings w);
          w1 = w\<lparr>readings := Suc (readings w), stmts := Suc (stmts w)\<rparr>
      in if outage w (stmts w) then (Inl DBError, w1)
         else case f t (store w) of Inl e \<Rightarrow> (Inl e, w1) | Inr (x, d) \<Rightarrow> (Inr x, w1\<lparr>store := d\<rparr>))"

definition query :: "('d \<Rightarrow> go_error + 'a) \<Rightarrow> ('d, 'a) io" where
  "query f = sql (\<lambda>_ d. case f d of Inl e \<Rightarrow> Inl e | Inr x \<Rightarrow> Inr (x, d))"

text \<open>
  A transaction: \<open>BEGIN\<close>, the body, \<open>COMMIT\<close>, with the deferred \<open>ROLLBACK\<close> on every other way out.
  A failing \<open>COMMIT\<close> is taken to have rolled back.
\<close>

definition transaction :: "('d, 'a) io \<Rightarrow> ('d, 'a) io" where
  "transaction m w =
     (let r = bindE (sql (\<lambda>_ d. Inr ((), d))) (\<lambda>_. bindE m (\<lambda>x. bindE (sql (\<lambda>_ d. Inr ((), d))) (\<lambda>_. ret x))) w
      in case r of
           (Inl e, w') \<Rightarrow> (Inl e, w'\<lparr>store := store w\<rparr>)
         | (Inr x, w') \<Rightarrow> (Inr x, w'))"

text \<open>A \<open>for _, x := range xs\<close> whose body cannot stop the loop.\<close>

fun for_each :: "('a \<Rightarrow> ('d, 'b) io) \<Rightarrow> 'a list \<Rightarrow> ('d, unit) io" where
  "for_each body [] = ret ()"
| "for_each body (x # xs) = ignoring (body x) (for_each body xs)"

text \<open>A loop whose body returns from the function on error.\<close>

fun for_each_or_return :: "('a \<Rightarrow> ('d, 'b) io) \<Rightarrow> 'a list \<Rightarrow> ('d, unit) io" where
  "for_each_or_return body [] = ret ()"
| "for_each_or_return body (x # xs) = bindE (body x) (\<lambda>_. for_each_or_return body xs)"

section \<open>What an action did when it returned\<close>

text \<open>
  \<open>returns\<close> collects the rules that take apart \<open>m w = (Inr x, w')\<close>: rewriting with them turns the
  success of a handler into the facts its guards established.
\<close>

named_theorems returns

lemma ret_returns [returns]: "ret x w = (r, w') \<longleftrightarrow> r = Inr x \<and> w' = w"
  by (auto simp: ret_def)

lemma fail_returns [returns]: "fail e w = (r, w') \<longleftrightarrow> r = Inl e \<and> w' = w"
  by (auto simp: fail_def)

lemma attempt_returns [returns]:
  "attempt m k w = (r, w') \<longleftrightarrow> (\<exists>r1 w1. m w = (r1, w1) \<and> k r1 w1 = (r, w'))"
  by (auto simp: attempt_def split: prod.splits)

lemma bindE_attempt: "bindE m k = attempt m (\<lambda>r. case r of Inl e \<Rightarrow> fail e | Inr x \<Rightarrow> k x)"
  by (auto simp: bindE_def attempt_def fail_def fun_eq_iff split: prod.splits sum.splits)

lemma bindE_returns [returns]:
  "bindE m k w = (Inr y, w') \<longleftrightarrow> (\<exists>x w1. m w = (Inr x, w1) \<and> k x w1 = (Inr y, w'))"
  by (auto simp: bindE_def split: prod.splits sum.splits)

lemma bindE_fails:
  "bindE m k w = (Inl e, w') \<longleftrightarrow>
     m w = (Inl e, w') \<or> (\<exists>x w1. m w = (Inr x, w1) \<and> k x w1 = (Inl e, w'))"
  by (auto simp: bindE_def split: prod.splits sum.splits)

lemma ignoring_returns [returns]:
  "ignoring m k w = (r, w') \<longleftrightarrow> (\<exists>r1 w1. m w = (r1, w1) \<and> k w1 = (r, w'))"
  by (simp add: ignoring_def attempt_returns)

lemma now_returns [returns]:
  "now w = (r, w') \<longleftrightarrow> r = Inr (clock w (readings w)) \<and> w' = w\<lparr>readings := Suc (readings w)\<rparr>"
  by (auto simp: now_def)

lemma new_uuid_returns [returns]:
  "new_uuid w = (r, w') \<longleftrightarrow> r = Inr (uuids w (minted w)) \<and> w' = w\<lparr>minted := Suc (minted w)\<rparr>"
  by (auto simp: new_uuid_def)

lemma draw_bytes_returns [returns]:
  "draw_bytes n w = (Inr s, w') \<longleftrightarrow>
     (\<exists>f. entropy w (drawn w) = Some f \<and> s = map f [0..<n]) \<and> w' = w\<lparr>drawn := Suc (drawn w)\<rparr>"
  by (auto simp: draw_bytes_def split: option.splits)

lemma sql_returns [returns]:
  "sql f w = (Inr x, w') \<longleftrightarrow>
     \<not> outage w (stmts w) \<and>
     (\<exists>d. f (clock w (readings w)) (store w) = Inr (x, d) \<and>
          w' = w\<lparr>store := d, readings := Suc (readings w), stmts := Suc (stmts w)\<rparr>)"
  by (auto simp: sql_def Let_def split: sum.splits)

lemma query_returns [returns]:
  "query f w = (Inr x, w') \<longleftrightarrow>
     \<not> outage w (stmts w) \<and> f (store w) = Inr x \<and>
     w' = w\<lparr>readings := Suc (readings w), stmts := Suc (stmts w)\<rparr>"
  by (auto simp: query_def sql_returns split: sum.splits)

lemma if_returns [returns]:
  "(if c then m else m') w = (r, w') \<longleftrightarrow> (c \<and> m w = (r, w')) \<or> (\<not> c \<and> m' w = (r, w'))"
  by auto

lemma let_returns [returns]: "(let x = t in k x) w = (r, w') \<longleftrightarrow> k t w = (r, w')"
  by (simp add: Let_def)

lemma transaction_returns:
  "transaction m w = (Inr x, w') \<longleftrightarrow>
     (\<exists>w1 w2. sql (\<lambda>_ d. Inr ((), d)) w = (Inr (), w1) \<and> m w1 = (Inr x, w2) \<and>
              sql (\<lambda>_ d. Inr ((), d)) w2 = (Inr (), w'))"
proof -
  have "transaction m w = (Inr x, w') \<longleftrightarrow>
    bindE (sql (\<lambda>_ d. Inr ((), d))) (\<lambda>_. bindE m (\<lambda>x. bindE (sql (\<lambda>_ d. Inr ((), d))) (\<lambda>_. ret x))) w = (Inr x, w')"
    unfolding transaction_def Let_def by (auto split: prod.splits sum.splits)
  then show ?thesis by (simp add: bindE_returns ret_returns)
qed

lemma transaction_runs:
  assumes "transaction m w = (Inr x, w')"
  obtains w1 w2 where "store w1 = store w" "clock w1 = clock w" "m w1 = (Inr x, w2)" "store w' = store w2"
proof -
  from assms obtain w1 w2 where "sql (\<lambda>_ d. Inr ((), d)) w = (Inr (), w1)" "m w1 = (Inr x, w2)"
    "sql (\<lambda>_ d. Inr ((), d)) w2 = (Inr (), w')"
    unfolding transaction_returns by blast
  then show thesis using that [of w1 w2] by (simp add: sql_returns)
qed

section \<open>How an action treats the store\<close>

text \<open>
  \<open>readonly\<close> never changes the store; \<open>all_or_nothing\<close> leaves it alone whenever it reports an error;
  \<open>preserves I\<close> keeps an invariant of the store, whatever the oracles do. Each has one rule per
  construct, collected in \<open>store_rules\<close>, so that the proof for a handler is its syntax.
\<close>

definition readonly :: "('d, 'a) io \<Rightarrow> bool" where
  "readonly m \<longleftrightarrow> (\<forall>w. store (snd (m w)) = store w)"

definition all_or_nothing :: "('d, 'a) io \<Rightarrow> bool" where
  "all_or_nothing m \<longleftrightarrow> (\<forall>w e w'. m w = (Inl e, w') \<longrightarrow> store w' = store w)"

definition preserves :: "('d \<Rightarrow> bool) \<Rightarrow> ('d, 'a) io \<Rightarrow> bool" where
  "preserves I m \<longleftrightarrow> (\<forall>w. I (store w) \<longrightarrow> I (store (snd (m w))))"

named_theorems store_rules

lemma readonlyD: "readonly m \<Longrightarrow> m w = (r, w') \<Longrightarrow> store w' = store w"
  by (metis readonly_def snd_conv)

lemma readonlyI: "(\<And>w r w'. m w = (r, w') \<Longrightarrow> store w' = store w) \<Longrightarrow> readonly m"
  unfolding readonly_def by (metis prod.collapse)

lemma all_or_nothingD: "all_or_nothing m \<Longrightarrow> m w = (Inl e, w') \<Longrightarrow> store w' = store w"
  by (auto simp: all_or_nothing_def)

lemma preservesD: "preserves I m \<Longrightarrow> m w = (r, w') \<Longrightarrow> I (store w) \<Longrightarrow> I (store w')"
  by (metis preserves_def snd_conv)

lemma preservesI: "(\<And>w r w'. m w = (r, w') \<Longrightarrow> I (store w) \<Longrightarrow> I (store w')) \<Longrightarrow> preserves I m"
  unfolding preserves_def by (metis prod.collapse)

lemma readonly_preserves: "readonly m \<Longrightarrow> preserves I m"
  by (simp add: readonly_def preserves_def)

lemma readonly_all_or_nothing: "readonly m \<Longrightarrow> all_or_nothing m"
  by (metis readonlyD all_or_nothing_def)

text \<open>An action that changes the store only by succeeding keeps what its successes keep.\<close>

lemma all_or_nothing_preserves:
  assumes "all_or_nothing m"
    and "\<And>w x w'. m w = (Inr x, w') \<Longrightarrow> I (store w) \<Longrightarrow> I (store w')"
  shows "preserves I m"
proof (rule preservesI)
  fix w r w'
  assume "m w = (r, w')" "I (store w)"
  then show "I (store w')"
    using assms by (cases r) (auto dest: all_or_nothingD)
qed

lemma readonly_ret [store_rules]: "readonly (ret x)"
  by (simp add: readonly_def ret_def)

lemma readonly_fail [store_rules]: "readonly (fail e)"
  by (simp add: readonly_def fail_def)

lemma readonly_attempt [store_rules]:
  "readonly m \<Longrightarrow> (\<And>r. readonly (k r)) \<Longrightarrow> readonly (attempt m k)"
  by (rule readonlyI) (metis attempt_returns readonlyD)

lemma readonly_bindE [store_rules]:
  "readonly m \<Longrightarrow> (\<And>x. readonly (k x)) \<Longrightarrow> readonly (bindE m k)"
  unfolding bindE_attempt by (rule readonly_attempt) (simp_all add: readonly_fail split: sum.splits)

lemma readonly_ignoring [store_rules]: "readonly m \<Longrightarrow> readonly k \<Longrightarrow> readonly (ignoring m k)"
  unfolding ignoring_def by (rule readonly_attempt)

lemma readonly_now [store_rules]: "readonly now"
  by (simp add: readonly_def now_def)

lemma readonly_new_uuid [store_rules]: "readonly new_uuid"
  by (simp add: readonly_def new_uuid_def)

lemma readonly_draw_bytes [store_rules]: "readonly (draw_bytes n)"
  by (simp add: readonly_def draw_bytes_def)

lemma readonly_draw_below [store_rules]: "readonly (draw_below n)"
  unfolding draw_below_def by (intro store_rules)

lemma readonly_query [store_rules]: "readonly (query f)"
  by (auto simp: readonly_def query_def sql_def Let_def split: sum.splits)

lemma readonly_if [store_rules]: "readonly m \<Longrightarrow> readonly m' \<Longrightarrow> readonly (if c then m else m')"
  by simp

lemma readonly_option [store_rules]:
  "readonly m \<Longrightarrow> (\<And>x. readonly (k x)) \<Longrightarrow> readonly (case y of None \<Rightarrow> m | Some x \<Rightarrow> k x)"
  by (cases y) auto

lemma readonly_sum [store_rules]:
  "(\<And>e. readonly (k e)) \<Longrightarrow> (\<And>x. readonly (l x)) \<Longrightarrow> readonly (case y of Inl e \<Rightarrow> k e | Inr x \<Rightarrow> l x)"
  by (cases y) auto

lemma readonly_prod [store_rules]:
  "(\<And>a b. readonly (k a b)) \<Longrightarrow> readonly (case y of (a, b) \<Rightarrow> k a b)"
  by (cases y) auto

lemma all_or_nothing_sql [store_rules]: "all_or_nothing (sql f)"
  by (auto simp: all_or_nothing_def sql_def Let_def split: if_splits sum.splits prod.splits)

lemma all_or_nothing_transaction [store_rules]: "all_or_nothing (transaction m)"
  by (auto simp: all_or_nothing_def transaction_def Let_def split: prod.splits sum.splits)

lemma all_or_nothing_ret [store_rules]: "all_or_nothing (ret x)"
  by (simp add: readonly_all_or_nothing readonly_ret)

lemma all_or_nothing_fail [store_rules]: "all_or_nothing (fail e)"
  by (simp add: readonly_all_or_nothing readonly_fail)

text \<open>Reads, then one write; or one write, then nothing that can fail.\<close>

lemma all_or_nothing_read_first [store_rules]:
  "readonly m \<Longrightarrow> (\<And>x. all_or_nothing (k x)) \<Longrightarrow> all_or_nothing (bindE m k)"
  unfolding all_or_nothing_def bindE_fails by (metis readonlyD)

lemma all_or_nothing_attempt:
  "readonly m \<Longrightarrow> (\<And>r. all_or_nothing (k r)) \<Longrightarrow> all_or_nothing (attempt m k)"
  unfolding all_or_nothing_def by (metis attempt_returns readonlyD)

lemma all_or_nothing_write_last:
  "all_or_nothing m \<Longrightarrow> (\<And>x. \<forall>w. \<exists>y w'. k x w = (Inr y, w')) \<Longrightarrow> all_or_nothing (bindE m k)"
  unfolding all_or_nothing_def bindE_fails by (metis Inl_Inr_False prod.inject)

lemma all_or_nothing_then_ret [store_rules]:
  "all_or_nothing m \<Longrightarrow> all_or_nothing (bindE m (\<lambda>x. ret (f x)))"
  by (rule all_or_nothing_write_last) (auto simp: ret_def)

lemma all_or_nothing_if [store_rules]:
  "all_or_nothing m \<Longrightarrow> all_or_nothing m' \<Longrightarrow> all_or_nothing (if c then m else m')"
  by simp

lemma all_or_nothing_option [store_rules]:
  "all_or_nothing m \<Longrightarrow> (\<And>x. all_or_nothing (k x)) \<Longrightarrow>
   all_or_nothing (case y of None \<Rightarrow> m | Some x \<Rightarrow> k x)"
  by (cases y) auto

lemma all_or_nothing_sum [store_rules]:
  "(\<And>e. all_or_nothing (k e)) \<Longrightarrow> (\<And>x. all_or_nothing (l x)) \<Longrightarrow>
   all_or_nothing (case y of Inl e \<Rightarrow> k e | Inr x \<Rightarrow> l x)"
  by (cases y) auto

lemma all_or_nothing_prod [store_rules]:
  "(\<And>a b. all_or_nothing (k a b)) \<Longrightarrow> all_or_nothing (case y of (a, b) \<Rightarrow> k a b)"
  by (cases y) auto

lemma preserves_ret [store_rules]: "preserves I (ret x)"
  by (simp add: readonly_preserves readonly_ret)

lemma preserves_fail [store_rules]: "preserves I (fail e)"
  by (simp add: readonly_preserves readonly_fail)

lemma preserves_attempt [store_rules]:
  "preserves I m \<Longrightarrow> (\<And>r. preserves I (k r)) \<Longrightarrow> preserves I (attempt m k)"
  by (rule preservesI) (metis attempt_returns preservesD)

lemma preserves_bindE [store_rules]:
  "preserves I m \<Longrightarrow> (\<And>x. preserves I (k x)) \<Longrightarrow> preserves I (bindE m k)"
  unfolding bindE_attempt by (rule preserves_attempt) (simp_all add: preserves_fail split: sum.splits)

lemma preserves_ignoring [store_rules]:
  "preserves I m \<Longrightarrow> preserves I k \<Longrightarrow> preserves I (ignoring m k)"
  unfolding ignoring_def by (rule preserves_attempt)

lemma preserves_now [store_rules]: "preserves I now"
  by (simp add: readonly_preserves readonly_now)

lemma preserves_new_uuid [store_rules]: "preserves I new_uuid"
  by (simp add: readonly_preserves readonly_new_uuid)

lemma preserves_draw_bytes [store_rules]: "preserves I (draw_bytes n)"
  by (simp add: readonly_preserves readonly_draw_bytes)

lemma preserves_draw_below [store_rules]: "preserves I (draw_below n)"
  by (simp add: readonly_preserves readonly_draw_below)

lemma preserves_query [store_rules]: "preserves I (query f)"
  by (simp add: readonly_preserves readonly_query)

lemma preserves_sql:
  "(\<And>t d x d'. f t d = Inr (x, d') \<Longrightarrow> I d \<Longrightarrow> I d') \<Longrightarrow> preserves I (sql f)"
  by (rule all_or_nothing_preserves [OF all_or_nothing_sql]) (auto simp: sql_returns)

lemma preserves_transaction [store_rules]:
  assumes "preserves I m"
  shows "preserves I (transaction m)"
  by (rule all_or_nothing_preserves [OF all_or_nothing_transaction])
    (auto simp: transaction_returns sql_returns dest: preservesD [OF assms])

lemma preserves_if [store_rules]:
  "(c \<Longrightarrow> preserves I m) \<Longrightarrow> (\<not> c \<Longrightarrow> preserves I m') \<Longrightarrow> preserves I (if c then m else m')"
  by simp

lemma preserves_option [store_rules]:
  "preserves I m \<Longrightarrow> (\<And>x. preserves I (k x)) \<Longrightarrow> preserves I (case y of None \<Rightarrow> m | Some x \<Rightarrow> k x)"
  by (cases y) auto

lemma preserves_sum [store_rules]:
  "(\<And>e. preserves I (k e)) \<Longrightarrow> (\<And>x. preserves I (l x)) \<Longrightarrow>
   preserves I (case y of Inl e \<Rightarrow> k e | Inr x \<Rightarrow> l x)"
  by (cases y) auto

lemma preserves_prod [store_rules]:
  "(\<And>a b. preserves I (k a b)) \<Longrightarrow> preserves I (case y of (a, b) \<Rightarrow> k a b)"
  by (cases y) auto

lemma preserves_for_each: "(\<And>x. x \<in> set xs \<Longrightarrow> preserves I (body x)) \<Longrightarrow> preserves I (for_each body xs)"
  by (induction xs) (auto intro!: store_rules)

lemma preserves_for_each_or_return:
  "(\<And>x. x \<in> set xs \<Longrightarrow> preserves I (body x)) \<Longrightarrow> preserves I (for_each_or_return body xs)"
  by (induction xs) (auto intro!: store_rules)

section \<open>Before and after\<close>

text \<open>
  \<open>hoare P m Q\<close>: run on a store with \<open>P\<close>, the action ends with an outcome and a store in \<open>Q\<close>, whatever
  the oracles do. It carries what a read has seen to the write that relies on it.
\<close>

definition hoare :: "('d \<Rightarrow> bool) \<Rightarrow> ('d, 'a) io \<Rightarrow> (go_error + 'a \<Rightarrow> 'd \<Rightarrow> bool) \<Rightarrow> bool" where
  "hoare P m Q \<longleftrightarrow> (\<forall>w r w'. m w = (r, w') \<longrightarrow> P (store w) \<longrightarrow> Q r (store w'))"

lemma hoareD: "hoare P m Q \<Longrightarrow> m w = (r, w') \<Longrightarrow> P (store w) \<Longrightarrow> Q r (store w')"
  by (simp add: hoare_def)

lemma hoareI: "(\<And>w r w'. m w = (r, w') \<Longrightarrow> P (store w) \<Longrightarrow> Q r (store w')) \<Longrightarrow> hoare P m Q"
  by (simp add: hoare_def)

lemma preserves_hoare: "preserves I m \<longleftrightarrow> hoare I m (\<lambda>_. I)"
  unfolding hoare_def preserves_def by (metis prod.collapse snd_conv)

lemma hoare_weaken:
  "hoare P' m Q' \<Longrightarrow> (\<And>d. P d \<Longrightarrow> P' d) \<Longrightarrow> (\<And>r d. Q' r d \<Longrightarrow> Q r d) \<Longrightarrow> hoare P m Q"
  by (simp add: hoare_def)

lemma hoare_attempt: "hoare P m Q \<Longrightarrow> (\<And>r. hoare (Q r) (k r) R) \<Longrightarrow> hoare P (attempt m k) R"
  unfolding hoare_def attempt_returns by blast

lemma hoare_attempt_cases:
  assumes "hoare P m (\<lambda>r d. case r of Inl e \<Rightarrow> E e d | Inr x \<Rightarrow> Q x d)"
    and "\<And>e. hoare (E e) (k (Inl e)) R" and "\<And>x. hoare (Q x) (k (Inr x)) R"
  shows "hoare P (attempt m k) R"
  by (rule hoare_attempt [OF assms(1)]) (use assms(2,3) in \<open>auto simp: hoare_def split: sum.splits\<close>)

lemma hoare_if: "hoare P m Q \<Longrightarrow> hoare P m' Q \<Longrightarrow> hoare P (if c then m else m') Q"
  by simp

lemma hoare_ignoring: "hoare P m (\<lambda>_. Q) \<Longrightarrow> hoare Q k R \<Longrightarrow> hoare P (ignoring m k) R"
  unfolding ignoring_def by (rule hoare_attempt)

lemma hoare_bindE:
  assumes "hoare P m (\<lambda>r d. case r of Inl e \<Rightarrow> R (Inl e) d | Inr x \<Rightarrow> Q x d)" and "\<And>x. hoare (Q x) (k x) R"
  shows "hoare P (bindE m k) R"
  unfolding bindE_attempt
  by (rule hoare_attempt [OF assms(1)]) (use assms(2) in \<open>auto simp: hoare_def fail_def split: sum.splits\<close>)

lemma hoare_sql:
  "(\<And>d. P d \<Longrightarrow> Q (Inl DBError) d) \<Longrightarrow>
   (\<And>t d. P d \<Longrightarrow> case f t d of Inl e \<Rightarrow> Q (Inl e) d | Inr (x, d') \<Rightarrow> Q (Inr x) d') \<Longrightarrow> hoare P (sql f) Q"
  unfolding hoare_def sql_def Let_def
  by (auto split: if_splits sum.splits prod.splits) (metis (mono_tags, lifting) case_prod_conv old.sum.simps(5,6))+

lemma hoare_fail: "(\<And>d. P d \<Longrightarrow> Q (Inl e) d) \<Longrightarrow> hoare P (fail e) Q"
  by (simp add: hoare_def fail_def)

lemma hoare_ret: "(\<And>d. P d \<Longrightarrow> Q (Inr x) d) \<Longrightarrow> hoare P (ret x) Q"
  by (simp add: hoare_def ret_def)

lemma hoare_readonly: "readonly m \<Longrightarrow> (\<And>r d. P d \<Longrightarrow> Q r d) \<Longrightarrow> hoare P m Q"
  by (rule hoareI) (simp add: readonlyD)

lemma attempt_fail_returns:
  "attempt m (\<lambda>r. case r of Inl e \<Rightarrow> fail (f e) | Inr x \<Rightarrow> k x) w = (Inr y, w') \<longleftrightarrow>
     (\<exists>x w1. m w = (Inr x, w1) \<and> k x w1 = (Inr y, w'))"
  by (auto simp: attempt_def fail_def split: prod.splits sum.splits)

section \<open>Which errors an action reports\<close>

definition errors_in :: "go_error set \<Rightarrow> ('d, 'a) io \<Rightarrow> bool" where
  "errors_in E m \<longleftrightarrow> (\<forall>w e w'. m w = (Inl e, w') \<longrightarrow> e \<in> E)"

named_theorems error_rules

lemma errors_inD: "errors_in E m \<Longrightarrow> m w = (Inl e, w') \<Longrightarrow> e \<in> E"
  unfolding errors_in_def by blast

lemma errors_in_mono: "errors_in E m \<Longrightarrow> E \<subseteq> E' \<Longrightarrow> errors_in E' m"
  unfolding errors_in_def by blast

lemma errors_ret [error_rules]: "errors_in E (ret x)"
  by (simp add: errors_in_def ret_def)

lemma errors_fail [error_rules]: "e \<in> E \<Longrightarrow> errors_in E (fail e)"
  by (simp add: errors_in_def fail_def)

lemma errors_attempt:
  "errors_in F m \<Longrightarrow> (\<And>e. e \<in> F \<Longrightarrow> errors_in E (k (Inl e))) \<Longrightarrow> (\<And>x. errors_in E (k (Inr x))) \<Longrightarrow>
   errors_in E (attempt m k)"
  unfolding errors_in_def attempt_returns by (metis sum.exhaust)

lemma errors_bindE [error_rules]: "errors_in E m \<Longrightarrow> (\<And>x. errors_in E (k x)) \<Longrightarrow> errors_in E (bindE m k)"
  unfolding errors_in_def bindE_fails by blast

lemma errors_ignoring [error_rules]: "errors_in E k \<Longrightarrow> errors_in E (ignoring m k)"
  unfolding errors_in_def ignoring_def attempt_returns by blast

lemma errors_oracles [error_rules]:
  "errors_in E now" "errors_in E new_uuid" "OtherError \<in> E \<Longrightarrow> errors_in E (draw_bytes n)"
  by (simp_all add: errors_in_def now_def new_uuid_def draw_bytes_def split: option.splits)

lemma errors_sql:
  "DBError \<in> E \<Longrightarrow> (\<And>t d e. f t d = Inl e \<Longrightarrow> e \<in> E) \<Longrightarrow> errors_in E (sql f)"
  by (auto simp: errors_in_def sql_def Let_def split: if_splits sum.splits)

lemma errors_query:
  "DBError \<in> E \<Longrightarrow> (\<And>d e. f d = Inl e \<Longrightarrow> e \<in> E) \<Longrightarrow> errors_in E (query f)"
  unfolding query_def by (rule errors_sql) (auto split: sum.splits)

lemma errors_if [error_rules]: "(c \<Longrightarrow> errors_in E m) \<Longrightarrow> (\<not> c \<Longrightarrow> errors_in E m') \<Longrightarrow> errors_in E (if c then m else m')"
  by simp

lemma errors_option [error_rules]:
  "errors_in E m \<Longrightarrow> (\<And>x. errors_in E (k x)) \<Longrightarrow> errors_in E (case y of None \<Rightarrow> m | Some x \<Rightarrow> k x)"
  by (cases y) auto

lemma errors_sum [error_rules]:
  "(\<And>e. y = Inl e \<Longrightarrow> errors_in E (k e)) \<Longrightarrow> (\<And>x. errors_in E (l x)) \<Longrightarrow>
   errors_in E (case y of Inl e \<Rightarrow> k e | Inr x \<Rightarrow> l x)"
  by (cases y) auto

lemma errors_transaction [error_rules]: "DBError \<in> E \<Longrightarrow> errors_in E m \<Longrightarrow> errors_in E (transaction m)"
proof -
  assume "DBError \<in> E" "errors_in E m"
  then have "errors_in E (bindE (sql (\<lambda>_ d. Inr ((), d)))
          (\<lambda>_. bindE m (\<lambda>x. bindE (sql (\<lambda>_ d. Inr ((), d))) (\<lambda>_. ret x))))" (is "errors_in E ?b")
    by (intro error_rules errors_sql) simp_all
  then show ?thesis
    unfolding errors_in_def transaction_def Let_def by (auto split: prod.splits sum.splits)
qed

section \<open>Worlds without outages\<close>

text \<open>
  \<open>calm\<close> says that no statement fails. Every action leaves the oracles as they are, so a calm world
  stays calm; each construct has a rule in \<open>oracle_rules\<close>.
\<close>

definition calm :: "'d world \<Rightarrow> bool" where
  "calm w \<longleftrightarrow> (\<forall>n. \<not> outage w n)"

definition keeps_oracles :: "('d, 'a) io \<Rightarrow> bool" where
  "keeps_oracles m \<longleftrightarrow> (\<forall>w. let w' = snd (m w) in
     clock w' = clock w \<and> uuids w' = uuids w \<and> entropy w' = entropy w \<and> outage w' = outage w)"

named_theorems oracle_rules

lemma keeps_oraclesD:
  "keeps_oracles m \<Longrightarrow> m w = (r, w') \<Longrightarrow>
   clock w' = clock w \<and> uuids w' = uuids w \<and> entropy w' = entropy w \<and> outage w' = outage w"
  by (metis keeps_oracles_def snd_conv)

lemma keeps_oracles_calm: "keeps_oracles m \<Longrightarrow> m w = (r, w') \<Longrightarrow> calm w' \<longleftrightarrow> calm w"
  by (auto simp: calm_def dest: keeps_oraclesD)

lemma keeps_oracles_ret [oracle_rules]: "keeps_oracles (ret x)"
  by (simp add: keeps_oracles_def ret_def)

lemma keeps_oracles_fail [oracle_rules]: "keeps_oracles (fail e)"
  by (simp add: keeps_oracles_def fail_def)

lemma keeps_oracles_attempt [oracle_rules]:
  assumes "keeps_oracles m" and "\<And>r. keeps_oracles (k r)"
  shows "keeps_oracles (attempt m k)"
  unfolding keeps_oracles_def Let_def
proof
  fix w
  obtain r w' where m: "m w = (r, w')" by (cases "m w")
  obtain r' w'' where k: "k r w' = (r', w'')" by (cases "k r w'")
  show "clock (snd (attempt m k w)) = clock w \<and> uuids (snd (attempt m k w)) = uuids w \<and>
        entropy (snd (attempt m k w)) = entropy w \<and> outage (snd (attempt m k w)) = outage w"
    using keeps_oraclesD [OF assms(1) m] keeps_oraclesD [OF assms(2) k] m k
    by (simp add: attempt_def)
qed

lemma keeps_oracles_bindE [oracle_rules]:
  "keeps_oracles m \<Longrightarrow> (\<And>x. keeps_oracles (k x)) \<Longrightarrow> keeps_oracles (bindE m k)"
  unfolding bindE_attempt
  by (rule keeps_oracles_attempt) (simp_all add: keeps_oracles_fail split: sum.splits)

lemma keeps_oracles_ignoring [oracle_rules]:
  "keeps_oracles m \<Longrightarrow> keeps_oracles k \<Longrightarrow> keeps_oracles (ignoring m k)"
  unfolding ignoring_def by (rule keeps_oracles_attempt)

lemma keeps_oracles_now [oracle_rules]: "keeps_oracles now"
  by (simp add: keeps_oracles_def now_def)

lemma keeps_oracles_new_uuid [oracle_rules]: "keeps_oracles new_uuid"
  by (simp add: keeps_oracles_def new_uuid_def)

lemma keeps_oracles_draw_bytes [oracle_rules]: "keeps_oracles (draw_bytes n)"
  by (simp add: keeps_oracles_def draw_bytes_def)

lemma keeps_oracles_draw_below [oracle_rules]: "keeps_oracles (draw_below n)"
  unfolding draw_below_def by (intro oracle_rules)

lemma keeps_oracles_sql [oracle_rules]: "keeps_oracles (sql f)"
  by (auto simp: keeps_oracles_def sql_def Let_def split: sum.splits)

lemma keeps_oracles_query [oracle_rules]: "keeps_oracles (query f)"
  unfolding query_def by (rule keeps_oracles_sql)

lemma keeps_oracles_transaction [oracle_rules]:
  assumes "keeps_oracles m"
  shows "keeps_oracles (transaction m)"
proof -
  have "keeps_oracles (bindE (sql (\<lambda>_ d. Inr ((), d)))
          (\<lambda>_. bindE m (\<lambda>x. bindE (sql (\<lambda>_ d. Inr ((), d))) (\<lambda>_. ret x))))" (is "keeps_oracles ?b")
    using assms by (intro oracle_rules)
  then show ?thesis
    unfolding keeps_oracles_def transaction_def Let_def
    by (auto split: prod.splits sum.splits) (metis snd_conv)+
qed

lemma keeps_oracles_if [oracle_rules]:
  "keeps_oracles m \<Longrightarrow> keeps_oracles m' \<Longrightarrow> keeps_oracles (if c then m else m')"
  by simp

lemma keeps_oracles_option [oracle_rules]:
  "keeps_oracles m \<Longrightarrow> (\<And>x. keeps_oracles (k x)) \<Longrightarrow>
   keeps_oracles (case y of None \<Rightarrow> m | Some x \<Rightarrow> k x)"
  by (cases y) auto

lemma keeps_oracles_sum [oracle_rules]:
  "(\<And>e. keeps_oracles (k e)) \<Longrightarrow> (\<And>x. keeps_oracles (l x)) \<Longrightarrow>
   keeps_oracles (case y of Inl e \<Rightarrow> k e | Inr x \<Rightarrow> l x)"
  by (cases y) auto

lemma keeps_oracles_prod [oracle_rules]:
  "(\<And>a b. keeps_oracles (k a b)) \<Longrightarrow> keeps_oracles (case y of (a, b) \<Rightarrow> k a b)"
  by (cases y) auto

lemma keeps_oracles_for_each:
  "(\<And>x. keeps_oracles (body x)) \<Longrightarrow> keeps_oracles (for_each body xs)"
  by (induction xs) (auto intro!: oracle_rules)

lemma calm_outage [simp]: "calm w \<Longrightarrow> \<not> outage w n"
  by (simp add: calm_def)

lemma calm_ticks [simp]:
  "calm (w\<lparr>readings := n\<rparr>) = calm w" "calm (w\<lparr>stmts := n\<rparr>) = calm w" "calm (w\<lparr>store := d\<rparr>) = calm w"
  "calm (w\<lparr>minted := n\<rparr>) = calm w" "calm (w\<lparr>drawn := n\<rparr>) = calm w"
  "calm (w\<lparr>posted := qs\<rparr>) = calm w"
  by (simp_all add: calm_def)

text \<open>Running an action in a calm world: one equation per construct.\<close>

lemma query_calm:
  "calm w \<Longrightarrow> query f w = (f (store w), w\<lparr>readings := Suc (readings w), stmts := Suc (stmts w)\<rparr>)"
  by (auto simp: query_def sql_def Let_def split: sum.splits)

lemma sql_calm:
  "calm w \<Longrightarrow> sql f w =
     (case f (clock w (readings w)) (store w) of
        Inl e \<Rightarrow> (Inl e, w\<lparr>readings := Suc (readings w), stmts := Suc (stmts w)\<rparr>)
      | Inr (x, d) \<Rightarrow> (Inr x, w\<lparr>store := d, readings := Suc (readings w), stmts := Suc (stmts w)\<rparr>))"
  by (auto simp: sql_def Let_def split: sum.splits)

lemma bindE_run: "m w = (Inr x, w') \<Longrightarrow> bindE m k w = k x w'" "m w = (Inl e, w') \<Longrightarrow> bindE m k w = (Inl e, w')"
  by (simp_all add: bindE_def)

lemmas calm_run = query_calm sql_calm bindE_run ret_def fail_def now_def new_uuid_def

text \<open>Running closed actions: the definitions the witnesses evaluate by.\<close>

lemmas run_defs = ret_def fail_def attempt_def bindE_def ignoring_def now_def new_uuid_def draw_bytes_def
  draw_below_def sql_def query_def transaction_def Let_def

end
