(* ===== verification/Domain.thy ===== *)
theory Domain
  imports Complex_Main Effects
begin

text \<open>
  The package \<open>internal/domain\<close>: one record per struct, one datatype per enumeration, and the pure
  methods (validation, masking, the booking state machine, the password policy) with what they
  guarantee. Field names carry the initials of the struct. Enumerations that Go represents as
  strings are datatypes; where a request can put any string into one, a constructor keeps the text
  of an unknown value. Text columns and byte slices are Isabelle strings, nullable columns options.
\<close>

section \<open>Users, sessions, CAPTCHA challenges, resources\<close>

record user =
  u_ID :: uuid
  u_Username :: string
  u_PasswordHash :: string
  u_IsBlacklisted :: bool
  u_BlacklistReason :: string
  u_IsAdmin :: bool
  u_MustRotatePassword :: bool
  u_AnonymizedAt :: "time option"
  u_FailedAttempts :: int
  u_LockedUntil :: "time option"
  u_LastLoginAt :: "time option"
  u_CreatedAt :: time
  u_UpdatedAt :: time

record session =
  s_ID :: string
  s_UserID :: uuid
  s_CreatedAt :: time
  s_LastActivityAt :: time
  s_ExpiresAt :: time
  s_UserAgent :: string
  s_IP :: string

record captcha_challenge =
  c_Token :: string
  c_Question :: string
  c_Answer :: string
  c_CreatedAt :: time
  c_ExpiresAt :: time
  c_Consumed :: bool

record resource =
  r_ID :: uuid
  r_Name :: string
  r_Description :: string
  r_Capacity :: int
  r_CreatedAt :: time

definition CaptchaRequired :: "user \<Rightarrow> bool" where
  "CaptchaRequired u \<longleftrightarrow> u_FailedAttempts u \<ge> 2"

definition IsLocked :: "user \<Rightarrow> time \<Rightarrow> bool" where
  "IsLocked u t \<longleftrightarrow> (case u_LockedUntil u of None \<Rightarrow> False | Some until \<Rightarrow> until > t)"

section \<open>Privacy masks\<close>

text \<open>\<open>MaskName\<close> works on runes.\<close>

definition MaskName :: "string \<Rightarrow> string" where
  "MaskName name =
     (case runes name of
        [] \<Rightarrow> []
      | [r] \<Rightarrow> string_of_runes [r] @ ''*''
      | r # rs \<Rightarrow> string_of_runes (r # replicate (length rs) 42))"

text \<open>
  \<open>MaskEmail\<close> finds the first \<open>'@'\<close> by ranging over runes; since no byte of a multi-byte encoding
  is below 128, that is the first byte 64. It then works on the bytes of the local part.
\<close>

definition at_index :: "string \<Rightarrow> nat option" where
  "at_index s = (let i = length (takeWhile (\<lambda>c. of_char c \<noteq> (64::nat)) s) in if i < length s then Some i else None)"

definition MaskEmail :: "string \<Rightarrow> string" where
  "MaskEmail email =
     (if email = [] then []
      else case at_index email of
        None \<Rightarrow> MaskName email
      | Some i \<Rightarrow>
          if i = 0 then MaskName email
          else let local_part = take i email; domain = drop i email
               in if length local_part = 1 then local_part @ ''*'' @ domain
                  else hd local_part # replicate (length local_part - 1) (CHR ''*'') @ domain)"

section \<open>Bookings\<close>

datatype booking_status =
  StatusPendingConfirmation | StatusWaitlisted | StatusCheckedIn | StatusCompleted | StatusCanceled
| UnknownStatus string

definition booking_status_of :: "string \<Rightarrow> booking_status" where
  "booking_status_of s =
     (if s = ''pending_confirmation'' then StatusPendingConfirmation
      else if s = ''waitlisted'' then StatusWaitlisted
      else if s = ''checked_in'' then StatusCheckedIn
      else if s = ''completed'' then StatusCompleted
      else if s = ''canceled'' then StatusCanceled
      else UnknownStatus s)"

definition IsActive :: "booking_status \<Rightarrow> bool" where
  "IsActive s \<longleftrightarrow>
     (case s of StatusPendingConfirmation \<Rightarrow> True | StatusWaitlisted \<Rightarrow> True | StatusCheckedIn \<Rightarrow> True
      | _ \<Rightarrow> False)"

definition IsTerminal :: "booking_status \<Rightarrow> bool" where
  "IsTerminal s \<longleftrightarrow> s = StatusCompleted \<or> s = StatusCanceled"

record booking =
  b_ID :: uuid
  b_UserID :: uuid
  b_ResourceID :: uuid
  b_GroupID :: "uuid option"
  b_PartySize :: int
  b_StartTime :: time
  b_EndTime :: time
  b_Status :: booking_status
  b_Notes :: string
  b_SecureNotes :: string
  b_SecureNotesPlain :: string
  b_CreatedAt :: time
  b_UpdatedAt :: time

definition Booking_Validate :: "booking \<Rightarrow> go_error + unit" where
  "Booking_Validate b =
     (if b_UserID b = uuid_nil then Inl ErrInvalidInput
      else if b_ResourceID b = uuid_nil then Inl ErrInvalidInput
      else if b_PartySize b \<le> 0 then Inl ErrInvalidInput
      else if \<not> b_EndTime b > b_StartTime b then Inl ErrInvalidInput
      else Inr ())"

text \<open>The transition table of \<open>state.go\<close>; a status that is no key of the map has no row.\<close>

fun allowedTransitions :: "booking_status \<Rightarrow> booking_status list option" where
  "allowedTransitions StatusPendingConfirmation = Some [StatusWaitlisted, StatusCheckedIn, StatusCanceled]"
| "allowedTransitions StatusWaitlisted = Some [StatusPendingConfirmation, StatusCanceled]"
| "allowedTransitions StatusCheckedIn = Some [StatusCompleted, StatusCanceled]"
| "allowedTransitions StatusCompleted = Some []"
| "allowedTransitions StatusCanceled = Some []"
| "allowedTransitions (UnknownStatus _) = None"

definition CanTransition :: "booking_status \<Rightarrow> booking_status \<Rightarrow> bool" where
  "CanTransition src dst = (case allowedTransitions src of None \<Rightarrow> False | Some dests \<Rightarrow> dst \<in> set dests)"

text \<open>\<open>AllowedNext\<close> lists the keys of a Go map: in some order, here that of the table.\<close>

definition AllowedNext :: "booking_status \<Rightarrow> booking_status list" where
  "AllowedNext src = (case allowedTransitions src of None \<Rightarrow> [] | Some dests \<Rightarrow> dests)"

lemma CanTransition_simps [simp]:
  "CanTransition StatusPendingConfirmation t \<longleftrightarrow> t \<in> {StatusWaitlisted, StatusCheckedIn, StatusCanceled}"
  "CanTransition StatusWaitlisted t \<longleftrightarrow> t \<in> {StatusPendingConfirmation, StatusCanceled}"
  "CanTransition StatusCheckedIn t \<longleftrightarrow> t \<in> {StatusCompleted, StatusCanceled}"
  "CanTransition StatusCompleted t \<longleftrightarrow> False"
  "CanTransition StatusCanceled t \<longleftrightarrow> False"
  "CanTransition (UnknownStatus x) t \<longleftrightarrow> False"
  by (auto simp: CanTransition_def)

lemma CanTransition_known: "CanTransition s t \<Longrightarrow> t \<noteq> UnknownStatus x"
  by (cases s) auto

text \<open>
  The states that hold seats (\<open>status IN ('pending_confirmation','checked_in')\<close>), and the seat
  holders among the targets of a transition: only promoting a wait-listed booking makes one.
\<close>

definition holds_seat :: "booking_status \<Rightarrow> bool" where
  "holds_seat s \<longleftrightarrow> s = StatusPendingConfirmation \<or> s = StatusCheckedIn"

lemma CanTransition_gains_seat:
  "CanTransition s t \<Longrightarrow> holds_seat t \<Longrightarrow> \<not> holds_seat s \<Longrightarrow>
   s = StatusWaitlisted \<and> t = StatusPendingConfirmation"
  by (cases s) (auto simp: holds_seat_def)

lemma CanTransition_gains_activity: "CanTransition s t \<Longrightarrow> IsActive t \<Longrightarrow> IsActive s"
  by (cases s) (auto simp: IsActive_def)

lemma CanTransition_not_from_canceled: "CanTransition s t \<Longrightarrow> s \<noteq> StatusCanceled"
  by (cases s) auto

section \<open>Group reservations\<close>

record group_reservation =
  g_ID :: uuid
  g_Name :: string
  g_OrganizerID :: "uuid option"
  g_OrganizerName :: string
  g_OrganizerEmail :: string
  g_Capacity :: int
  g_Notes :: string
  g_CreatedAt :: time
  g_UpdatedAt :: time
  g_Bookings :: "booking list"

definition MaskedView :: "group_reservation \<Rightarrow> group_reservation" where
  "MaskedView g = g\<lparr>g_OrganizerName := MaskName (g_OrganizerName g),
                    g_OrganizerEmail := MaskEmail (g_OrganizerEmail g)\<rparr>"

definition Group_Validate :: "group_reservation \<Rightarrow> go_error + unit" where
  "Group_Validate g =
     (if g_Name g = [] then Inl ErrInvalidInput
      else if g_OrganizerEmail g = [] then Inl ErrInvalidInput
      else if g_Capacity g \<le> 0 then Inl ErrInvalidInput
      else Inr ())"

fun headcount_loop :: "int \<Rightarrow> booking list \<Rightarrow> int" where
  "headcount_loop acc [] = acc"
| "headcount_loop acc (b # bs) =
     (if b_Status b = StatusCanceled then headcount_loop acc bs
      else headcount_loop (acc + b_PartySize b) bs)"

definition CurrentHeadcount :: "group_reservation \<Rightarrow> int" where
  "CurrentHeadcount g = headcount_loop 0 (g_Bookings g)"

section \<open>Group buys\<close>

datatype group_buy_status =
  GroupBuyOpen | GroupBuyMet | GroupBuyExpired | GroupBuyCanceled | GroupBuyFinalized | GroupBuyFailed

definition GroupBuy_IsTerminal :: "group_buy_status \<Rightarrow> bool" where
  "GroupBuy_IsTerminal s \<longleftrightarrow>
     (case s of GroupBuyExpired \<Rightarrow> True | GroupBuyCanceled \<Rightarrow> True | GroupBuyFinalized \<Rightarrow> True
      | GroupBuyFailed \<Rightarrow> True | _ \<Rightarrow> False)"

record group_buy =
  gb_ID :: uuid
  gb_ResourceID :: uuid
  gb_OrganizerID :: "uuid option"
  gb_Title :: string
  gb_Description :: string
  gb_Threshold :: int
  gb_Capacity :: int
  gb_RemainingSlots :: int
  gb_StartsAt :: time
  gb_EndsAt :: time
  gb_Deadline :: time
  gb_Status :: group_buy_status
  gb_Version :: int
  gb_CreatedAt :: time
  gb_UpdatedAt :: time

definition Confirmed :: "group_buy \<Rightarrow> int" where
  "Confirmed g = gb_Capacity g - gb_RemainingSlots g"

text \<open>The ratio is the exact quotient; the rounding of \<open>float64\<close> is not modelled.\<close>

definition GroupBuy_Progress :: "group_buy \<Rightarrow> rat" where
  "GroupBuy_Progress g =
     (if gb_Threshold g = 0 then 0
      else let p = of_int (Confirmed g) / of_int (gb_Threshold g) in if p > 1 then 1 else p)"

definition ThresholdMet :: "group_buy \<Rightarrow> bool" where
  "ThresholdMet g \<longleftrightarrow> Confirmed g \<ge> gb_Threshold g"

definition GroupBuy_Validate :: "group_buy \<Rightarrow> time \<Rightarrow> go_error + unit" where
  "GroupBuy_Validate g t =
     (if gb_Title g = [] then Inl ErrInvalidInput
      else if gb_Threshold g \<le> 0 then Inl ErrInvalidInput
      else if gb_Capacity g \<le> 0 then Inl ErrInvalidInput
      else if gb_Threshold g > gb_Capacity g then Inl ErrInvalidInput
      else if \<not> gb_EndsAt g > gb_StartsAt g then Inl ErrInvalidInput
      else if \<not> gb_Deadline g > t then Inl ErrInvalidInput
      else if gb_Deadline g > gb_StartsAt g then Inl ErrInvalidInput
      else Inr ())"

record group_buy_participant =
  p_ID :: uuid
  p_GroupBuyID :: uuid
  p_UserID :: uuid
  p_Quantity :: int
  p_JoinedAt :: time

section \<open>Documents\<close>

datatype document_type = DocConfirmationPDF | DocCheckinPassPNG

record document_revision =
  rev_ID :: uuid
  rev_DocumentID :: uuid
  rev_Revision :: int
  rev_Content :: string
  rev_ContentType :: string
  rev_Superseded :: bool
  rev_SupersededAt :: "time option"
  rev_SupersededBy :: "uuid option"
  rev_CreatedAt :: time

record document =
  d_ID :: uuid
  d_OwnerUserID :: uuid
  d_DocType :: document_type
  d_RelatedType :: string
  d_RelatedID :: uuid
  d_CurrentRevision :: int
  d_Title :: string
  d_CreatedAt :: time
  d_UpdatedAt :: time
  d_Revisions :: "document_revision list"

section \<open>Notifications and to-dos\<close>

record notification =
  n_ID :: uuid
  n_UserID :: uuid
  n_Kind :: string
  n_Title :: string
  n_Body :: string
  n_ReadAt :: "time option"
  n_CreatedAt :: time

record notification_delivery =
  nd_ID :: uuid
  nd_NotificationID :: "uuid option"
  nd_UserID :: "uuid option"
  nd_Channel :: string
  nd_Status :: string
  nd_Detail :: string
  nd_DeliveredAt :: time

text \<open>The status of a to-do is stored as the text the request sent; the table checks it.\<close>

record todo =
  t_ID :: uuid
  t_UserID :: uuid
  t_TaskType :: string
  t_Title :: string
  t_Payload :: string
  t_Status :: string
  t_DueAt :: "time option"
  t_CreatedAt :: time
  t_UpdatedAt :: time

section \<open>Analytics\<close>

record analytics_event =
  e_ID :: int
  e_EventType :: string
  e_TargetType :: string
  e_TargetID :: uuid
  e_UserAnon :: "string option"
  e_CreatedAt :: time

record analytics_hourly =
  h_BucketStart :: time
  h_EventType :: string
  h_TargetType :: string
  h_TargetID :: uuid
  h_Count :: int

text \<open>\<open>Baseline\<close> and \<open>Ratio\<close> are exact rationals here, \<open>float64\<close> in Go.\<close>

record anomaly_alert =
  al_ID :: uuid
  al_DetectedAt :: time
  al_EventType :: string
  al_Observed :: int
  al_Baseline :: rat
  al_Ratio :: rat
  al_Detail :: string

record top_session =
  ts_TargetType :: string
  ts_TargetID :: uuid
  ts_Score :: int

record trend_bucket =
  tb_BucketStart :: time
  tb_Count :: int

section \<open>Governance, webhooks, backups, idempotency\<close>

record data_dictionary_entry =
  dd_ID :: uuid
  dd_Entity :: string
  dd_Field :: string
  dd_DataType :: string
  dd_Description :: string
  dd_Sensitive :: bool
  dd_Tags :: "string list"

record tag =
  tag_ID :: uuid
  tag_Name :: string
  tag_Description :: string

record tagging =
  tg_ID :: uuid
  tg_TagID :: uuid
  tg_TargetType :: string
  tg_TargetID :: uuid

record consent_record =
  cr_ID :: uuid
  cr_UserID :: uuid
  cr_Scope :: string
  cr_Granted :: bool
  cr_Version :: string
  cr_GrantedAt :: "time option"
  cr_WithdrawnAt :: "time option"
  cr_CreatedAt :: time

record deletion_request =
  dr_ID :: uuid
  dr_UserID :: uuid
  dr_RequestedAt :: time
  dr_ProcessAfter :: time
  dr_Status :: string
  dr_CompletedAt :: "time option"

record webhook =
  w_ID :: uuid
  w_Name :: string
  w_TargetURL :: string
  w_EventFilter :: "string list option"
  w_FieldMapping :: "(string \<times> string) list"
  w_Secret :: string
  w_Enabled :: bool
  w_CreatedAt :: time

record webhook_delivery =
  wd_ID :: uuid
  wd_WebhookID :: uuid
  wd_EventType :: string
  wd_Payload :: string
  wd_Attempts :: int
  wd_NextAttemptAt :: time
  wd_Status :: string
  wd_LastResponse :: string
  wd_CreatedAt :: time

record backup =
  bk_ID :: uuid
  bk_Kind :: string
  bk_Path :: string
  bk_SizeBytes :: int
  bk_TakenAt :: time
  bk_Detail :: string

datatype idempotency_status = IdempotencyStatusPending | IdempotencyStatusCompleted

text \<open>\<open>status_code\<close> and \<open>response_body\<close> are NULL while the row is pending.\<close>

record idempotency_record =
  i_Key :: string
  i_UserID :: "uuid option"
  i_RequestHash :: string
  i_StatusCode :: "int option"
  i_ResponseBody :: "string option"
  i_ContentType :: string
  i_Status :: idempotency_status
  i_CreatedAt :: time
  i_ExpiresAt :: time

section \<open>The password policy\<close>

text \<open>
  The classification of runes by the package \<open>unicode\<close> is a parameter; \<open>ascii_unicode\<close> is its
  restriction to the code points below 128.
\<close>

record unicode =
  is_lower :: "rune \<Rightarrow> bool"
  is_upper :: "rune \<Rightarrow> bool"
  is_digit :: "rune \<Rightarrow> bool"
  is_space :: "rune \<Rightarrow> bool"
  is_punct :: "rune \<Rightarrow> bool"
  is_symbol :: "rune \<Rightarrow> bool"

definition ascii_unicode :: unicode where
  "ascii_unicode =
     \<lparr>is_lower = (\<lambda>r. 97 \<le> r \<and> r \<le> 122),
      is_upper = (\<lambda>r. 65 \<le> r \<and> r \<le> 90),
      is_digit = (\<lambda>r. 48 \<le> r \<and> r \<le> 57),
      is_space = (\<lambda>r. (9 \<le> r \<and> r \<le> 13) \<or> r = 32),
      is_punct = (\<lambda>r. (33 \<le> r \<and> r \<le> 35) \<or> (37 \<le> r \<and> r \<le> 42) \<or> (44 \<le> r \<and> r \<le> 47) \<or> r = 58 \<or> r = 59 \<or>
                      r = 63 \<or> r = 64 \<or> (91 \<le> r \<and> r \<le> 93) \<or> r = 95 \<or> r = 123 \<or> r = 125),
      is_symbol = (\<lambda>r. r = 36 \<or> r = 43 \<or> (60 \<le> r \<and> r \<le> 62) \<or> r = 94 \<or> r = 96 \<or> r = 124 \<or> r = 126)\<rparr>"

datatype password_violation = TooShort | NoLower | NoUpper | NoDigit | NoSymbol

definition PasswordMinLength :: nat where
  "PasswordMinLength = 12"

record password_scan =
  hasLower :: bool
  hasUpper :: bool
  hasDigit :: bool
  hasSymbol :: bool

definition scan_rune :: "unicode \<Rightarrow> rune \<Rightarrow> password_scan \<Rightarrow> password_scan" where
  "scan_rune uc r p =
     (if is_lower uc r then p\<lparr>hasLower := True\<rparr>
      else if is_upper uc r then p\<lparr>hasUpper := True\<rparr>
      else if is_digit uc r then p\<lparr>hasDigit := True\<rparr>
      else if is_space uc r then p
      else if is_punct uc r \<or> is_symbol uc r then p\<lparr>hasSymbol := True\<rparr>
      else p)"

fun scan_password :: "unicode \<Rightarrow> rune list \<Rightarrow> password_scan \<Rightarrow> password_scan" where
  "scan_password uc [] p = p"
| "scan_password uc (r # rs) p = scan_password uc rs (scan_rune uc r p)"

text \<open>The violations in the order of the joined error; the error is nil iff there is none.\<close>

definition password_violations :: "unicode \<Rightarrow> string \<Rightarrow> password_violation list" where
  "password_violations uc pw =
     (let p = scan_password uc (runes pw)
                \<lparr>hasLower = False, hasUpper = False, hasDigit = False, hasSymbol = False\<rparr>
      in (if length pw < PasswordMinLength then [TooShort] else []) @
         (if \<not> hasLower p then [NoLower] else []) @
         (if \<not> hasUpper p then [NoUpper] else []) @
         (if \<not> hasDigit p then [NoDigit] else []) @
         (if \<not> hasSymbol p then [NoSymbol] else []))"

definition ValidatePassword :: "unicode \<Rightarrow> string \<Rightarrow> go_error + unit" where
  "ValidatePassword uc pw = (if password_violations uc pw = [] then Inr () else Inl ErrPasswordPolicy)"

end
