(* ===== verification/Schema.thy ===== *)
theory Schema
  imports Domain
begin

text \<open>
  The database of \<open>migrations/\<close>: one list of rows per table the modelled repositories use, the
  constraints that make an \<open>INSERT\<close> fail (primary and unique keys, foreign keys, \<open>CHECK\<close>s, 32-bit
  columns), and the effect of the foreign keys of \<open>users\<close> when a user row is deleted. A component's
  type of actions is \<open>'a action\<close>.
\<close>

record db =
  users :: "user list"
  sessions :: "session list"
  captchas :: "captcha_challenge list"
  resources :: "resource list"
  group_reservations :: "group_reservation list"
  bookings :: "booking list"
  group_buys :: "group_buy list"
  participants :: "group_buy_participant list"
  idempotency_keys :: "idempotency_record list"
  documents :: "document list"
  revisions :: "document_revision list"
  notifications :: "notification list"
  todos :: "todo list"
  notification_deliveries :: "notification_delivery list"
  analytics_events :: "analytics_event list"
  analytics_hourly_rows :: "analytics_hourly list"
  anomaly_alerts :: "anomaly_alert list"
  data_dictionary :: "data_dictionary_entry list"
  tags :: "tag list"
  taggings :: "tagging list"
  consent_records :: "consent_record list"
  deletion_requests :: "deletion_request list"
  webhooks :: "webhook list"
  webhook_deliveries :: "webhook_delivery list"
  backups :: "backup list"

type_synonym 'a action = "(db, 'a) io"

definition empty_db :: db where
  "empty_db = \<lparr>users = [], sessions = [], captchas = [], resources = [], group_reservations = [],
     bookings = [], group_buys = [], participants = [], idempotency_keys = [], documents = [],
     revisions = [], notifications = [], todos = [], notification_deliveries = [],
     analytics_events = [], analytics_hourly_rows = [], anomaly_alerts = [], data_dictionary = [],
     tags = [], taggings = [], consent_records = [], deletion_requests = [],
     webhooks = [], webhook_deliveries = [], backups = []\<rparr>"

text \<open>\<open>REFERENCES t(id)\<close> on a column, and on a nullable one.\<close>

definition references :: "('r \<Rightarrow> 'k) \<Rightarrow> 'r list \<Rightarrow> 'k \<Rightarrow> bool" where
  "references key rows k \<longleftrightarrow> k \<in> key ` set rows"

definition references_opt :: "('r \<Rightarrow> 'k) \<Rightarrow> 'r list \<Rightarrow> 'k option \<Rightarrow> bool" where
  "references_opt key rows ko \<longleftrightarrow> (case ko of None \<Rightarrow> True | Some k \<Rightarrow> references key rows k)"

definition fresh_key :: "('r \<Rightarrow> 'k) \<Rightarrow> 'r list \<Rightarrow> 'k \<Rightarrow> bool" where
  "fresh_key key rows k \<longleftrightarrow> k \<notin> key ` set rows"

lemma fresh_key_iff: "fresh_key key rows k \<longleftrightarrow> row_by key k rows = None"
  by (auto simp: fresh_key_def row_by_None)

lemma references_iff: "references key rows k \<longleftrightarrow> (\<exists>r \<in> set rows. key r = k)"
  by (auto simp: references_def)

text \<open>Table \<open>users\<close>: \<open>char_length\<close> counts characters, i.e. bytes that continue no encoding.\<close>

definition char_length :: "string \<Rightarrow> nat" where
  "char_length s = length (filter (\<lambda>c. \<not> is_cont (of_char c)) s)"

definition user_insertable :: "db \<Rightarrow> user \<Rightarrow> bool" where
  "user_insertable d u \<longleftrightarrow>
     fresh_key u_ID (users d) (u_ID u) \<and> fresh_key u_Username (users d) (u_Username u) \<and>
     3 \<le> char_length (u_Username u) \<and> char_length (u_Username u) \<le> 64"

definition session_insertable :: "db \<Rightarrow> session \<Rightarrow> bool" where
  "session_insertable d s \<longleftrightarrow>
     fresh_key s_ID (sessions d) (s_ID s) \<and> references u_ID (users d) (s_UserID s)"

definition resource_insertable :: "db \<Rightarrow> resource \<Rightarrow> bool" where
  "resource_insertable d r \<longleftrightarrow>
     fresh_key r_ID (resources d) (r_ID r) \<and> fresh_key r_Name (resources d) (r_Name r) \<and>
     0 < r_Capacity r \<and> int4 (r_Capacity r)"

definition group_insertable :: "db \<Rightarrow> group_reservation \<Rightarrow> bool" where
  "group_insertable d g \<longleftrightarrow>
     fresh_key g_ID (group_reservations d) (g_ID g) \<and>
     references_opt u_ID (users d) (g_OrganizerID g) \<and> 0 < g_Capacity g \<and> int4 (g_Capacity g)"

definition booking_insertable :: "db \<Rightarrow> booking \<Rightarrow> bool" where
  "booking_insertable d b \<longleftrightarrow>
     fresh_key b_ID (bookings d) (b_ID b) \<and>
     references u_ID (users d) (b_UserID b) \<and> references r_ID (resources d) (b_ResourceID b) \<and>
     references_opt g_ID (group_reservations d) (b_GroupID b) \<and>
     0 < b_PartySize b \<and> int4 (b_PartySize b) \<and> b_EndTime b > b_StartTime b \<and>
     (case b_Status b of UnknownStatus _ \<Rightarrow> False | _ \<Rightarrow> True)"

definition group_buy_insertable :: "db \<Rightarrow> group_buy \<Rightarrow> bool" where
  "group_buy_insertable d g \<longleftrightarrow>
     fresh_key gb_ID (group_buys d) (gb_ID g) \<and> references r_ID (resources d) (gb_ResourceID g) \<and>
     references_opt u_ID (users d) (gb_OrganizerID g) \<and>
     0 < gb_Threshold g \<and> int4 (gb_Threshold g) \<and> 0 < gb_Capacity g \<and> int4 (gb_Capacity g) \<and>
     0 \<le> gb_RemainingSlots g \<and> int4 (gb_RemainingSlots g) \<and> gb_EndsAt g > gb_StartsAt g"

text \<open>
  A \<open>BIGSERIAL\<close> id comes from a sequence; as no event is ever deleted, the next one is above all ids
  in use.
\<close>

definition next_serial :: "analytics_event list \<Rightarrow> int" where
  "next_serial rows = foldl max 0 (map e_ID rows) + 1"

definition event_insertable :: "analytics_event \<Rightarrow> bool" where
  "event_insertable e \<longleftrightarrow> e_EventType e \<in> {''view'', ''favorite'', ''comment'', ''download''}"

definition tagging_insertable :: "db \<Rightarrow> tagging \<Rightarrow> bool" where
  "tagging_insertable d g \<longleftrightarrow>
     fresh_key tg_ID (taggings d) (tg_ID g) \<and> references tag_ID (tags d) (tg_TagID g)"

definition consent_insertable :: "db \<Rightarrow> consent_record \<Rightarrow> bool" where
  "consent_insertable d c \<longleftrightarrow>
     fresh_key cr_ID (consent_records d) (cr_ID c) \<and> references u_ID (users d) (cr_UserID c)"

definition deletion_insertable :: "db \<Rightarrow> deletion_request \<Rightarrow> bool" where
  "deletion_insertable d q \<longleftrightarrow>
     fresh_key dr_ID (deletion_requests d) (dr_ID q) \<and> references u_ID (users d) (dr_UserID q) \<and>
     dr_Status q \<in> {''pending'', ''completed'', ''canceled''}"

text \<open>
  \<open>DELETE FROM users WHERE id = u\<close> with the foreign keys of migrations 0001 to 0003. \<open>CASCADE\<close>:
  sessions, bookings, participants, documents (and their revisions), notifications, to-dos, consent
  records, deletion requests. \<open>SET NULL\<close>: the organizer of group buys and of group reservations, and
  the notification a delivery-log row points at. Tables without a foreign key to \<open>users\<close> are left
  as they are.
\<close>

definition delete_user_row :: "uuid \<Rightarrow> db \<Rightarrow> db" where
  "delete_user_row u d =
     (let gone_docs = d_ID ` {x \<in> set (documents d). d_OwnerUserID x = u};
          gone_notes = n_ID ` {x \<in> set (notifications d). n_UserID x = u}
      in d\<lparr>users := delete_where (\<lambda>x. u_ID x = u) (users d),
           sessions := delete_where (\<lambda>x. s_UserID x = u) (sessions d),
           bookings := delete_where (\<lambda>x. b_UserID x = u) (bookings d),
           participants := delete_where (\<lambda>x. p_UserID x = u) (participants d),
           documents := delete_where (\<lambda>x. d_OwnerUserID x = u) (documents d),
           revisions := delete_where (\<lambda>x. rev_DocumentID x \<in> gone_docs) (revisions d),
           notifications := delete_where (\<lambda>x. n_UserID x = u) (notifications d),
           notification_deliveries :=
             update_where (\<lambda>x. \<exists>n \<in> gone_notes. nd_NotificationID x = Some n)
               (\<lambda>x. x\<lparr>nd_NotificationID := None\<rparr>) (notification_deliveries d),
           todos := delete_where (\<lambda>x. t_UserID x = u) (todos d),
           consent_records := delete_where (\<lambda>x. cr_UserID x = u) (consent_records d),
           deletion_requests := delete_where (\<lambda>x. dr_UserID x = u) (deletion_requests d),
           group_buys := update_where (\<lambda>x. gb_OrganizerID x = Some u)
             (\<lambda>x. x\<lparr>gb_OrganizerID := None\<rparr>) (group_buys d),
           group_reservations := update_where (\<lambda>x. g_OrganizerID x = Some u)
             (\<lambda>x. x\<lparr>g_OrganizerID := None\<rparr>) (group_reservations d)\<rparr>)"

text \<open>A world to run closed examples in: no outages, the clock at one instant, UUIDs counted up.\<close>

definition demo_world :: "db \<Rightarrow> time \<Rightarrow> db world" where
  "demo_world d t = \<lparr>store = d, clock = (\<lambda>_. t), readings = 0, uuids = (\<lambda>n. 1000 + n), minted = 0,
     entropy = (\<lambda>_. Some (\<lambda>_. CHR ''A'')), drawn = 0, outage = (\<lambda>_. False), stmts = 0, posted = []\<rparr>"

lemma demo_world_sel [simp]:
  "store (demo_world d t) = d" "clock (demo_world d t) n = t" "outage (demo_world d t) n = False"
  "posted (demo_world d t) = []"
  by (simp_all add: demo_world_def)

lemma calm_demo [simp]: "calm (demo_world d t)"
  by (simp add: calm_def demo_world_def)

end
