(* ===== verification/Accounts.thy ===== *)
theory Accounts
  imports Schema
begin

text \<open>
  The repositories of accounts: \<open>repository/user.go\<close>, \<open>repository/session.go\<close> and
  \<open>repository/captcha.go\<close>. One definition per method; a method that fills in fields of the struct it
  is handed returns the filled-in struct.

  \<open>LOWER\<close> of PostgreSQL depends on the collation of the database; the lookup by user name takes it as
  its first argument \<open>pg_lower\<close>.
\<close>

section \<open>Users\<close>

definition users_Create :: "user \<Rightarrow> user action" where
  "users_Create u =
     bindE (if u_ID u = uuid_nil then new_uuid else ret (u_ID u)) (\<lambda>i.
     bindE now (\<lambda>t.
     let u' = u\<lparr>u_ID := i, u_CreatedAt := t, u_UpdatedAt := t\<rparr> in
     bindE (sql (\<lambda>_ d. if user_insertable d u'
                       then Inr ((), d\<lparr>users := users d @ [u'\<lparr>u_AnonymizedAt := None\<rparr>]\<rparr>)
                       else Inl DBError)) (\<lambda>_.
     ret u')))"

definition users_SetAdmin :: "uuid \<Rightarrow> bool \<Rightarrow> unit action" where
  "users_SetAdmin i admin = sql (\<lambda>t d. Inr ((), d\<lparr>users :=
     update_where (\<lambda>u. u_ID u = i) (\<lambda>u. u\<lparr>u_IsAdmin := admin, u_UpdatedAt := t\<rparr>) (users d)\<rparr>))"

definition users_GetByID :: "uuid \<Rightarrow> user action" where
  "users_GetByID i = query (\<lambda>d. case row_by u_ID i (users d) of None \<Rightarrow> Inl ErrNotFound | Some u \<Rightarrow> Inr u)"

definition users_GetByUsername :: "(string \<Rightarrow> string) \<Rightarrow> string \<Rightarrow> user action" where
  "users_GetByUsername pg_lower name = query (\<lambda>d.
     case row_by (\<lambda>u. pg_lower (u_Username u)) (pg_lower name) (users d) of
       None \<Rightarrow> Inl ErrNotFound | Some u \<Rightarrow> Inr u)"

text \<open>\<open>COALESCE($2, locked_until)\<close>: no lock given keeps the old one.\<close>

definition users_RecordFailedLogin :: "uuid \<Rightarrow> time option \<Rightarrow> unit action" where
  "users_RecordFailedLogin i lockUntil = sql (\<lambda>t d. Inr ((), d\<lparr>users :=
     update_where (\<lambda>u. u_ID u = i)
       (\<lambda>u. u\<lparr>u_FailedAttempts := u_FailedAttempts u + 1,
              u_LockedUntil := (case lockUntil of None \<Rightarrow> u_LockedUntil u | Some l \<Rightarrow> Some l),
              u_UpdatedAt := t\<rparr>) (users d)\<rparr>))"

definition users_ResetFailedLogin :: "uuid \<Rightarrow> time \<Rightarrow> unit action" where
  "users_ResetFailedLogin i loginAt = sql (\<lambda>t d. Inr ((), d\<lparr>users :=
     update_where (\<lambda>u. u_ID u = i)
       (\<lambda>u. u\<lparr>u_FailedAttempts := 0, u_LockedUntil := None, u_LastLoginAt := Some loginAt,
              u_UpdatedAt := t\<rparr>) (users d)\<rparr>))"

text \<open>\<open>RowsAffected() == 0\<close> turns an update or delete that met no row into \<open>ErrNotFound\<close>.\<close>

definition users_SetBlacklist :: "uuid \<Rightarrow> bool \<Rightarrow> string \<Rightarrow> unit action" where
  "users_SetBlacklist i blacklisted reason = sql (\<lambda>t d.
     if matches (\<lambda>u. u_ID u = i) (users d) = 0 then Inl ErrNotFound
     else Inr ((), d\<lparr>users := update_where (\<lambda>u. u_ID u = i)
       (\<lambda>u. u\<lparr>u_IsBlacklisted := blacklisted, u_BlacklistReason := reason, u_UpdatedAt := t\<rparr>) (users d)\<rparr>))"

definition users_SetMustRotatePassword :: "uuid \<Rightarrow> bool \<Rightarrow> unit action" where
  "users_SetMustRotatePassword i must = sql (\<lambda>t d. Inr ((), d\<lparr>users :=
     update_where (\<lambda>u. u_ID u = i) (\<lambda>u. u\<lparr>u_MustRotatePassword := must, u_UpdatedAt := t\<rparr>) (users d)\<rparr>))"

definition users_UpdatePasswordHash :: "uuid \<Rightarrow> string \<Rightarrow> unit action" where
  "users_UpdatePasswordHash i hash = sql (\<lambda>t d.
     if matches (\<lambda>u. u_ID u = i) (users d) = 0 then Inl ErrNotFound
     else Inr ((), d\<lparr>users := update_where (\<lambda>u. u_ID u = i)
       (\<lambda>u. u\<lparr>u_PasswordHash := hash, u_MustRotatePassword := False, u_UpdatedAt := t\<rparr>) (users d)\<rparr>))"

definition users_HardDelete :: "uuid \<Rightarrow> unit action" where
  "users_HardDelete i = sql (\<lambda>_ d.
     if matches (\<lambda>u. u_ID u = i) (users d) = 0 then Inl ErrNotFound
     else Inr ((), delete_user_row i d))"

section \<open>Sessions\<close>

definition sessions_Create :: "session \<Rightarrow> unit action" where
  "sessions_Create s = sql (\<lambda>_ d. if session_insertable d s
     then Inr ((), d\<lparr>sessions := sessions d @ [s]\<rparr>) else Inl DBError)"

definition sessions_Get :: "string \<Rightarrow> session action" where
  "sessions_Get i = query (\<lambda>d. case row_by s_ID i (sessions d) of None \<Rightarrow> Inl ErrNotFound | Some s \<Rightarrow> Inr s)"

definition sessions_Touch :: "string \<Rightarrow> time \<Rightarrow> time \<Rightarrow> unit action" where
  "sessions_Touch i t newExpires = sql (\<lambda>_ d. Inr ((), d\<lparr>sessions :=
     update_where (\<lambda>s. s_ID s = i) (\<lambda>s. s\<lparr>s_LastActivityAt := t, s_ExpiresAt := newExpires\<rparr>) (sessions d)\<rparr>))"

definition sessions_Delete :: "string \<Rightarrow> unit action" where
  "sessions_Delete i = sql (\<lambda>_ d. Inr ((), d\<lparr>sessions := delete_where (\<lambda>s. s_ID s = i) (sessions d)\<rparr>))"

definition sessions_DeleteExpired :: "time \<Rightarrow> int action" where
  "sessions_DeleteExpired before = sql (\<lambda>_ d.
     Inr (int (matches (\<lambda>s. s_ExpiresAt s < before) (sessions d)),
          d\<lparr>sessions := delete_where (\<lambda>s. s_ExpiresAt s < before) (sessions d)\<rparr>))"

section \<open>CAPTCHA challenges\<close>

definition captchas_Create :: "captcha_challenge \<Rightarrow> unit action" where
  "captchas_Create c = sql (\<lambda>_ d. if fresh_key c_Token (captchas d) (c_Token c)
     then Inr ((), d\<lparr>captchas := captchas d @ [c]\<rparr>) else Inl DBError)"

definition captchas_Get :: "string \<Rightarrow> captcha_challenge action" where
  "captchas_Get tok = query (\<lambda>d. case row_by c_Token tok (captchas d) of
     None \<Rightarrow> Inl ErrNotFound | Some c \<Rightarrow> Inr c)"

definition captchas_Consume :: "string \<Rightarrow> unit action" where
  "captchas_Consume tok = sql (\<lambda>_ d.
     if matches (\<lambda>c. c_Token c = tok \<and> \<not> c_Consumed c) (captchas d) = 0 then Inl ErrNotFound
     else Inr ((), d\<lparr>captchas := update_where (\<lambda>c. c_Token c = tok \<and> \<not> c_Consumed c)
                       (\<lambda>c. c\<lparr>c_Consumed := True\<rparr>) (captchas d)\<rparr>))"

section \<open>What the methods do to the store\<close>

lemmas account_reads = users_GetByID_def users_GetByUsername_def sessions_Get_def captchas_Get_def

lemma account_reads_readonly [store_rules]:
  "readonly (users_GetByID i)" "readonly (users_GetByUsername pl n)"
  "readonly (sessions_Get k)" "readonly (captchas_Get k)"
  by (simp_all add: account_reads readonly_query)

lemma account_reads_preserve [store_rules]:
  "preserves I (users_GetByID i)" "preserves I (users_GetByUsername pl n)"
  "preserves I (sessions_Get k)" "preserves I (captchas_Get k)"
  by (simp_all add: account_reads_readonly readonly_preserves)

lemmas account_writes = users_SetAdmin_def users_RecordFailedLogin_def users_ResetFailedLogin_def
  users_SetBlacklist_def users_SetMustRotatePassword_def users_UpdatePasswordHash_def
  users_HardDelete_def sessions_Create_def sessions_Touch_def sessions_Delete_def
  sessions_DeleteExpired_def captchas_Create_def captchas_Consume_def

lemma users_Create_all_or_nothing [store_rules]: "all_or_nothing (users_Create u)"
  unfolding users_Create_def Let_def by (intro store_rules)

lemma users_GetByID_returns [returns]:
  "users_GetByID i w = (Inr u, w') \<longleftrightarrow>
     \<not> outage w (stmts w) \<and> row_by u_ID i (users (store w)) = Some u \<and>
     w' = w\<lparr>readings := Suc (readings w), stmts := Suc (stmts w)\<rparr>"
  by (auto simp: users_GetByID_def query_returns split: option.splits)

lemma users_GetByUsername_returns [returns]:
  "users_GetByUsername pl n w = (Inr u, w') \<longleftrightarrow>
     \<not> outage w (stmts w) \<and> row_by (\<lambda>u. pl (u_Username u)) (pl n) (users (store w)) = Some u \<and>
     w' = w\<lparr>readings := Suc (readings w), stmts := Suc (stmts w)\<rparr>"
  by (auto simp: users_GetByUsername_def query_returns split: option.splits)

lemma sessions_Get_returns [returns]:
  "sessions_Get i w = (Inr s, w') \<longleftrightarrow>
     \<not> outage w (stmts w) \<and> row_by s_ID i (sessions (store w)) = Some s \<and>
     w' = w\<lparr>readings := Suc (readings w), stmts := Suc (stmts w)\<rparr>"
  by (auto simp: sessions_Get_def query_returns split: option.splits)

lemma captchas_Get_returns [returns]:
  "captchas_Get i w = (Inr s, w') \<longleftrightarrow>
     \<not> outage w (stmts w) \<and> row_by c_Token i (captchas (store w)) = Some s \<and>
     w' = w\<lparr>readings := Suc (readings w), stmts := Suc (stmts w)\<rparr>"
  by (auto simp: captchas_Get_def query_returns split: option.splits)

end
