(* ===== verification/Bookings.thy ===== *)
theory Bookings
  imports Accounts
begin

text \<open>
  The repositories of bookings and resources: \<open>repository/booking.go\<close> and \<open>repository/resource.go\<close>,
  one definition per method. Days are UTC days: every caller passes an instant in UTC.
  \<open>ORDER BY name\<close> depends on the collation of the database, so the listing of resources takes the
  sort key \<open>collate\<close> as an argument.
\<close>

section \<open>Bookings\<close>

definition sanitisePaging :: "int \<Rightarrow> int \<Rightarrow> int \<times> int" where
  "sanitisePaging limit offset =
     (if limit \<le> 0 \<or> limit > 200 then 50 else limit, if offset < 0 then 0 else offset)"

text \<open>The plaintext of the secure notes is not a column; it never reaches the table.\<close>

definition bookings_Create :: "booking \<Rightarrow> booking action" where
  "bookings_Create b =
     bindE (if b_ID b = uuid_nil then new_uuid else ret (b_ID b)) (\<lambda>i.
     bindE now (\<lambda>t.
     let b' = b\<lparr>b_ID := i, b_CreatedAt := t, b_UpdatedAt := t,
                b_PartySize := (if b_PartySize b \<le> 0 then 1 else b_PartySize b)\<rparr> in
     bindE (sql (\<lambda>_ d. if booking_insertable d b'
                       then Inr ((), d\<lparr>bookings := bookings d @ [b'\<lparr>b_SecureNotesPlain := []\<rparr>]\<rparr>)
                       else Inl DBError)) (\<lambda>_.
     ret b')))"

definition bookings_Get :: "uuid \<Rightarrow> booking action" where
  "bookings_Get i = query (\<lambda>d. case row_by b_ID i (bookings d) of None \<Rightarrow> Inl ErrNotFound | Some b \<Rightarrow> Inr b)"

definition bookings_List :: "int \<Rightarrow> int \<Rightarrow> booking list action" where
  "bookings_List limit offset = (case sanitisePaging limit offset of (lm, off) \<Rightarrow>
     query (\<lambda>d. Inr (page lm off (order_desc b_CreatedAt (bookings d)))))"

definition bookings_ListByUser :: "uuid \<Rightarrow> int \<Rightarrow> int \<Rightarrow> booking list action" where
  "bookings_ListByUser u limit offset = (case sanitisePaging limit offset of (lm, off) \<Rightarrow>
     query (\<lambda>d. Inr (page lm off (order_desc b_StartTime (filter (\<lambda>b. b_UserID b = u) (bookings d))))))"

definition bookings_ListByGroup :: "uuid \<Rightarrow> booking list action" where
  "bookings_ListByGroup g =
     query (\<lambda>d. Inr (order_asc b_StartTime (filter (\<lambda>b. b_GroupID b = Some g) (bookings d))))"

definition on_resource_day :: "uuid \<Rightarrow> time \<Rightarrow> booking \<Rightarrow> bool" where
  "on_resource_day r day b \<longleftrightarrow>
     b_ResourceID b = r \<and> b_Status b \<noteq> StatusCanceled \<and>
     overlaps (b_StartTime b) (b_EndTime b) (day_start day) (day_start day + 24 * hour)"

definition bookings_ListByResourceOnDate :: "uuid \<Rightarrow> time \<Rightarrow> booking list action" where
  "bookings_ListByResourceOnDate r day =
     query (\<lambda>d. Inr (order_asc b_StartTime (filter (on_resource_day r day) (bookings d))))"

definition active_on_day :: "uuid \<Rightarrow> time \<Rightarrow> booking \<Rightarrow> bool" where
  "active_on_day u day b \<longleftrightarrow>
     b_UserID b = u \<and>
     b_Status b \<in> {StatusPendingConfirmation, StatusWaitlisted, StatusCheckedIn} \<and>
     b_StartTime b \<ge> day_start day \<and> b_StartTime b < day_start day + 24 * hour"

definition bookings_CountActiveByUserOnDate :: "uuid \<Rightarrow> time \<Rightarrow> int action" where
  "bookings_CountActiveByUserOnDate u day =
     query (\<lambda>d. Inr (int (matches (active_on_day u day) (bookings d))))"

definition bookings_UserHasOverlap :: "uuid \<Rightarrow> time \<Rightarrow> time \<Rightarrow> uuid option \<Rightarrow> bool action" where
  "bookings_UserHasOverlap u s e exclude = query (\<lambda>d. Inr (list_ex
     (\<lambda>b. b_UserID b = u \<and> b_Status b \<noteq> StatusCanceled \<and> overlaps (b_StartTime b) (b_EndTime b) s e \<and>
          (case exclude of None \<Rightarrow> True | Some x \<Rightarrow> b_ID b \<noteq> x)) (bookings d)))"

definition bookings_ResourceHasOverlap :: "uuid \<Rightarrow> time \<Rightarrow> time \<Rightarrow> uuid option \<Rightarrow> bool action" where
  "bookings_ResourceHasOverlap r s e exclude = query (\<lambda>d. Inr (list_ex
     (\<lambda>b. b_ResourceID b = r \<and> b_Status b \<in> {StatusPendingConfirmation, StatusCheckedIn} \<and>
          overlaps (b_StartTime b) (b_EndTime b) s e \<and>
          (case exclude of None \<Rightarrow> True | Some x \<Rightarrow> b_ID b \<noteq> x)) (bookings d)))"

text \<open>The \<open>CHECK\<close> on the status column refuses an unknown status, if a row is met at all.\<close>

definition bookings_UpdateStatus :: "uuid \<Rightarrow> booking_status \<Rightarrow> unit action" where
  "bookings_UpdateStatus i st = sql (\<lambda>t d.
     if matches (\<lambda>b. b_ID b = i) (bookings d) = 0 then Inl ErrNotFound
     else if (case st of UnknownStatus _ \<Rightarrow> True | _ \<Rightarrow> False) then Inl DBError
     else Inr ((), d\<lparr>bookings := update_where (\<lambda>b. b_ID b = i)
                       (\<lambda>b. b\<lparr>b_Status := st, b_UpdatedAt := t\<rparr>) (bookings d)\<rparr>))"

definition bookings_Delete :: "uuid \<Rightarrow> unit action" where
  "bookings_Delete i = sql (\<lambda>_ d.
     if matches (\<lambda>b. b_ID b = i) (bookings d) = 0 then Inl ErrNotFound
     else Inr ((), d\<lparr>bookings := delete_where (\<lambda>b. b_ID b = i) (bookings d)\<rparr>))"

section \<open>Resources\<close>

definition resources_List :: "(string \<Rightarrow> int) \<Rightarrow> resource list action" where
  "resources_List collate = query (\<lambda>d. Inr (order_asc (\<lambda>r. collate (r_Name r)) (resources d)))"

definition resources_Get :: "uuid \<Rightarrow> resource action" where
  "resources_Get i = query (\<lambda>d. case row_by r_ID i (resources d) of None \<Rightarrow> Inl ErrNotFound | Some r \<Rightarrow> Inr r)"

definition insert_resource :: "resource \<Rightarrow> unit action" where
  "insert_resource r = sql (\<lambda>_ d. if resource_insertable d r
     then Inr ((), d\<lparr>resources := resources d @ [r]\<rparr>) else Inl DBError)"

definition resources_Create :: "resource \<Rightarrow> resource action" where
  "resources_Create r =
     bindE (if r_ID r = uuid_nil then new_uuid else ret (r_ID r)) (\<lambda>i.
     bindE (if r_CreatedAt r = zero_time then now else ret (r_CreatedAt r)) (\<lambda>t.
     let r' = r\<lparr>r_ID := i, r_CreatedAt := t, r_Capacity := (if r_Capacity r \<le> 0 then 1 else r_Capacity r)\<rparr> in
     bindE (insert_resource r') (\<lambda>_. ret r')))"

definition insert_row :: "time \<Rightarrow> resource \<Rightarrow> unit action" where
  "insert_row t r =
     bindE (if r_ID r = uuid_nil then new_uuid else ret (r_ID r)) (\<lambda>i.
     insert_resource (r\<lparr>r_ID := i, r_CreatedAt := (if r_CreatedAt r = zero_time then t else r_CreatedAt r)\<rparr>))"

text \<open>The number returned is \<open>inserted\<close>, which counts the iterations of the loop.\<close>

definition resources_InsertManyTx :: "resource list \<Rightarrow> int action" where
  "resources_InsertManyTx rows =
     (if rows = [] then ret 0
      else transaction (bindE now (\<lambda>t. bindE (for_each_or_return (insert_row t) rows) (\<lambda>_. ret (int (length rows))))))"

text \<open>
  The seats taken in a window: the sum over the bookings that hold a seat and overlap it. The cast
  \<open>::int\<close> fails beyond 32 bits.
\<close>

definition seats_in_window :: "uuid \<Rightarrow> time \<Rightarrow> time \<Rightarrow> booking list \<Rightarrow> int" where
  "seats_in_window r s e bs = sum_where
     (\<lambda>b. b_ResourceID b = r \<and> holds_seat (b_Status b) \<and> overlaps (b_StartTime b) (b_EndTime b) s e)
     b_PartySize bs"

definition resources_SumActivePartySizesInWindow :: "uuid \<Rightarrow> time \<Rightarrow> time \<Rightarrow> int action" where
  "resources_SumActivePartySizesInWindow r s e = query (\<lambda>d.
     let total = seats_in_window r s e (bookings d) in if int4 total then Inr total else Inl DBError)"

section \<open>What the methods do to the store\<close>

lemmas booking_reads = bookings_Get_def bookings_ListByGroup_def bookings_ListByResourceOnDate_def
  bookings_CountActiveByUserOnDate_def bookings_UserHasOverlap_def bookings_ResourceHasOverlap_def
  resources_List_def resources_Get_def resources_SumActivePartySizesInWindow_def

lemma booking_reads_readonly [store_rules]:
  "readonly (bookings_Get i)" "readonly (bookings_ListByGroup g)"
  "readonly (bookings_ListByResourceOnDate r day)" "readonly (bookings_CountActiveByUserOnDate u day)"
  "readonly (bookings_UserHasOverlap u s e x)" "readonly (bookings_ResourceHasOverlap r s e x)"
  "readonly (resources_List col)" "readonly (resources_Get i)"
  "readonly (resources_SumActivePartySizesInWindow r s e)"
  by (simp_all add: booking_reads readonly_query)

lemma booking_lists_readonly [store_rules]:
  "readonly (bookings_List l k)" "readonly (bookings_ListByUser u l k)"
  by (simp_all add: bookings_List_def bookings_ListByUser_def readonly_query split: prod.splits)

lemmas booking_reads_preserve [store_rules] =
  booking_reads_readonly [THEN readonly_preserves] booking_lists_readonly [THEN readonly_preserves]

lemma bookings_Create_all_or_nothing [store_rules]: "all_or_nothing (bookings_Create b)"
  unfolding bookings_Create_def Let_def by (intro store_rules)

lemma bookings_UpdateStatus_all_or_nothing [store_rules]: "all_or_nothing (bookings_UpdateStatus i st)"
  unfolding bookings_UpdateStatus_def by (intro store_rules)

lemma booking_oracles [oracle_rules]:
  "keeps_oracles (bookings_Get i)" "keeps_oracles (bookings_CountActiveByUserOnDate u day)"
  "keeps_oracles (bookings_UserHasOverlap u s e x)" "keeps_oracles (bookings_ResourceHasOverlap r s e x)"
  "keeps_oracles (resources_Get i)" "keeps_oracles (resources_SumActivePartySizesInWindow r s e)"
  by (simp_all add: booking_reads keeps_oracles_query)

lemma bookings_Get_returns [returns]:
  "bookings_Get i w = (Inr b, w') \<longleftrightarrow>
     \<not> outage w (stmts w) \<and> row_by b_ID i (bookings (store w)) = Some b \<and>
     w' = w\<lparr>readings := Suc (readings w), stmts := Suc (stmts w)\<rparr>"
  by (auto simp: bookings_Get_def query_returns split: option.splits)

lemma resources_Get_returns [returns]:
  "resources_Get i w = (Inr r, w') \<longleftrightarrow>
     \<not> outage w (stmts w) \<and> row_by r_ID i (resources (store w)) = Some r \<and>
     w' = w\<lparr>readings := Suc (readings w), stmts := Suc (stmts w)\<rparr>"
  by (auto simp: resources_Get_def query_returns split: option.splits)

lemma CountActive_returns [returns]:
  "bookings_CountActiveByUserOnDate u day w = (Inr n, w') \<longleftrightarrow>
     \<not> outage w (stmts w) \<and> n = int (matches (active_on_day u day) (bookings (store w))) \<and>
     w' = w\<lparr>readings := Suc (readings w), stmts := Suc (stmts w)\<rparr>"
  by (auto simp: bookings_CountActiveByUserOnDate_def query_returns)

lemma SumActive_returns [returns]:
  "resources_SumActivePartySizesInWindow r s e w = (Inr n, w') \<longleftrightarrow>
     \<not> outage w (stmts w) \<and> n = seats_in_window r s e (bookings (store w)) \<and> int4 n \<and>
     w' = w\<lparr>readings := Suc (readings w), stmts := Suc (stmts w)\<rparr>"
  by (auto simp: resources_SumActivePartySizesInWindow_def query_returns Let_def split: if_splits)

lemma bookings_UserHasOverlap_returns [returns]:
  "bookings_UserHasOverlap u s e x w = (Inr c, w') \<longleftrightarrow>
     \<not> outage w (stmts w) \<and>
     c = (\<exists>b \<in> set (bookings (store w)). b_UserID b = u \<and> b_Status b \<noteq> StatusCanceled \<and>
            overlaps (b_StartTime b) (b_EndTime b) s e \<and> x \<noteq> Some (b_ID b)) \<and>
     w' = w\<lparr>readings := Suc (readings w), stmts := Suc (stmts w)\<rparr>"
  by (auto simp: bookings_UserHasOverlap_def query_returns list_ex_iff split: option.splits)

lemma bookings_ResourceHasOverlap_returns [returns]:
  "bookings_ResourceHasOverlap r s e x w = (Inr c, w') \<longleftrightarrow>
     \<not> outage w (stmts w) \<and>
     c = (\<exists>b \<in> set (bookings (store w)). b_ResourceID b = r \<and> holds_seat (b_Status b) \<and>
            overlaps (b_StartTime b) (b_EndTime b) s e \<and> x \<noteq> Some (b_ID b)) \<and>
     w' = w\<lparr>readings := Suc (readings w), stmts := Suc (stmts w)\<rparr>"
  by (auto simp: bookings_ResourceHasOverlap_def query_returns list_ex_iff holds_seat_def split: option.splits)

lemma bookings_UpdateStatus_returns [returns]:
  "bookings_UpdateStatus i st w = (Inr x, w') \<longleftrightarrow>
     \<not> outage w (stmts w) \<and> (\<exists>b \<in> set (bookings (store w)). b_ID b = i) \<and>
     (\<forall>y. st \<noteq> UnknownStatus y) \<and>
     w' = w\<lparr>store := store w\<lparr>bookings := update_where (\<lambda>b. b_ID b = i)
              (\<lambda>b. b\<lparr>b_Status := st, b_UpdatedAt := clock w (readings w)\<rparr>) (bookings (store w))\<rparr>,
            readings := Suc (readings w), stmts := Suc (stmts w)\<rparr>"
  by (auto simp: bookings_UpdateStatus_def sql_returns split: if_splits booking_status.splits)

text \<open>A batch of inserts keeps what every single insert keeps.\<close>

lemma preserves_insert_resource:
  "(\<And>d r. resource_insertable d r \<Longrightarrow> I d \<Longrightarrow> I (d\<lparr>resources := resources d @ [r]\<rparr>)) \<Longrightarrow>
   preserves I (insert_resource r)"
  unfolding insert_resource_def by (rule preserves_sql) (auto split: if_splits)

lemma preserves_resource_inserts:
  assumes "\<And>d r. resource_insertable d r \<Longrightarrow> I d \<Longrightarrow> I (d\<lparr>resources := resources d @ [r]\<rparr>)"
  shows "preserves I (resources_Create r)" and "preserves I (resources_InsertManyTx rows)"
  unfolding resources_Create_def resources_InsertManyTx_def insert_row_def Let_def
  by (intro store_rules preserves_for_each_or_return preserves_insert_resource assms; assumption)+

end
