(* ===== verification/Crypto.thy ===== *)
theory Crypto
  imports Schema
begin

text \<open>
  \<open>infrastructure/crypto/aes.go\<close>: the key manager that encrypts booking notes. AES-GCM itself
  (\<open>cipher.AEAD\<close>) is a parameter: a \<open>key_manager\<close> carries the nonce size and the \<open>Seal\<close> and \<open>Open\<close>
  functions of the AEAD under the master key (its additional data is nil everywhere). Loading or
  generating the key file is not modelled.
\<close>

record key_manager =
  NonceSize :: nat
  gcm_Seal :: "string \<Rightarrow> string \<Rightarrow> string"
  gcm_Open :: "string \<Rightarrow> string \<Rightarrow> string option"

text \<open>\<open>k.gcm.Seal(nonce, nonce, plaintext, nil)\<close> appends the ciphertext to the nonce.\<close>

definition Encrypt :: "key_manager \<Rightarrow> string \<Rightarrow> string action" where
  "Encrypt k plaintext =
     (if length plaintext = 0 then ret []
      else bindE (draw_bytes (NonceSize k)) (\<lambda>nonce. ret (nonce @ gcm_Seal k nonce plaintext)))"

definition Decrypt :: "key_manager \<Rightarrow> string \<Rightarrow> go_error + string" where
  "Decrypt k blob =
     (if length blob = 0 then Inr []
      else let ns = NonceSize k
           in if length blob < ns then Inl OtherError
              else case gcm_Open k (take ns blob) (drop ns blob) of
                     None \<Rightarrow> Inl OtherError | Some plain \<Rightarrow> Inr plain)"

lemma Decrypt_Nil [simp]: "Decrypt k [] = Inr []"
  by (simp add: Decrypt_def)

lemma Encrypt_readonly [store_rules]: "readonly (Encrypt k p)"
  unfolding Encrypt_def by (intro store_rules)

lemma Encrypt_oracles [oracle_rules]: "keeps_oracles (Encrypt k p)"
  unfolding Encrypt_def by (intro oracle_rules)

text \<open>
  What AES-GCM promises: its nonces are not empty (12 bytes), and \<open>Open\<close> undoes \<open>Seal\<close>.
\<close>

definition aead_ok :: "key_manager \<Rightarrow> bool" where
  "aead_ok k \<longleftrightarrow> 0 < NonceSize k \<and> (\<forall>n p. length n = NonceSize k \<longrightarrow> gcm_Open k n (gcm_Seal k n p) = Some p)"

lemma Decrypt_Encrypt:
  assumes "aead_ok k" and "Encrypt k p w = (Inr blob, w')"
  shows "Decrypt k blob = Inr p"
  using assms by (auto simp: Encrypt_def Decrypt_def aead_ok_def returns Let_def)

end
