(* ===== verification/Booking_Service.thy ===== *)
theory Booking_Service
  imports Bookings Crypto
begin

text \<open>
  \<open>service/booking.go\<close>: the policy gates of a new booking, the wait list, the encrypted notes and the
  status transitions; then what they guarantee: no instant at which a resource is oversold, no user
  with two bookings at once, the daily cap, as an invariant \<open>booking_inv\<close> of the database that every
  operation on bookings and resources keeps.

  \<open>Create\<close> is split where the code stops reading and starts writing: \<open>BookingService_admit\<close> is
  everything up to \<open>b.Validate()\<close>, the insert follows. Nothing in the code makes the two atomic.
\<close>

section \<open>The service\<close>

record booking_policy =
  MinLeadTime :: duration
  ChangeCutoff :: duration
  MaxActivePerDay :: int

definition DefaultBookingPolicy :: booking_policy where
  "DefaultBookingPolicy = \<lparr>MinLeadTime = 2 * hour, ChangeCutoff = 10 * minute, MaxActivePerDay = 3\<rparr>"

record booking_service =
  encrypter :: "key_manager option"
  policy :: booking_policy

record create_input =
  in_UserID :: uuid
  in_ResourceID :: uuid
  in_GroupID :: "uuid option"
  in_PartySize :: int
  in_StartTime :: time
  in_EndTime :: time
  in_Notes :: string
  in_SecureNotes :: string

definition seal_notes :: "key_manager option \<Rightarrow> string \<Rightarrow> string action" where
  "seal_notes enc plain =
     (if plain = [] then ret []
      else case enc of None \<Rightarrow> fail OtherError | Some k \<Rightarrow> Encrypt k plain)"

definition BookingService_admit :: "booking_service \<Rightarrow> create_input \<Rightarrow> booking action" where
  "BookingService_admit s inp =
     bindE (users_GetByID (in_UserID inp)) (\<lambda>user.
     if u_IsBlacklisted user then fail ErrBlacklisted else
     bindE (resources_Get (in_ResourceID inp)) (\<lambda>resource.
     bindE now (\<lambda>t.
     if \<not> in_EndTime inp > in_StartTime inp then fail ErrInvalidInput else
     let party = (if in_PartySize inp \<le> 0 then 1 else in_PartySize inp) in
     if party > r_Capacity resource then fail ErrCapacityExceed else
     if in_StartTime inp < t + MinLeadTime (policy s) then fail ErrLeadTime else
     bindE (bookings_CountActiveByUserOnDate (in_UserID inp) (in_StartTime inp)) (\<lambda>count.
     if count \<ge> MaxActivePerDay (policy s) then fail ErrDailyLimit else
     bindE (bookings_UserHasOverlap (in_UserID inp) (in_StartTime inp) (in_EndTime inp) None) (\<lambda>overlap.
     if overlap then fail ErrOverlap else
     bindE (resources_SumActivePartySizesInWindow (in_ResourceID inp) (in_StartTime inp) (in_EndTime inp))
       (\<lambda>activeParty.
     let remaining = r_Capacity resource - activeParty;
         status = (if party > remaining then StatusWaitlisted else StatusPendingConfirmation) in
     bindE (seal_notes (encrypter s) (in_SecureNotes inp)) (\<lambda>secureBlob.
     let b = \<lparr>b_ID = uuid_nil, b_UserID = in_UserID inp, b_ResourceID = in_ResourceID inp,
              b_GroupID = in_GroupID inp, b_PartySize = party, b_StartTime = in_StartTime inp,
              b_EndTime = in_EndTime inp, b_Status = status, b_Notes = in_Notes inp,
              b_SecureNotes = secureBlob, b_SecureNotesPlain = [],
              b_CreatedAt = zero_time, b_UpdatedAt = zero_time\<rparr> in
     case Booking_Validate b of Inl e \<Rightarrow> fail e | Inr _ \<Rightarrow> ret b)))))))"

definition BookingService_Create :: "booking_service \<Rightarrow> create_input \<Rightarrow> booking action" where
  "BookingService_Create s inp = bindE (BookingService_admit s inp) bookings_Create"

definition BookingService_GetForOwner :: "booking_service \<Rightarrow> uuid \<Rightarrow> uuid \<Rightarrow> booking action" where
  "BookingService_GetForOwner s actor i =
     bindE (bookings_Get i) (\<lambda>b.
     case encrypter s of
       None \<Rightarrow> ret b
     | Some k \<Rightarrow>
         if b_UserID b = actor \<and> length (b_SecureNotes b) > 0 then
           (case Decrypt k (b_SecureNotes b) of
              Inl _ \<Rightarrow> ret b
            | Inr plain \<Rightarrow> ret (b\<lparr>b_SecureNotesPlain := plain\<rparr>))
         else ret b)"

definition BookingService_Get :: "uuid \<Rightarrow> booking action" where
  "BookingService_Get i = bookings_Get i"

definition BookingService_ListByUser :: "uuid \<Rightarrow> int \<Rightarrow> int \<Rightarrow> booking list action" where
  "BookingService_ListByUser u limit offset = bookings_ListByUser u limit offset"

definition BookingService_List :: "int \<Rightarrow> int \<Rightarrow> booking list action" where
  "BookingService_List limit offset = bookings_List limit offset"

text \<open>The block of \<open>Transition\<close> that guards a promotion from the wait list.\<close>

definition promotion_check :: "booking \<Rightarrow> booking_status \<Rightarrow> unit action" where
  "promotion_check b target =
     (if b_Status b = StatusWaitlisted \<and> target = StatusPendingConfirmation
      then bindE (bookings_ResourceHasOverlap (b_ResourceID b) (b_StartTime b) (b_EndTime b) (Some (b_ID b)))
             (\<lambda>busy. if busy then fail ErrConflict else ret ())
      else ret ())"

definition BookingService_Transition ::
  "booking_service \<Rightarrow> uuid \<Rightarrow> uuid \<Rightarrow> booking_status \<Rightarrow> booking action" where
  "BookingService_Transition s actor i target =
     bindE (bookings_Get i) (\<lambda>b.
     if b_UserID b \<noteq> actor then fail ErrForbidden else
     if \<not> CanTransition (b_Status b) target then fail ErrInvalidTransition else
     bindE now (\<lambda>t.
     let timeToStart = b_StartTime b - t;
         cutoffActive = (timeToStart > 0 \<and> timeToStart < ChangeCutoff (policy s)) in
     if cutoffActive \<and> target \<in> {StatusCanceled, StatusWaitlisted, StatusPendingConfirmation}
     then fail ErrCutoff else
     bindE (promotion_check b target) (\<lambda>_.
     bindE (bookings_UpdateStatus i target) (\<lambda>_.
     ret (b\<lparr>b_Status := target, b_UpdatedAt := t\<rparr>)))))"

lemma seal_notes_readonly [store_rules]: "readonly (seal_notes enc p)"
  unfolding seal_notes_def by (intro store_rules)

lemma promotion_check_readonly [store_rules]: "readonly (promotion_check b target)"
  unfolding promotion_check_def by (intro store_rules)

lemma admit_readonly [store_rules]: "readonly (BookingService_admit s inp)"
  unfolding BookingService_admit_def Let_def by (intro store_rules)

lemma Create_all_or_nothing [store_rules]: "all_or_nothing (BookingService_Create s inp)"
  unfolding BookingService_Create_def by (intro store_rules)

lemma Transition_all_or_nothing [store_rules]: "all_or_nothing (BookingService_Transition s a i t)"
  unfolding BookingService_Transition_def Let_def by (intro store_rules)


section \<open>What an admitted booking has passed\<close>

definition requested_party :: "create_input \<Rightarrow> int" where
  "requested_party inp = (if in_PartySize inp \<le> 0 then 1 else in_PartySize inp)"

definition admissible :: "booking_service \<Rightarrow> create_input \<Rightarrow> time \<Rightarrow> db \<Rightarrow> resource \<Rightarrow> bool" where
  "admissible s inp t d r \<longleftrightarrow>
     (\<exists>u. row_by u_ID (in_UserID inp) (users d) = Some u \<and> \<not> u_IsBlacklisted u) \<and>
     row_by r_ID (in_ResourceID inp) (resources d) = Some r \<and>
     in_StartTime inp < in_EndTime inp \<and>
     requested_party inp \<le> r_Capacity r \<and>
     t + MinLeadTime (policy s) \<le> in_StartTime inp \<and>
     int (matches (active_on_day (in_UserID inp) (in_StartTime inp)) (bookings d)) < MaxActivePerDay (policy s) \<and>
     (\<forall>b \<in> set (bookings d). b_UserID b = in_UserID inp \<longrightarrow> b_Status b = StatusCanceled \<or>
        \<not> overlaps (b_StartTime b) (b_EndTime b) (in_StartTime inp) (in_EndTime inp)) \<and>
     int4 (seats_in_window (in_ResourceID inp) (in_StartTime inp) (in_EndTime inp) (bookings d)) \<and>
     in_UserID inp \<noteq> uuid_nil \<and> in_ResourceID inp \<noteq> uuid_nil"

definition initial_status :: "create_input \<Rightarrow> db \<Rightarrow> resource \<Rightarrow> booking_status" where
  "initial_status inp d r =
     (if r_Capacity r - seats_in_window (in_ResourceID inp) (in_StartTime inp) (in_EndTime inp) (bookings d)
         < requested_party inp
      then StatusWaitlisted else StatusPendingConfirmation)"

lemma seal_notes_store: "seal_notes enc p w = (r, w') \<Longrightarrow> store w' = store w"
  by (rule readonlyD [OF seal_notes_readonly])

lemma Booking_Validate_Inr:
  "Booking_Validate b = Inr x \<longleftrightarrow>
     b_UserID b \<noteq> uuid_nil \<and> b_ResourceID b \<noteq> uuid_nil \<and> 0 < b_PartySize b \<and> b_StartTime b < b_EndTime b"
  by (auto simp: Booking_Validate_def)

lemma validated_returns:
  "(case v of Inl e \<Rightarrow> fail e | Inr _ \<Rightarrow> ret b) w = (Inr y, w') \<longleftrightarrow> (\<exists>x. v = Inr x) \<and> y = b \<and> w' = w"
  by (auto simp: ret_def fail_def split: sum.splits)

definition admitted_booking :: "create_input \<Rightarrow> db \<Rightarrow> resource \<Rightarrow> string \<Rightarrow> booking" where
  "admitted_booking inp d r blob =
     \<lparr>b_ID = uuid_nil, b_UserID = in_UserID inp, b_ResourceID = in_ResourceID inp,
      b_GroupID = in_GroupID inp, b_PartySize = requested_party inp, b_StartTime = in_StartTime inp,
      b_EndTime = in_EndTime inp, b_Status = initial_status inp d r, b_Notes = in_Notes inp,
      b_SecureNotes = blob, b_SecureNotesPlain = [], b_CreatedAt = zero_time, b_UpdatedAt = zero_time\<rparr>"

text \<open>
  The gates of \<open>Create\<close> are exactly \<open>admissible\<close>: with the clock reading the code compares with, the
  statements it sends, and the world in which it seals the notes.
\<close>

lemma requested_party_pos: "0 < requested_party inp"
  by (simp add: requested_party_def)

lemma admit_returns:
  "BookingService_admit s inp w = (Inr b, w') \<longleftrightarrow>
     (\<exists>r blob. admissible s inp (clock w (readings w + 2)) (store w) r \<and>
        (\<forall>i < 5. \<not> outage w (stmts w + i)) \<and>
        seal_notes (encrypter s) (in_SecureNotes inp)
          (w\<lparr>readings := readings w + 6, stmts := stmts w + 5\<rparr>) = (Inr blob, w') \<and>
        b = admitted_booking inp (store w) r blob)"
proof -
  have five: "(\<forall>i < 5. \<not> outage w (stmts w + i)) \<longleftrightarrow>
     \<not> outage w (stmts w) \<and> \<not> outage w (Suc (stmts w)) \<and> \<not> outage w (Suc (Suc (stmts w))) \<and>
     \<not> outage w (Suc (Suc (Suc (stmts w)))) \<and> \<not> outage w (Suc (Suc (Suc (Suc (stmts w)))))"
    by (auto simp: eval_nat_numeral All_less_Suc)
  show ?thesis
    unfolding BookingService_admit_def Let_def requested_party_def [symmetric] five admissible_def
      admitted_booking_def initial_status_def
    by (rule iffI; clarsimp split del: if_split simp: returns validated_returns Booking_Validate_Inr requested_party_pos
         not_le not_less eval_nat_numeral)
qed

lemma bookings_Create_returns:
  assumes "bookings_Create b w = (Inr b', w')" and "0 < b_PartySize b"
  shows "booking_insertable (store w) b'"
    and "store w' = store w\<lparr>bookings := bookings (store w) @ [b'\<lparr>b_SecureNotesPlain := []\<rparr>]\<rparr>"
    and "\<exists>i t. b' = b\<lparr>b_ID := i, b_CreatedAt := t, b_UpdatedAt := t\<rparr>"
  using assms
  by (auto simp: bookings_Create_def Let_def returns split: if_splits)

section \<open>The invariant of the schedule\<close>

text \<open>
  \<open>occupancy bs r t\<close> is the number of seats of resource \<open>r\<close> held at the instant \<open>t\<close>. The rows are
  well formed (\<open>rows_ok\<close>: primary keys, \<open>CHECK\<close>s, and no party larger than its resource), no
  resource is oversold at any instant, no user is in two places at once, and no user has more active
  bookings on one day than the policy allows.
\<close>

definition occupancy :: "booking list \<Rightarrow> uuid \<Rightarrow> time \<Rightarrow> int" where
  "occupancy bs r t = sum_where
     (\<lambda>b. b_ResourceID b = r \<and> holds_seat (b_Status b) \<and> b_StartTime b \<le> t \<and> t < b_EndTime b) b_PartySize bs"

definition booking_ok :: "resource list \<Rightarrow> booking \<Rightarrow> bool" where
  "booking_ok rs b \<longleftrightarrow> 0 < b_PartySize b \<and> b_StartTime b < b_EndTime b \<and>
     (\<exists>r \<in> set rs. r_ID r = b_ResourceID b \<and> b_PartySize b \<le> r_Capacity r)"

definition rows_ok :: "db \<Rightarrow> bool" where
  "rows_ok d \<longleftrightarrow> distinct_keys b_ID (bookings d) \<and> distinct_keys r_ID (resources d) \<and>
     (\<forall>b \<in> set (bookings d). booking_ok (resources d) b)"

definition seats_safe :: "db \<Rightarrow> bool" where
  "seats_safe d \<longleftrightarrow> (\<forall>r \<in> set (resources d). \<forall>t. occupancy (bookings d) (r_ID r) t \<le> r_Capacity r)"

definition clash :: "booking \<Rightarrow> booking \<Rightarrow> bool" where
  "clash b b' \<longleftrightarrow> b_UserID b = b_UserID b' \<and> b_Status b \<noteq> StatusCanceled \<and> b_Status b' \<noteq> StatusCanceled \<and>
     overlaps (b_StartTime b) (b_EndTime b) (b_StartTime b') (b_EndTime b')"

definition no_double_booking :: "db \<Rightarrow> bool" where
  "no_double_booking d \<longleftrightarrow>
     (\<forall>b \<in> set (bookings d). \<forall>b' \<in> set (bookings d). b_ID b \<noteq> b_ID b' \<longrightarrow> \<not> clash b b')"

definition daily_cap :: "int \<Rightarrow> db \<Rightarrow> bool" where
  "daily_cap cap d \<longleftrightarrow> (\<forall>u day. int (matches (active_on_day u day) (bookings d)) \<le> max 0 cap)"

definition booking_inv :: "int \<Rightarrow> db \<Rightarrow> bool" where
  "booking_inv cap d \<longleftrightarrow> rows_ok d \<and> seats_safe d \<and> no_double_booking d \<and> daily_cap cap d"

lemma rows_okD:
  "rows_ok d \<Longrightarrow> b \<in> set (bookings d) \<Longrightarrow>
   0 < b_PartySize b \<and> b_StartTime b < b_EndTime b \<and>
   (\<exists>r \<in> set (resources d). r_ID r = b_ResourceID b \<and> b_PartySize b \<le> r_Capacity r)"
  by (auto simp: rows_ok_def booking_ok_def)

lemma clash_sym: "clash b b' \<longleftrightarrow> clash b' b"
  by (auto simp: clash_def overlaps_sym)

lemma occupancy_append [simp]: "occupancy (bs @ [b]) r t = occupancy bs r t + occupancy [b] r t"
  by (simp add: occupancy_def)

lemma occupancy_le_window:
  assumes "\<forall>b \<in> set bs. 0 < b_PartySize b" and "s \<le> t" and "t < e"
  shows "occupancy bs r t \<le> seats_in_window r s e bs"
  unfolding occupancy_def seats_in_window_def
  using assms by (intro sum_where_mono) (auto intro: overlaps_common_instant order_less_imp_le)

text \<open>An instant nobody's booking covers is unoccupied, so an unknown resource is.\<close>

lemma occupancy_unreferenced:
  "(\<And>b. b \<in> set bs \<Longrightarrow> b_ResourceID b \<noteq> r) \<Longrightarrow> occupancy bs r t = 0"
  unfolding occupancy_def by (rule sum_where_none) auto

lemma active_on_day_iff:
  "active_on_day u day b \<longleftrightarrow>
     b_UserID b = u \<and> IsActive (b_Status b) \<and> day_start (b_StartTime b) = day_start day"
  unfolding day_start_eq_iff by (auto simp: active_on_day_def IsActive_def split: booking_status.splits)

section \<open>The two writes keep it\<close>

text \<open>A new row: what the gates of \<open>Create\<close> checked is what each conjunct needs.\<close>

definition addable :: "int \<Rightarrow> db \<Rightarrow> booking \<Rightarrow> bool" where
  "addable cap d b \<longleftrightarrow>
     fresh_key b_ID (bookings d) (b_ID b) \<and>
     int (matches (active_on_day (b_UserID b) (b_StartTime b)) (bookings d)) < cap \<and>
     (\<forall>b' \<in> set (bookings d). \<not> clash b' b) \<and>
     (\<exists>r \<in> set (resources d). r_ID r = b_ResourceID b \<and> b_PartySize b \<le> r_Capacity r \<and>
        (holds_seat (b_Status b) \<longrightarrow>
           b_PartySize b + seats_in_window (r_ID r) (b_StartTime b) (b_EndTime b) (bookings d) \<le> r_Capacity r)) \<and>
     0 < b_PartySize b \<and> b_StartTime b < b_EndTime b"

lemma rows_ok_add:
  assumes "rows_ok d" and "addable cap d b"
  shows "rows_ok (d\<lparr>bookings := bookings d @ [b]\<rparr>)"
  using assms
  by (auto simp: rows_ok_def addable_def distinct_keys_append fresh_key_iff booking_ok_def)

lemma seats_safe_add:
  assumes ok: "rows_ok d" and safe: "seats_safe d" and add: "addable cap d b"
  shows "seats_safe (d\<lparr>bookings := bookings d @ [b]\<rparr>)"
  unfolding seats_safe_def
proof (simp, intro ballI allI)
  fix r t
  assume r: "r \<in> set (resources d)"
  have base: "occupancy (bookings d) (r_ID r) t \<le> r_Capacity r"
    using safe r by (simp add: seats_safe_def)
  from add obtain r' where r': "r' \<in> set (resources d)" "r_ID r' = b_ResourceID b"
    "holds_seat (b_Status b) \<longrightarrow>
       b_PartySize b + seats_in_window (r_ID r') (b_StartTime b) (b_EndTime b) (bookings d) \<le> r_Capacity r'"
    by (auto simp: addable_def)
  have party: "\<forall>b \<in> set (bookings d). 0 < b_PartySize b"
    using ok by (simp add: rows_ok_def booking_ok_def)
  show "occupancy (bookings d) (r_ID r) t + occupancy [b] (r_ID r) t \<le> r_Capacity r"
  proof (cases "b_ResourceID b = r_ID r \<and> holds_seat (b_Status b) \<and> b_StartTime b \<le> t \<and> t < b_EndTime b")
    case True
    then have "r' = r"
      using ok r r' by (auto simp: rows_ok_def dest: distinct_keys_inj)
    then show ?thesis
      using True r' occupancy_le_window [OF party, of "b_StartTime b" t "b_EndTime b" "r_ID r"]
      by (simp add: occupancy_def)
  qed (use base in \<open>auto simp: occupancy_def\<close>)
qed

lemma no_double_booking_add:
  assumes "no_double_booking d" and "addable cap d b"
  shows "no_double_booking (d\<lparr>bookings := bookings d @ [b]\<rparr>)"
  using assms clash_sym unfolding no_double_booking_def addable_def by auto

lemma daily_cap_add:
  assumes "daily_cap cap d" and "addable cap d b"
  shows "daily_cap cap (d\<lparr>bookings := bookings d @ [b]\<rparr>)"
  unfolding daily_cap_def
proof (intro allI)
  fix u day
  have "int (matches (active_on_day u day) (bookings d)) \<le> max 0 cap"
    using assms(1) by (simp add: daily_cap_def)
  moreover have "int (matches (active_on_day u day) (bookings d)) < cap" if "active_on_day u day b"
  proof -
    have "active_on_day (b_UserID b) (b_StartTime b) = active_on_day u day"
      using that by (auto simp: active_on_day_iff fun_eq_iff)
    then show ?thesis using assms(2) by (simp add: addable_def)
  qed
  ultimately show "int (matches (active_on_day u day) (bookings (d\<lparr>bookings := bookings d @ [b]\<rparr>))) \<le> max 0 cap"
    by auto
qed

lemma booking_inv_add:
  "booking_inv cap d \<Longrightarrow> addable cap d b \<Longrightarrow> booking_inv cap (d\<lparr>bookings := bookings d @ [b]\<rparr>)"
  by (simp add: booking_inv_def rows_ok_add seats_safe_add no_double_booking_add daily_cap_add)


text \<open>A change of status: seats are only gained by a promotion onto a free window.\<close>

definition changed :: "uuid \<Rightarrow> booking_status \<Rightarrow> time \<Rightarrow> db \<Rightarrow> db" where
  "changed i st t d = d\<lparr>bookings := update_where (\<lambda>b. b_ID b = i)
     (\<lambda>b. b\<lparr>b_Status := st, b_UpdatedAt := t\<rparr>) (bookings d)\<rparr>"

definition changeable :: "db \<Rightarrow> booking \<Rightarrow> booking_status \<Rightarrow> bool" where
  "changeable d b st \<longleftrightarrow> CanTransition (b_Status b) st \<and>
     (holds_seat st \<and> \<not> holds_seat (b_Status b) \<longrightarrow>
        (\<forall>x \<in> set (bookings d). b_ResourceID x = b_ResourceID b \<longrightarrow> holds_seat (b_Status x) \<longrightarrow>
           overlaps (b_StartTime x) (b_EndTime x) (b_StartTime b) (b_EndTime b) \<longrightarrow> b_ID x = b_ID b))"

lemma rows_ok_change: "rows_ok d \<Longrightarrow> rows_ok (changed i st t d)"
  by (auto simp: rows_ok_def changed_def distinct_keys_update set_update_where booking_ok_def)

lemma seats_safe_change:
  assumes ok: "rows_ok d" and safe: "seats_safe d" and b: "row_by b_ID i (bookings d) = Some b"
    and change: "changeable d b st"
  shows "seats_safe (changed i st t d)"
  unfolding seats_safe_def
proof (intro ballI allI)
  fix r u
  assume "r \<in> set (resources (changed i st t d))"
  then have r: "r \<in> set (resources d)" by (simp add: changed_def)
  have bin: "b \<in> set (bookings d)" "b_ID b = i" using row_by_Some [OF b] by auto
  have only: "x = b" if "x \<in> set (bookings d)" "b_ID x = i" for x
    using ok bin that by (auto simp: rows_ok_def dest: distinct_keys_inj)
  define at_u where "at_u x \<longleftrightarrow> b_ResourceID x = r_ID r \<and> b_StartTime x \<le> u \<and> u < b_EndTime x" for x :: booking
  have new: "occupancy (bookings (changed i st t d)) (r_ID r) u =
      sum_where (\<lambda>x. at_u x \<and> holds_seat (if b_ID x = i then st else b_Status x)) b_PartySize (bookings d)"
    unfolding occupancy_def changed_def at_u_def by (simp add: sum_where_update) (rule sum_where_cong; auto)
  show "occupancy (bookings (changed i st t d)) (r_ID r) u \<le> r_Capacity r"
  proof (cases "holds_seat st \<and> \<not> holds_seat (b_Status b) \<and> at_u b")
    case True
    have "sum_where (\<lambda>x. at_u x \<and> holds_seat (if b_ID x = i then st else b_Status x)) b_PartySize (bookings d) =
          b_PartySize b"
    proof (rule sum_where_single [where key = b_ID])
      show "distinct_keys b_ID (bookings d)" using ok by (simp add: rows_ok_def)
      fix x
      assume "x \<in> set (bookings d)" and "at_u x \<and> holds_seat (if b_ID x = i then st else b_Status x)"
      then show "b_ID x = b_ID b"
        using True change bin
        by (auto simp: changeable_def at_u_def overlaps_def split: if_splits)
    qed (use True bin in auto)
    moreover have "b_PartySize b \<le> r_Capacity r"
      using rows_okD [OF ok bin(1)] ok True r by (auto simp: rows_ok_def at_u_def dest: distinct_keys_inj)
    ultimately show ?thesis using new by simp
  next
    case False
    have "sum_where (\<lambda>x. at_u x \<and> holds_seat (if b_ID x = i then st else b_Status x)) b_PartySize (bookings d)
        \<le> occupancy (bookings d) (r_ID r) u"
      unfolding occupancy_def
      using False only ok
      by (intro sum_where_mono)
        (auto simp: at_u_def rows_ok_def booking_ok_def split: if_splits intro: order_less_imp_le)
    also have "\<dots> \<le> r_Capacity r" using safe r by (simp add: seats_safe_def)
    finally show ?thesis using new by simp
  qed
qed

text \<open>Seen from clashes and daily counts, a transition can only take a booking out of the way.\<close>

lemma changed_booking:
  assumes "rows_ok d" "row_by b_ID i (bookings d) = Some b" "changeable d b st"
    and "x \<in> set (bookings d)" "b_ID x = i"
  shows "b_Status x \<noteq> StatusCanceled" and "IsActive st \<Longrightarrow> IsActive (b_Status x)"
proof -
  have "x = b"
    using assms row_by_Some [OF assms(2)] by (auto simp: rows_ok_def dest: distinct_keys_inj)
  then show "b_Status x \<noteq> StatusCanceled" and "IsActive st \<Longrightarrow> IsActive (b_Status x)"
    using assms(3) CanTransition_not_from_canceled CanTransition_gains_activity
    by (auto simp: changeable_def)
qed

lemma no_double_booking_change:
  assumes "rows_ok d" "no_double_booking d" "row_by b_ID i (bookings d) = Some b" "changeable d b st"
  shows "no_double_booking (changed i st t d)"
  unfolding no_double_booking_def
proof (intro ballI impI)
  let ?f = "\<lambda>x. if b_ID x = i then x\<lparr>b_Status := st, b_UpdatedAt := t\<rparr> else x"
  fix y y'
  assume "y \<in> set (bookings (changed i st t d))" "y' \<in> set (bookings (changed i st t d))" "b_ID y \<noteq> b_ID y'"
  then obtain x x' where x: "x \<in> set (bookings d)" "x' \<in> set (bookings d)" "y = ?f x" "y' = ?f x'"
    by (auto simp: changed_def set_update_where)
  have "b_ID y = b_ID x" "b_ID y' = b_ID x'" unfolding x by auto
  then have "\<not> clash x x'" using assms(2) x \<open>b_ID y \<noteq> b_ID y'\<close> by (simp add: no_double_booking_def)
  then show "\<not> clash y y'"
    using x(3,4) changed_booking(1) [OF assms(1,3,4) x(1)] changed_booking(1) [OF assms(1,3,4) x(2)]
    by (auto simp: clash_def split: if_splits)
qed

lemma daily_cap_change:
  assumes "rows_ok d" "daily_cap cap d" "row_by b_ID i (bookings d) = Some b" "changeable d b st"
  shows "daily_cap cap (changed i st t d)"
  unfolding daily_cap_def
proof (intro allI)
  fix u day
  have "matches (active_on_day u day) (bookings (changed i st t d)) \<le> matches (active_on_day u day) (bookings d)"
    unfolding changed_def
    by (simp, rule matches_update_le)
      (simp add: active_on_day_iff changed_booking(2) [OF assms(1,3,4)])
  then show "int (matches (active_on_day u day) (bookings (changed i st t d))) \<le> max 0 cap"
    using assms(2) unfolding daily_cap_def by (meson of_nat_le_iff order_trans)
qed

lemma booking_inv_change:
  "booking_inv cap d \<Longrightarrow> row_by b_ID i (bookings d) = Some b \<Longrightarrow> changeable d b st \<Longrightarrow>
   booking_inv cap (changed i st t d)"
  unfolding booking_inv_def
  by (blast intro: rows_ok_change seats_safe_change no_double_booking_change daily_cap_change)


section \<open>Every operation keeps it\<close>

lemma holds_seat_initial: "holds_seat (initial_status inp d r) \<longleftrightarrow>
   requested_party inp + seats_in_window (in_ResourceID inp) (in_StartTime inp) (in_EndTime inp) (bookings d)
     \<le> r_Capacity r"
  by (auto simp: initial_status_def holds_seat_def)

lemma Create_adds:
  assumes "BookingService_Create s inp w = (Inr b, w')"
  shows "\<exists>r n. admissible s inp (clock w n) (store w) r \<and>
    b_UserID b = in_UserID inp \<and> b_ResourceID b = in_ResourceID inp \<and>
    b_StartTime b = in_StartTime inp \<and> b_EndTime b = in_EndTime inp \<and>
    b_PartySize b = requested_party inp \<and> b_Status b = initial_status inp (store w) r \<and>
    booking_insertable (store w) b \<and>
    store w' = store w\<lparr>bookings := bookings (store w) @ [b\<lparr>b_SecureNotesPlain := []\<rparr>]\<rparr>"
proof -
  from assms obtain b0 w1 where adm: "BookingService_admit s inp w = (Inr b0, w1)"
    and ins: "bookings_Create b0 w1 = (Inr b, w')"
    by (auto simp: BookingService_Create_def returns)
  have st: "store w1 = store w" by (rule readonlyD [OF admit_readonly adm])
  from adm obtain r blob where r: "admissible s inp (clock w (readings w + 2)) (store w) r"
    and b0: "b0 = admitted_booking inp (store w) r blob"
    unfolding admit_returns by blast
  have pos: "0 < b_PartySize b0" by (simp add: b0 admitted_booking_def requested_party_pos)
  obtain k t where b: "b = b0\<lparr>b_ID := k, b_CreatedAt := t, b_UpdatedAt := t\<rparr>"
    using bookings_Create_returns(3) [OF ins pos] by blast
  show ?thesis
    using r bookings_Create_returns(1,2) [OF ins pos] unfolding st
    by (intro exI [of _ r] exI [of _ "readings w + 2"]) (simp add: b b0 admitted_booking_def)
qed

lemma admissible_addable:
  assumes "admissible s inp t d r" and "booking_insertable d b"
    and "b_UserID b = in_UserID inp" "b_ResourceID b = in_ResourceID inp"
      "b_StartTime b = in_StartTime inp" "b_EndTime b = in_EndTime inp"
      "b_PartySize b = requested_party inp" "b_Status b = initial_status inp d r"
  shows "addable (MaxActivePerDay (policy s)) d (b\<lparr>b_SecureNotesPlain := []\<rparr>)"
  using assms row_by_Some [of r_ID "in_ResourceID inp" "resources d" r]
  by (auto simp: admissible_def addable_def booking_insertable_def clash_def holds_seat_initial requested_party_pos)

lemma Create_preserves [store_rules]:
  "preserves (booking_inv (MaxActivePerDay (policy s))) (BookingService_Create s inp)"
proof (rule all_or_nothing_preserves [OF Create_all_or_nothing])
  fix w b w'
  assume "BookingService_Create s inp w = (Inr b, w')" and inv: "booking_inv (MaxActivePerDay (policy s)) (store w)"
  then show "booking_inv (MaxActivePerDay (policy s)) (store w')"
    using Create_adds admissible_addable booking_inv_add [OF inv] by metis
qed

lemma Transition_returns:
  assumes "BookingService_Transition s actor i target w = (Inr b', w')"
  shows "\<exists>b n n'. row_by b_ID i (bookings (store w)) = Some b \<and> b_UserID b = actor \<and>
    changeable (store w) b target \<and>
    \<not> (0 < b_StartTime b - clock w n \<and> b_StartTime b - clock w n < ChangeCutoff (policy s) \<and>
       target \<in> {StatusCanceled, StatusWaitlisted, StatusPendingConfirmation}) \<and>
    b' = b\<lparr>b_Status := target, b_UpdatedAt := clock w n\<rparr> \<and>
    store w' = changed i target (clock w n') (store w)"
proof -
  from assms obtain b w2 where b: "row_by b_ID i (bookings (store w)) = Some b" "b_UserID b = actor"
    and trans: "CanTransition (b_Status b) target"
    and cut: "\<not> (0 < b_StartTime b - clock w (Suc (readings w)) \<and>
       b_StartTime b - clock w (Suc (readings w)) < ChangeCutoff (policy s) \<and>
       target \<in> {StatusCanceled, StatusWaitlisted, StatusPendingConfirmation})"
    and free: "promotion_check b target (w\<lparr>stmts := Suc (stmts w), readings := Suc (Suc (readings w))\<rparr>) = (Inr (), w2)"
    and upd: "bookings_UpdateStatus i target w2 = (Inr (), w')"
    and b': "b' = b\<lparr>b_Status := target, b_UpdatedAt := clock w (Suc (readings w))\<rparr>"
    unfolding BookingService_Transition_def Let_def
    by (fastforce simp: returns simp del: bookings_UpdateStatus_returns)
  have "store w2 = store w \<and> clock w2 = clock w" and "changeable (store w) b target"
    using free trans by (auto simp: promotion_check_def returns changeable_def split: if_splits dest: CanTransition_gains_seat)
  then show ?thesis
    using b cut b' upd by (auto simp: changed_def returns)
qed

lemma Transition_preserves [store_rules]: "preserves (booking_inv cap) (BookingService_Transition s actor i target)"
  by (rule all_or_nothing_preserves [OF Transition_all_or_nothing])
    (metis Transition_returns booking_inv_change)

text \<open>Deleting bookings, users with all their bookings, and adding resources.\<close>

lemma booking_inv_fewer:
  assumes inv: "booking_inv cap d" and sub: "bookings d' = delete_where p (bookings d)" and res: "resources d' = resources d"
  shows "booking_inv cap d'"
proof -
  have "occupancy (bookings d') r t \<le> occupancy (bookings d) r t" for r t
    unfolding occupancy_def sub sum_where_delete
    using inv by (intro sum_where_mono) (auto simp: booking_inv_def rows_ok_def booking_ok_def intro: order_less_imp_le)
  then have "seats_safe d'"
    using inv unfolding booking_inv_def seats_safe_def res by (meson order_trans)
  moreover have "int (matches (active_on_day u day) (bookings d')) \<le> int (matches (active_on_day u day) (bookings d))" for u day
    unfolding sub by (simp add: matches_delete_le)
  then have "daily_cap cap d'"
    using inv unfolding booking_inv_def daily_cap_def by (meson order_trans)
  ultimately show ?thesis
    using inv by (auto simp: booking_inv_def rows_ok_def sub res distinct_keys_delete no_double_booking_def)
qed

lemma booking_inv_resource:
  assumes inv: "booking_inv cap d" and new: "resource_insertable d r"
  shows "booking_inv cap (d\<lparr>resources := resources d @ [r]\<rparr>)"
proof -
  have "occupancy (bookings d) (r_ID r) t = 0" for t
  proof (rule occupancy_unreferenced)
    fix b
    assume "b \<in> set (bookings d)"
    then have "b_ResourceID b \<in> r_ID ` set (resources d)"
      using inv by (auto simp: booking_inv_def dest!: rows_okD [of d b] intro: rev_image_eqI)
    then show "b_ResourceID b \<noteq> r_ID r" using new by (auto simp: resource_insertable_def fresh_key_def)
  qed
  then show ?thesis
    using inv new
    by (auto simp: booking_inv_def rows_ok_def seats_safe_def daily_cap_def no_double_booking_def booking_ok_def
        resource_insertable_def distinct_keys_append fresh_key_iff)
qed

lemma booking_inv_frame:
  "bookings d' = bookings d \<Longrightarrow> resources d' = resources d \<Longrightarrow> booking_inv cap d' = booking_inv cap d"
  by (simp add: booking_inv_def rows_ok_def seats_safe_def daily_cap_def no_double_booking_def)

lemma booking_inv_empty: "booking_inv cap empty_db"
  by (simp add: booking_inv_def rows_ok_def seats_safe_def no_double_booking_def daily_cap_def empty_db_def
      distinct_keys_def)

lemma resource_inserts_preserve [store_rules]:
  "preserves (booking_inv cap) (resources_Create r)" "preserves (booking_inv cap) (resources_InsertManyTx rows)"
  by (rule preserves_resource_inserts; simp add: booking_inv_resource)+

lemma bookings_Delete_preserves [store_rules]: "preserves (booking_inv cap) (bookings_Delete i)"
  unfolding bookings_Delete_def
  by (rule preserves_sql) (auto split: if_splits intro: booking_inv_fewer)

lemma HardDelete_preserves [store_rules]: "preserves (booking_inv cap) (users_HardDelete i)"
  unfolding users_HardDelete_def
  by (rule preserves_sql) (auto split: if_splits simp: delete_user_row_def Let_def intro: booking_inv_fewer)


section \<open>Example data for the closed runs\<close>

definition demo_user :: "uuid \<Rightarrow> string \<Rightarrow> user" where
  "demo_user i name = \<lparr>u_ID = i, u_Username = name, u_PasswordHash = ''hash'', u_IsBlacklisted = False,
     u_BlacklistReason = [], u_IsAdmin = False, u_MustRotatePassword = False, u_AnonymizedAt = None,
     u_FailedAttempts = 0, u_LockedUntil = None, u_LastLoginAt = None, u_CreatedAt = 0, u_UpdatedAt = 0\<rparr>"

definition demo_resource :: resource where
  "demo_resource = \<lparr>r_ID = 7, r_Name = ''slip'', r_Description = [], r_Capacity = 4, r_CreatedAt = 0\<rparr>"

definition demo_db :: db where
  "demo_db = empty_db\<lparr>users := [demo_user 1 ''alice'', demo_user 2 ''bob''], resources := [demo_resource]\<rparr>"

definition demo_service :: booking_service where
  "demo_service = \<lparr>encrypter = None, policy = DefaultBookingPolicy\<rparr>"

definition demo_input :: "uuid \<Rightarrow> int \<Rightarrow> create_input" where
  "demo_input u party = \<lparr>in_UserID = u, in_ResourceID = 7, in_GroupID = None, in_PartySize = party,
     in_StartTime = 10 * hour, in_EndTime = 11 * hour, in_Notes = [], in_SecureNotes = []\<rparr>"

definition toy_aead :: key_manager where
  "toy_aead = \<lparr>NonceSize = 1, gcm_Seal = (\<lambda>n p. CHR ''#'' # p),
     gcm_Open = (\<lambda>n c. case c of [] \<Rightarrow> None | x # p \<Rightarrow> if x = CHR ''#'' then Some p else None)\<rparr>"

lemmas demo_defs = demo_user_def demo_resource_def demo_db_def demo_service_def demo_input_def
  demo_world_def empty_db_def DefaultBookingPolicy_def

lemmas booking_code = BookingService_Create_def BookingService_admit_def bookings_Create_def
  users_GetByID_def resources_Get_def bookings_CountActiveByUserOnDate_def bookings_UserHasOverlap_def
  resources_SumActivePartySizesInWindow_def seats_in_window_def seal_notes_def Booking_Validate_def
  booking_insertable_def references_def references_opt_def fresh_key_def int4_def row_by_def
  overlaps_def active_on_day_def holds_seat_def

lemma toy_aead_ok: "aead_ok toy_aead"
  by (simp add: aead_ok_def toy_aead_def)

text \<open>The result of alice's request in the example database.\<close>

definition demo_booking :: "uuid \<Rightarrow> uuid \<Rightarrow> int \<Rightarrow> booking" where
  "demo_booking i u party = \<lparr>b_ID = i, b_UserID = u, b_ResourceID = 7, b_GroupID = None, b_PartySize = party,
     b_StartTime = 10 * hour, b_EndTime = 11 * hour, b_Status = StatusPendingConfirmation, b_Notes = [],
     b_SecureNotes = [], b_SecureNotesPlain = [], b_CreatedAt = 0, b_UpdatedAt = 0\<rparr>"

lemma demo_create:
  "BookingService_Create demo_service (demo_input 1 3) (demo_world demo_db 0) =
     (Inr (demo_booking 1000 1 3),
      (demo_world demo_db 0)\<lparr>store := demo_db\<lparr>bookings := [demo_booking 1000 1 3]\<rparr>,
         readings := 8, stmts := 6, minted := 1\<rparr>)"
  by (simp add: booking_code demo_defs demo_booking_def run_defs)


section \<open>When a request goes through\<close>

lemma seal_nothing [simp]: "seal_notes enc [] w = (Inr [], w)"
  by (simp add: seal_notes_def ret_def)

lemma bookings_Create_calm:
  assumes "calm w" and "0 < b_PartySize b" and "b_ID b = uuid_nil"
  shows "(\<exists>b' w'. bookings_Create b w = (Inr b', w')) \<longleftrightarrow>
    booking_insertable (store w) (b\<lparr>b_ID := uuids w (minted w)\<rparr>)"
  using assms
  by (auto simp: bookings_Create_def Let_def returns booking_insertable_def)

text \<open>
  The first gate of \<open>Create\<close> that a request fails, in the order of the code; \<open>t\<close> is the clock when the
  lead time is checked.
\<close>

definition first_refusal :: "booking_service \<Rightarrow> create_input \<Rightarrow> time \<Rightarrow> db \<Rightarrow> go_error option" where
  "first_refusal s inp t d =
     (case row_by u_ID (in_UserID inp) (users d) of None \<Rightarrow> Some ErrNotFound | Some u \<Rightarrow>
      if u_IsBlacklisted u then Some ErrBlacklisted else
      case row_by r_ID (in_ResourceID inp) (resources d) of None \<Rightarrow> Some ErrNotFound | Some r \<Rightarrow>
      if in_EndTime inp \<le> in_StartTime inp then Some ErrInvalidInput
      else if r_Capacity r < requested_party inp then Some ErrCapacityExceed
      else if in_StartTime inp < t + MinLeadTime (policy s) then Some ErrLeadTime
      else if MaxActivePerDay (policy s)
              \<le> int (matches (active_on_day (in_UserID inp) (in_StartTime inp)) (bookings d)) then Some ErrDailyLimit
      else if list_ex (\<lambda>b. b_UserID b = in_UserID inp \<and> b_Status b \<noteq> StatusCanceled \<and>
                overlaps (b_StartTime b) (b_EndTime b) (in_StartTime inp) (in_EndTime inp)) (bookings d)
      then Some ErrOverlap
      else if \<not> int4 (seats_in_window (in_ResourceID inp) (in_StartTime inp) (in_EndTime inp) (bookings d))
      then Some DBError
      else if in_UserID inp = uuid_nil \<or> in_ResourceID inp = uuid_nil then Some ErrInvalidInput
      else None)"

lemma first_refusal_None: "first_refusal s inp t d = None \<longleftrightarrow> (\<exists>r. admissible s inp t d r)"
  by (auto simp: first_refusal_def admissible_def list_ex_iff not_le not_less split: option.splits if_splits)


lemma admit_calm_refusal:
  assumes "calm w" and "in_SecureNotes inp = []"
    and "first_refusal s inp (clock w (readings w + 2)) (store w) = Some e"
  shows "fst (BookingService_admit s inp w) = Inl e"
proof -
  have pos: "\<not> requested_party inp \<le> 0" using requested_party_pos [of inp] by simp
  note code = BookingService_admit_def Let_def requested_party_def [symmetric] booking_reads users_GetByID_def
  show ?thesis
  proof (cases "row_by u_ID (in_UserID inp) (users (store w))")
    case None
    then show ?thesis using assms by (simp add: code first_refusal_def calm_run)
  next
    case u: (Some u)
    show ?thesis
    proof (cases "\<not> u_IsBlacklisted u \<and> row_by r_ID (in_ResourceID inp) (resources (store w)) \<noteq> None")
      case False
      then show ?thesis using assms u by (auto simp: code first_refusal_def calm_run split: if_splits)
    next
      case True
      then obtain r where r: "row_by r_ID (in_ResourceID inp) (resources (store w)) = Some r" "\<not> u_IsBlacklisted u"
        by auto
      show ?thesis
        using assms pos u r
        by (simp add: code first_refusal_def calm_run Booking_Validate_def eval_nat_numeral
            not_le not_less split: if_splits) auto
    qed
  qed
qed

section \<open>Properties\<close>

text \<open>
  C4. Which error a booking request is refused with. In a world where the database answers, a request
  without secure notes that fails a gate of the policy gets the error of the first gate it fails
  (unknown user, blacklist, unknown resource, empty window, party above capacity, lead time, daily
  cap, overlap with a booking of the same user), and nothing is stored.
\<close>

theorem booking_refused_by_first_gate:
  assumes "calm w" and "in_SecureNotes inp = []"
    and "first_refusal s inp (clock w (readings w + 2)) (store w) = Some e"
  shows "fst (BookingService_Create s inp w) = Inl e \<and>
         store (snd (BookingService_Create s inp w)) = store w"
proof -
  obtain w1 where adm: "BookingService_admit s inp w = (Inl e, w1)"
    using admit_calm_refusal [OF assms] by (metis fst_conv surj_pair)
  then show ?thesis
    using readonlyD [OF admit_readonly adm] by (simp add: BookingService_Create_def bindE_def)
qed

theorem booking_refused_by_first_gate_witness:
  "fst (BookingService_Create demo_service (demo_input 1 5) (demo_world demo_db 0)) = Inl ErrCapacityExceed"
  using booking_refused_by_first_gate [of "demo_world demo_db 0" "demo_input 1 5" demo_service ErrCapacityExceed]
  by (simp add: first_refusal_def requested_party_def demo_defs row_by_def calm_def)

text \<open>
  C5. When a booking request is accepted and what it gets. In a calm world a request without secure
  notes or a group, with a fresh UUID and a 32-bit party, is accepted exactly when it passes every
  gate; it is stored as one new row, confirmed when its party fits into the seats that are left in its
  window and put on the wait list otherwise.
\<close>

theorem booking_accepted_iff:
  assumes "calm w" and "in_SecureNotes inp = []" and "in_GroupID inp = None"
    and "fresh_key b_ID (bookings (store w)) (uuids w (minted w))" and "int4 (requested_party inp)"
  shows "(\<exists>b w'. BookingService_Create s inp w = (Inr b, w') \<and>
            store w' = store w\<lparr>bookings := bookings (store w) @ [b\<lparr>b_SecureNotesPlain := []\<rparr>]\<rparr> \<and>
            (\<exists>r. row_by r_ID (in_ResourceID inp) (resources (store w)) = Some r \<and>
               b_Status b =
                 (if requested_party inp
                     + seats_in_window (in_ResourceID inp) (in_StartTime inp) (in_EndTime inp) (bookings (store w))
                     \<le> r_Capacity r
                  then StatusPendingConfirmation else StatusWaitlisted))) \<longleftrightarrow>
         first_refusal s inp (clock w (readings w + 2)) (store w) = None"
    (is "?L \<longleftrightarrow> ?R")
proof
  assume ?L
  then obtain b w' where "BookingService_Create s inp w = (Inr b, w')" by blast
  then show ?R
    unfolding first_refusal_None BookingService_Create_def by (auto simp: bindE_returns admit_returns)
next
  assume ?R
  then obtain r where adm: "admissible s inp (clock w (readings w + 2)) (store w) r"
    unfolding first_refusal_None by blast
  define w1 where "w1 = w\<lparr>readings := readings w + 6, stmts := stmts w + 5\<rparr>"
  define b0 where "b0 = admitted_booking inp (store w) r []"
  have b0: "BookingService_admit s inp w = (Inr b0, w1)"
    using adm assms unfolding admit_returns b0_def w1_def
    by (intro exI [of _ r] exI [of _ "[]"]) simp
  have pos: "0 < b_PartySize b0" by (simp add: b0_def admitted_booking_def requested_party_pos)
  have "booking_insertable (store w1) (b0\<lparr>b_ID := uuids w1 (minted w1)\<rparr>)"
    using adm assms
    by (auto simp: booking_insertable_def b0_def admitted_booking_def w1_def admissible_def references_iff
        references_opt_def requested_party_pos initial_status_def dest!: row_by_Some)
  then obtain b w' where ins: "bookings_Create b0 w1 = (Inr b, w')"
    using bookings_Create_calm [of w1 b0] assms pos by (auto simp: w1_def b0_def admitted_booking_def calm_def)
  obtain i t where "b = b0\<lparr>b_ID := i, b_CreatedAt := t, b_UpdatedAt := t\<rparr>"
    using bookings_Create_returns(3) [OF ins pos] by blast
  then have "b_Status b = initial_status inp (store w) r"
    by (simp add: b0_def admitted_booking_def)
  then show ?L
    using b0 ins bookings_Create_returns(2) [OF ins pos] adm
    by (intro exI [of _ b] exI [of _ w'] conjI)
      (auto simp: BookingService_Create_def bindE_run initial_status_def admissible_def w1_def)
qed

theorem booking_accepted_iff_witness:
  "\<exists>b w'. BookingService_Create demo_service (demo_input 1 3) (demo_world demo_db 0) = (Inr b, w')"
  using booking_accepted_iff [of "demo_world demo_db 0" "demo_input 1 3" demo_service]
  by (auto simp: first_refusal_def requested_party_def demo_defs row_by_def calm_def fresh_key_def int4_def
      seats_in_window_def)


text \<open>
  C6. A status change goes through only for the owner, only along an edge of the state machine, never
  inside the cutoff for a cancellation or a move to or from the wait list, and a promotion from the
  wait list only when no other booking holds a seat in the window. It changes the status and the
  timestamp of that one row and nothing else; terminal bookings therefore never move.
\<close>

theorem transition_guarded:
  assumes "BookingService_Transition s actor i target w = (Inr b', w')"
  shows "\<exists>b n n'. row_by b_ID i (bookings (store w)) = Some b \<and> b_UserID b = actor \<and>
    CanTransition (b_Status b) target \<and> \<not> IsTerminal (b_Status b) \<and>
    \<not> (0 < b_StartTime b - clock w n \<and> b_StartTime b - clock w n < ChangeCutoff (policy s) \<and>
       target \<in> {StatusCanceled, StatusWaitlisted, StatusPendingConfirmation}) \<and>
    (b_Status b = StatusWaitlisted \<and> target = StatusPendingConfirmation \<longrightarrow>
       (\<forall>x \<in> set (bookings (store w)). b_ResourceID x = b_ResourceID b \<longrightarrow> holds_seat (b_Status x) \<longrightarrow>
          overlaps (b_StartTime x) (b_EndTime x) (b_StartTime b) (b_EndTime b) \<longrightarrow> b_ID x = b_ID b)) \<and>
    b' = b\<lparr>b_Status := target, b_UpdatedAt := clock w n\<rparr> \<and>
    store w' = (store w)\<lparr>bookings := update_where (\<lambda>x. b_ID x = i)
      (\<lambda>x. x\<lparr>b_Status := target, b_UpdatedAt := clock w n'\<rparr>) (bookings (store w))\<rparr>"
proof -
  obtain b n n' where b: "row_by b_ID i (bookings (store w)) = Some b" "b_UserID b = actor"
    "changeable (store w) b target"
    "\<not> (0 < b_StartTime b - clock w n \<and> b_StartTime b - clock w n < ChangeCutoff (policy s) \<and>
       target \<in> {StatusCanceled, StatusWaitlisted, StatusPendingConfirmation})"
    "b' = b\<lparr>b_Status := target, b_UpdatedAt := clock w n\<rparr>"
    "store w' = changed i target (clock w n') (store w)"
    using Transition_returns [OF assms] by blast
  from b(3) have edge: "CanTransition (b_Status b) target" by (simp add: changeable_def)
  then have live: "\<not> IsTerminal (b_Status b)" by (auto simp: IsTerminal_def)
  have free: "b_Status b = StatusWaitlisted \<and> target = StatusPendingConfirmation \<longrightarrow>
       (\<forall>x \<in> set (bookings (store w)). b_ResourceID x = b_ResourceID b \<longrightarrow> holds_seat (b_Status x) \<longrightarrow>
          overlaps (b_StartTime x) (b_EndTime x) (b_StartTime b) (b_EndTime b) \<longrightarrow> b_ID x = b_ID b)"
    using b(3) by (auto simp: changeable_def holds_seat_def)
  show ?thesis
    by (intro exI [of _ b] exI [of _ n] exI [of _ n'] conjI b(1,2,4,5) edge live free b(6) [unfolded changed_def])
qed

definition demo_booked :: "booking list \<Rightarrow> db" where
  "demo_booked bs = demo_db\<lparr>bookings := bs\<rparr>"

theorem transition_guarded_witness:
  "\<exists>b'. BookingService_Transition demo_service 1 1000 StatusCanceled
          (demo_world (demo_booked [demo_booking 1000 1 3]) 0) =
     (Inr b', (demo_world (demo_booked [(demo_booking 1000 1 3)\<lparr>b_Status := StatusCanceled\<rparr>]) 0)
        \<lparr>readings := 3, stmts := 2\<rparr>) \<and> CanTransition StatusPendingConfirmation StatusCanceled"
proof -
  define w' where "w' = (demo_world (demo_booked [(demo_booking 1000 1 3)\<lparr>b_Status := StatusCanceled\<rparr>]) 0)
        \<lparr>readings := 3, stmts := 2\<rparr>"
  have run: "BookingService_Transition demo_service 1 1000 StatusCanceled
      (demo_world (demo_booked [demo_booking 1000 1 3]) 0) =
      (Inr ((demo_booking 1000 1 3)\<lparr>b_Status := StatusCanceled\<rparr>), w')"
    by (simp add: w'_def BookingService_Transition_def promotion_check_def bookings_Get_def
        bookings_UpdateStatus_def row_by_def demo_defs demo_booking_def demo_booked_def run_defs)
  from transition_guarded [OF this] have "CanTransition StatusPendingConfirmation StatusCanceled"
    by (auto simp: demo_booked_def demo_defs row_by_def demo_booking_def)
  with run show ?thesis by (simp add: w'_def)
qed

text \<open>
  C7. Secure notes round-trip for the owner and stay sealed for everybody else. Whatever happens
  between the creation of a booking and its retrieval, as long as the row is still there with the
  blob that \<open>Create\<close> stored, \<open>GetForOwner\<close> gives the plaintext to the user who made the booking and
  an empty plaintext to any other caller.
\<close>

theorem secure_notes_for_the_owner_only:
  assumes "aead_ok k" and "encrypter s = Some k"
    and made: "BookingService_Create s inp w = (Inr b, w')"
    and row: "row_by b_ID (b_ID b) (bookings (store w2)) = Some b2"
      "b_SecureNotes b2 = b_SecureNotes b" "b_UserID b2 = b_UserID b" "b_SecureNotesPlain b2 = []"
    and got: "BookingService_GetForOwner s actor (b_ID b) w2 = (Inr b3, w3)"
  shows "b_SecureNotesPlain b3 = (if actor = in_UserID inp then in_SecureNotes inp else []) \<and>
         b_SecureNotes b3 = b_SecureNotes b"
proof -
  from made obtain b0 w1 where adm: "BookingService_admit s inp w = (Inr b0, w1)"
    and ins: "bookings_Create b0 w1 = (Inr b, w')"
    by (auto simp: BookingService_Create_def returns)
  from adm obtain r blob v v' where b0: "b0 = admitted_booking inp (store w) r blob"
    and sealed: "seal_notes (Some k) (in_SecureNotes inp) v = (Inr blob, v')"
    unfolding admit_returns assms(2) by blast
  have pos: "0 < b_PartySize b0" by (simp add: b0 admitted_booking_def requested_party_pos)
  obtain i t where "b = b0\<lparr>b_ID := i, b_CreatedAt := t, b_UpdatedAt := t\<rparr>"
    using bookings_Create_returns(3) [OF ins pos] by blast
  then have b: "b_SecureNotes b = blob" "b_UserID b = in_UserID inp"
    by (simp_all add: b0 admitted_booking_def)
  have dec: "Decrypt k blob = Inr (in_SecureNotes inp)"
    using sealed Decrypt_Encrypt [OF assms(1)]
    by (cases "in_SecureNotes inp = []") (auto simp: seal_notes_def ret_def)
  then have "blob = [] \<Longrightarrow> in_SecureNotes inp = []"
    by simp
  then show ?thesis
    using got row b dec assms(2)
    by (auto simp: BookingService_GetForOwner_def returns bindE_returns split: if_splits)
qed


definition demo_sealed_service :: booking_service where
  "demo_sealed_service = demo_service\<lparr>encrypter := Some toy_aead\<rparr>"

definition demo_sealed_input :: create_input where
  "demo_sealed_input = (demo_input 1 3)\<lparr>in_SecureNotes := ''gate 42''\<rparr>"

definition demo_sealed_booking :: booking where
  "demo_sealed_booking = (demo_booking 1000 1 3)\<lparr>b_SecureNotes := ''A#gate 42''\<rparr>"

theorem secure_notes_for_the_owner_only_witness:
  "\<exists>b b' w. BookingService_Create demo_sealed_service demo_sealed_input (demo_world demo_db 0) = (Inr b, w) \<and>
     fst (BookingService_GetForOwner demo_sealed_service 1 (b_ID b) w) = Inr b' \<and>
     b_SecureNotesPlain b' = ''gate 42'' \<and> b_SecureNotes b' = ''A#gate 42''"
proof -
  define w where "w = (demo_world (demo_booked [demo_sealed_booking]) 0)\<lparr>readings := 8, stmts := 6, minted := 1, drawn := 1\<rparr>"
  define b' where "b' = demo_sealed_booking\<lparr>b_SecureNotesPlain := ''gate 42''\<rparr>"
  have made: "BookingService_Create demo_sealed_service demo_sealed_input (demo_world demo_db 0) =
      (Inr demo_sealed_booking, w)"
    by (simp add: booking_code demo_sealed_service_def demo_sealed_input_def demo_sealed_booking_def toy_aead_def
        Encrypt_def demo_defs demo_booking_def demo_booked_def run_defs w_def)
  have got: "fst (BookingService_GetForOwner demo_sealed_service 1 1000 w) = Inr b'"
    by (simp add: BookingService_GetForOwner_def bookings_Get_def row_by_def demo_sealed_service_def
        demo_sealed_booking_def toy_aead_def Decrypt_def demo_defs demo_booking_def demo_booked_def run_defs w_def b'_def)
  have "b_ID demo_sealed_booking = 1000"
    by (simp add: demo_sealed_booking_def demo_booking_def)
  with got obtain w3 where
    got': "BookingService_GetForOwner demo_sealed_service 1 (b_ID demo_sealed_booking) w = (Inr b', w3)"
    by (cases "BookingService_GetForOwner demo_sealed_service 1 1000 w") simp
  have "b_SecureNotesPlain b' = (if 1 = in_UserID demo_sealed_input then in_SecureNotes demo_sealed_input else []) \<and>
        b_SecureNotes b' = b_SecureNotes demo_sealed_booking"
    by (rule secure_notes_for_the_owner_only [OF toy_aead_ok _ made _ _ _ _ got', where ?b2.0 = demo_sealed_booking])
      (simp_all add: demo_sealed_service_def w_def demo_booked_def demo_world_def row_by_def demo_sealed_booking_def demo_booking_def)
  then show ?thesis
    using made got' by (intro exI [of _ demo_sealed_booking] exI [of _ b'] exI [of _ w])
      (simp add: demo_sealed_input_def demo_input_def demo_sealed_booking_def)
qed

text \<open>Two \<open>Create\<close> calls whose reads both come before their inserts.\<close>

definition interleaved_creates :: "booking_service \<Rightarrow> create_input \<Rightarrow> create_input \<Rightarrow> (booking \<times> booking) action" where
  "interleaved_creates s inp1 inp2 =
     bindE (BookingService_admit s inp1) (\<lambda>b1.
     bindE (BookingService_admit s inp2) (\<lambda>b2.
     bindE (bookings_Create b1) (\<lambda>b1'.
     bindE (bookings_Create b2) (\<lambda>b2'.
     ret (b1', b2')))))"

text \<open>
  C8. The capacity check and the insert are not one step. Two requests of two users, each for three
  of four seats in the same hour, both read the schedule before either writes: both are confirmed, and
  six seats are held in a resource of four.
\<close>

theorem interleaved_creates_oversell:
  "\<exists>b1 b2 w. interleaved_creates demo_service (demo_input 1 3) (demo_input 2 3) (demo_world demo_db 0) = (Inr (b1, b2), w) \<and>
     b_Status b1 = StatusPendingConfirmation \<and> b_Status b2 = StatusPendingConfirmation \<and>
     occupancy (bookings (store w)) 7 (10 * hour) = 6 \<and> \<not> seats_safe (store w)"
proof -
  define w where "w = (demo_world (demo_booked [demo_booking 1000 1 3, demo_booking 1001 2 3]) 0)
     \<lparr>readings := 16, stmts := 12, minted := 2\<rparr>"
  have run: "interleaved_creates demo_service (demo_input 1 3) (demo_input 2 3) (demo_world demo_db 0) =
      (Inr (demo_booking 1000 1 3, demo_booking 1001 2 3), w)"
    by (simp add: interleaved_creates_def booking_code demo_defs demo_booking_def demo_booked_def run_defs w_def)
  have six: "occupancy (bookings (store w)) 7 (10 * hour) = 6"
    by (simp add: w_def demo_booked_def demo_world_def occupancy_def demo_booking_def holds_seat_def)
  moreover have "\<not> seats_safe (store w)"
    using six by (auto simp: seats_safe_def w_def demo_booked_def demo_defs intro!: exI [of _ "10 * hour"])
  ultimately show ?thesis
    using run by (intro exI conjI) (assumption | simp add: demo_booking_def)+
qed

end
