(* ===== verification/Notifications.thy ===== *)
theory Notifications
  imports Bookings
begin

text \<open>
  \<open>repository/notification.go\<close> and \<open>service/notification.go\<close>: in-app notifications, the to-do list and
  the delivery log. The column \<open>payload\<close> of a to-do is \<open>jsonb\<close>: what PostgreSQL makes of a text (None
  when it is no JSON) is the parameter \<open>jsonb\<close>.
\<close>

section \<open>The repository\<close>

definition notifications_CreateNotification :: "notification \<Rightarrow> notification action" where
  "notifications_CreateNotification n =
     bindE (if n_ID n = uuid_nil then new_uuid else ret (n_ID n)) (\<lambda>i.
     bindE (if n_CreatedAt n = zero_time then now else ret (n_CreatedAt n)) (\<lambda>t.
     let n' = n\<lparr>n_ID := i, n_CreatedAt := t\<rparr> in
     bindE (sql (\<lambda>_ d. if fresh_key n_ID (notifications d) i \<and> references u_ID (users d) (n_UserID n)
                       then Inr ((), d\<lparr>notifications := notifications d @ [n'\<lparr>n_ReadAt := None\<rparr>]\<rparr>)
                       else Inl DBError)) (\<lambda>_.
     ret n')))"

definition clamp_limit :: "int \<Rightarrow> int \<Rightarrow> int \<Rightarrow> int" where
  "clamp_limit most dflt limit = (if limit \<le> 0 \<or> limit > most then dflt else limit)"

definition notifications_ListNotifications :: "uuid \<Rightarrow> bool \<Rightarrow> int \<Rightarrow> notification list action" where
  "notifications_ListNotifications u unreadOnly limit = query (\<lambda>d. Inr (page (clamp_limit 200 50 limit) 0
     (order_desc n_CreatedAt
       (filter (\<lambda>n. n_UserID n = u \<and> (unreadOnly \<longrightarrow> n_ReadAt n = None)) (notifications d)))))"

definition notifications_MarkRead :: "uuid \<Rightarrow> uuid \<Rightarrow> unit action" where
  "notifications_MarkRead u i = sql (\<lambda>t d.
     if matches (\<lambda>n. n_ID n = i \<and> n_UserID n = u) (notifications d) = 0 then Inl ErrNotFound
     else Inr ((), d\<lparr>notifications := update_where (\<lambda>n. n_ID n = i \<and> n_UserID n = u)
                       (\<lambda>n. n\<lparr>n_ReadAt := Some t\<rparr>) (notifications d)\<rparr>))"

definition notifications_CountUnread :: "uuid \<Rightarrow> int action" where
  "notifications_CountUnread u =
     query (\<lambda>d. Inr (int (matches (\<lambda>n. n_UserID n = u \<and> n_ReadAt n = None) (notifications d))))"

definition todo_status_ok :: "string \<Rightarrow> bool" where
  "todo_status_ok st \<longleftrightarrow> st \<in> {''open'', ''in_progress'', ''done'', ''dismissed''}"

definition notifications_CreateTodo :: "(string \<Rightarrow> string option) \<Rightarrow> todo \<Rightarrow> todo action" where
  "notifications_CreateTodo jsonb x =
     bindE (if t_ID x = uuid_nil then new_uuid else ret (t_ID x)) (\<lambda>i.
     bindE now (\<lambda>t.
     let x' = x\<lparr>t_ID := i, t_CreatedAt := t, t_UpdatedAt := t,
                t_Status := (if t_Status x = [] then ''open'' else t_Status x),
                t_Payload := (if t_Payload x = [] then ''{}'' else t_Payload x)\<rparr> in
     bindE (sql (\<lambda>_ d. case jsonb (t_Payload x') of
         None \<Rightarrow> Inl DBError
       | Some js \<Rightarrow>
           if fresh_key t_ID (todos d) i \<and> references u_ID (users d) (t_UserID x) \<and> todo_status_ok (t_Status x')
           then Inr ((), d\<lparr>todos := todos d @ [x'\<lparr>t_Payload := js\<rparr>]\<rparr>) else Inl DBError)) (\<lambda>_.
     ret x')))"

definition notifications_ListTodos :: "uuid \<Rightarrow> string \<Rightarrow> int \<Rightarrow> todo list action" where
  "notifications_ListTodos u st limit = query (\<lambda>d. Inr (page (clamp_limit 200 50 limit) 0
     (order_desc t_CreatedAt
       (filter (\<lambda>x. t_UserID x = u \<and> (st \<noteq> [] \<longrightarrow> t_Status x = st)) (todos d)))))"

definition notifications_UpdateTodoStatus :: "uuid \<Rightarrow> uuid \<Rightarrow> string \<Rightarrow> unit action" where
  "notifications_UpdateTodoStatus u i st = sql (\<lambda>t d.
     if matches (\<lambda>x. t_ID x = i \<and> t_UserID x = u) (todos d) = 0 then Inl ErrNotFound
     else if \<not> todo_status_ok st then Inl DBError
     else Inr ((), d\<lparr>todos := update_where (\<lambda>x. t_ID x = i \<and> t_UserID x = u)
                       (\<lambda>x. x\<lparr>t_Status := st, t_UpdatedAt := t\<rparr>) (todos d)\<rparr>))"

definition notifications_LogDelivery :: "notification_delivery \<Rightarrow> unit action" where
  "notifications_LogDelivery x =
     bindE (if nd_ID x = uuid_nil then new_uuid else ret (nd_ID x)) (\<lambda>i.
     bindE (if nd_DeliveredAt x = zero_time then now else ret (nd_DeliveredAt x)) (\<lambda>t.
     sql (\<lambda>_ d. if fresh_key nd_ID (notification_deliveries d) i \<and>
                    references_opt n_ID (notifications d) (nd_NotificationID x)
                 then Inr ((), d\<lparr>notification_deliveries :=
                        notification_deliveries d @ [x\<lparr>nd_ID := i, nd_DeliveredAt := t\<rparr>]\<rparr>)
                 else Inl DBError)))"

definition notifications_ListDeliveries :: "int \<Rightarrow> notification_delivery list action" where
  "notifications_ListDeliveries limit =
     query (\<lambda>d. Inr (page (clamp_limit 500 100 limit) 0 (order_desc nd_DeliveredAt (notification_deliveries d))))"

section \<open>The service\<close>

definition new_notification :: "uuid \<Rightarrow> string \<Rightarrow> string \<Rightarrow> string \<Rightarrow> notification" where
  "new_notification u kind title body = \<lparr>n_ID = uuid_nil, n_UserID = u, n_Kind = kind, n_Title = title,
     n_Body = body, n_ReadAt = None, n_CreatedAt = zero_time\<rparr>"

definition NotificationService_Notify :: "uuid \<Rightarrow> string \<Rightarrow> string \<Rightarrow> string \<Rightarrow> notification action" where
  "NotificationService_Notify u kind title body =
     bindE (notifications_CreateNotification (new_notification u kind title body)) (\<lambda>n.
     ignoring (notifications_LogDelivery \<lparr>nd_ID = uuid_nil, nd_NotificationID = Some (n_ID n),
         nd_UserID = Some u, nd_Channel = ''in_app'', nd_Status = ''delivered'',
         nd_Detail = ''stored in notifications table'', nd_DeliveredAt = zero_time\<rparr>)
     (ret n))"

definition NotificationService_List :: "uuid \<Rightarrow> bool \<Rightarrow> int \<Rightarrow> notification list action" where
  "NotificationService_List u unreadOnly limit = notifications_ListNotifications u unreadOnly limit"

definition NotificationService_UnreadCount :: "uuid \<Rightarrow> int action" where
  "NotificationService_UnreadCount u = notifications_CountUnread u"

definition NotificationService_MarkRead :: "uuid \<Rightarrow> uuid \<Rightarrow> unit action" where
  "NotificationService_MarkRead u i = notifications_MarkRead u i"

text \<open>The payload is nil, or a value with the outcome of \<open>json.Marshal\<close> on it.\<close>

definition NotificationService_CreateTodo ::
  "(string \<Rightarrow> string option) \<Rightarrow> uuid \<Rightarrow> string \<Rightarrow> string \<Rightarrow> string option option \<Rightarrow> time option \<Rightarrow> todo action" where
  "NotificationService_CreateTodo jsonb u taskType title payload due =
     (let create = (\<lambda>raw. notifications_CreateTodo jsonb \<lparr>t_ID = uuid_nil, t_UserID = u,
         t_TaskType = taskType, t_Title = title, t_Payload = raw, t_Status = ''open'', t_DueAt = due,
         t_CreatedAt = zero_time, t_UpdatedAt = zero_time\<rparr>)
      in case payload of None \<Rightarrow> create [] | Some None \<Rightarrow> fail OtherError | Some (Some js) \<Rightarrow> create js)"

definition NotificationService_ListTodos :: "uuid \<Rightarrow> string \<Rightarrow> int \<Rightarrow> todo list action" where
  "NotificationService_ListTodos u st limit = notifications_ListTodos u st limit"

definition NotificationService_UpdateTodoStatus :: "uuid \<Rightarrow> uuid \<Rightarrow> string \<Rightarrow> unit action" where
  "NotificationService_UpdateTodoStatus u i st = notifications_UpdateTodoStatus u i st"

definition NotificationService_AdminDeliveries :: "int \<Rightarrow> notification_delivery list action" where
  "NotificationService_AdminDeliveries limit = notifications_ListDeliveries limit"

section \<open>Frame: what notifications leave alone\<close>

text \<open>A property of the store that does not look at the tables of this component.\<close>

definition blind_to_notifications :: "(db \<Rightarrow> bool) \<Rightarrow> bool" where
  "blind_to_notifications I \<longleftrightarrow> (\<forall>d ns ds ts. I (d\<lparr>notifications := ns\<rparr>) = I d \<and>
     I (d\<lparr>notification_deliveries := ds\<rparr>) = I d \<and> I (d\<lparr>todos := ts\<rparr>) = I d)"

lemma notification_writes_preserve:
  assumes "blind_to_notifications I"
  shows "preserves I (notifications_CreateNotification n)" "preserves I (notifications_MarkRead u i)"
    "preserves I (notifications_CreateTodo jsonb x)" "preserves I (notifications_UpdateTodoStatus u i st)"
    "preserves I (notifications_LogDelivery y)"
  using assms
  unfolding notifications_CreateNotification_def notifications_MarkRead_def notifications_CreateTodo_def
    notifications_UpdateTodoStatus_def notifications_LogDelivery_def Let_def
  by (intro store_rules preserves_sql;
      auto simp: blind_to_notifications_def split: if_splits option.splits)+

lemma NotificationService_preserves:
  assumes "blind_to_notifications I"
  shows "preserves I (NotificationService_Notify u kind title body)"
    "preserves I (NotificationService_MarkRead u i)"
    "preserves I (NotificationService_CreateTodo jsonb u ty ti p due)"
    "preserves I (NotificationService_UpdateTodoStatus u i st)"
  unfolding NotificationService_Notify_def NotificationService_MarkRead_def NotificationService_CreateTodo_def
    NotificationService_UpdateTodoStatus_def Let_def
  by (intro store_rules notification_writes_preserve assms)+

lemma notification_oracles [oracle_rules]:
  "keeps_oracles (notifications_CreateNotification n)" "keeps_oracles (notifications_LogDelivery y)"
  unfolding notifications_CreateNotification_def notifications_LogDelivery_def Let_def
  by (intro oracle_rules)+

end
