(* ===== verification/GroupBuys.thy ===== *)
theory GroupBuys
  imports Notifications
begin

text \<open>
  \<open>repository/groupbuy.go\<close>: group buys and their participants. \<open>JoinAtomic\<close> is a transaction at
  \<open>READ COMMITTED\<close>: its read (\<open>join_read\<close>) and its conditional update with the insert (\<open>join_write\<close>)
  are two definitions, because other transactions may commit between them; theory Group_Buy_Races
  interleaves the two.
\<close>

definition group_buy_status_text :: "group_buy_status \<Rightarrow> string" where
  "group_buy_status_text s =
     (case s of GroupBuyOpen \<Rightarrow> ''open'' | GroupBuyMet \<Rightarrow> ''met'' | GroupBuyExpired \<Rightarrow> ''expired''
      | GroupBuyCanceled \<Rightarrow> ''canceled'' | GroupBuyFinalized \<Rightarrow> ''finalized'' | GroupBuyFailed \<Rightarrow> ''failed'')"

text \<open>The status handed to \<open>Create\<close>: None stands for the empty string.\<close>

definition groupbuys_Create :: "group_buy_status option \<Rightarrow> group_buy \<Rightarrow> group_buy action" where
  "groupbuys_Create status g =
     bindE (if gb_ID g = uuid_nil then new_uuid else ret (gb_ID g)) (\<lambda>i.
     bindE now (\<lambda>t.
     let g' = g\<lparr>gb_ID := i, gb_CreatedAt := t, gb_UpdatedAt := t, gb_RemainingSlots := gb_Capacity g,
                gb_Version := 0,
                gb_Status := (case status of None \<Rightarrow> GroupBuyOpen | Some s \<Rightarrow> s)\<rparr> in
     bindE (sql (\<lambda>_ d. if group_buy_insertable d g' then Inr ((), d\<lparr>group_buys := group_buys d @ [g']\<rparr>)
                       else Inl DBError)) (\<lambda>_.
     ret g')))"

definition groupbuys_Get :: "uuid \<Rightarrow> group_buy action" where
  "groupbuys_Get i = query (\<lambda>d. case row_by gb_ID i (group_buys d) of None \<Rightarrow> Inl ErrNotFound | Some g \<Rightarrow> Inr g)"

definition groupbuys_List :: "int \<Rightarrow> int \<Rightarrow> group_buy list action" where
  "groupbuys_List limit offset = (case sanitisePaging limit offset of (lm, off) \<Rightarrow>
     query (\<lambda>d. Inr (page lm off (order_desc gb_CreatedAt (group_buys d)))))"

definition joinable :: "group_buy_status \<Rightarrow> bool" where
  "joinable s \<longleftrightarrow> \<not> (s \<noteq> GroupBuyOpen \<and> s \<noteq> GroupBuyMet)"

definition join_quantity :: "int \<Rightarrow> int" where
  "join_quantity qty = (if qty \<le> 0 then 1 else qty)"

definition join_read :: "uuid \<Rightarrow> int \<Rightarrow> (group_buy \<times> time) action" where
  "join_read gbID qty =
     bindE (groupbuys_Get gbID) (\<lambda>g.
     if \<not> joinable (gb_Status g) then fail ErrConflict else
     bindE now (\<lambda>t.
     if \<not> gb_Deadline g > t then fail ErrDeadlinePassed
     else if gb_RemainingSlots g < qty then fail ErrOversold
     else ret (g, t)))"

text \<open>The \<open>UPDATE .. SET .. RETURNING\<close>: what it does to the row it meets.\<close>

definition take_slots :: "int \<Rightarrow> time \<Rightarrow> group_buy \<Rightarrow> group_buy" where
  "take_slots qty t g = g\<lparr>
     gb_RemainingSlots := gb_RemainingSlots g - qty,
     gb_Version := gb_Version g + 1,
     gb_Status := (if gb_Capacity g - (gb_RemainingSlots g - qty) \<ge> gb_Threshold g then GroupBuyMet else gb_Status g),
     gb_UpdatedAt := t\<rparr>"

definition slots_free :: "uuid \<Rightarrow> int \<Rightarrow> int \<Rightarrow> group_buy \<Rightarrow> bool" where
  "slots_free gbID qty version g \<longleftrightarrow>
     gb_ID g = gbID \<and> gb_Version g = version \<and> gb_RemainingSlots g \<ge> qty"

definition join_decrement :: "uuid \<Rightarrow> int \<Rightarrow> int \<Rightarrow> group_buy action" where
  "join_decrement gbID qty version = sql (\<lambda>t d.
     case find (slots_free gbID qty version) (group_buys d) of
       None \<Rightarrow> Inl ErrOptimisticLock
     | Some g \<Rightarrow> Inr (take_slots qty t g,
         d\<lparr>group_buys := update_where (slots_free gbID qty version) (take_slots qty t) (group_buys d)\<rparr>))"

definition participant_unique :: "db \<Rightarrow> group_buy_participant \<Rightarrow> bool" where
  "participant_unique d p \<longleftrightarrow> fresh_key p_ID (participants d) (p_ID p) \<and>
     fresh_key (\<lambda>x. (p_GroupBuyID x, p_UserID x)) (participants d) (p_GroupBuyID p, p_UserID p)"

definition participant_insert :: "group_buy_participant \<Rightarrow> unit action" where
  "participant_insert p = sql (\<lambda>_ d.
     if \<not> (0 < p_Quantity p \<and> int4 (p_Quantity p)) then Inl DBError
     else if \<not> participant_unique d p then Inl ErrAlreadyJoined
     else if \<not> (references gb_ID (group_buys d) (p_GroupBuyID p) \<and> references u_ID (users d) (p_UserID p))
     then Inl DBError
     else Inr ((), d\<lparr>participants := participants d @ [p]\<rparr>))"

definition join_write ::
  "uuid \<Rightarrow> uuid \<Rightarrow> int \<Rightarrow> group_buy \<times> time \<Rightarrow> (group_buy \<times> group_buy_participant) action" where
  "join_write gbID userID qty snapshot = (case snapshot of (g, t) \<Rightarrow>
     bindE (join_decrement gbID qty (gb_Version g)) (\<lambda>updated.
     bindE new_uuid (\<lambda>i.
     let part = \<lparr>p_ID = i, p_GroupBuyID = gbID, p_UserID = userID, p_Quantity = qty, p_JoinedAt = t\<rparr> in
     bindE (participant_insert part) (\<lambda>_.
     ret (updated, part)))))"

definition groupbuys_JoinAtomic :: "uuid \<Rightarrow> uuid \<Rightarrow> int \<Rightarrow> (group_buy \<times> group_buy_participant) action" where
  "groupbuys_JoinAtomic gbID userID q =
     (let qty = join_quantity q in
      transaction (bindE (join_read gbID qty) (join_write gbID userID qty)))"

definition release_slots :: "time \<Rightarrow> group_buy \<Rightarrow> group_buy" where
  "release_slots t g = g\<lparr>gb_Status := GroupBuyFailed, gb_RemainingSlots := gb_Capacity g,
     gb_Version := gb_Version g + 1, gb_UpdatedAt := t\<rparr>"

definition groupbuys_MarkFailedAndReleaseSlots :: "uuid \<Rightarrow> unit action" where
  "groupbuys_MarkFailedAndReleaseSlots i = transaction (sql (\<lambda>t d.
     let due = (\<lambda>g. gb_ID g = i \<and> gb_Status g \<in> {GroupBuyOpen, GroupBuyMet}) in
     if matches due (group_buys d) = 0 then Inl ErrNotFound
     else Inr ((), d\<lparr>group_buys := update_where due (release_slots t) (group_buys d)\<rparr>)))"

definition groupbuys_UpdateStatus :: "uuid \<Rightarrow> group_buy_status \<Rightarrow> unit action" where
  "groupbuys_UpdateStatus i st = sql (\<lambda>t d.
     if matches (\<lambda>g. gb_ID g = i) (group_buys d) = 0 then Inl ErrNotFound
     else Inr ((), d\<lparr>group_buys := update_where (\<lambda>g. gb_ID g = i)
                       (\<lambda>g. g\<lparr>gb_Status := st, gb_UpdatedAt := t\<rparr>) (group_buys d)\<rparr>))"

definition groupbuys_ListParticipants :: "uuid \<Rightarrow> group_buy_participant list action" where
  "groupbuys_ListParticipants i =
     query (\<lambda>d. Inr (order_asc p_JoinedAt (filter (\<lambda>p. p_GroupBuyID p = i) (participants d))))"

definition expiring :: "time \<Rightarrow> group_buy \<Rightarrow> bool" where
  "expiring t g \<longleftrightarrow> gb_Deadline g \<le> t \<and> gb_Status g \<in> {GroupBuyOpen, GroupBuyMet}"

definition groupbuys_ListExpiringBefore :: "time \<Rightarrow> group_buy list action" where
  "groupbuys_ListExpiringBefore t = query (\<lambda>d. Inr (filter (expiring t) (group_buys d)))"

section \<open>The ledger\<close>

text \<open>
  The seats given out are those of the participants, except in a failed group buy, whose seats have
  all been released. With it go the keys and checks of the two tables.
\<close>

definition seats_of :: "uuid \<Rightarrow> group_buy_participant list \<Rightarrow> int" where
  "seats_of i ps = sum_where (\<lambda>p. p_GroupBuyID p = i) p_Quantity ps"

definition ledger_row :: "group_buy_participant list \<Rightarrow> group_buy \<Rightarrow> bool" where
  "ledger_row ps g \<longleftrightarrow> 0 \<le> gb_RemainingSlots g \<and> gb_RemainingSlots g \<le> gb_Capacity g \<and>
     (if gb_Status g = GroupBuyFailed then gb_RemainingSlots g = gb_Capacity g
      else Confirmed g = seats_of (gb_ID g) ps)"

definition ledger_inv :: "db \<Rightarrow> bool" where
  "ledger_inv d \<longleftrightarrow> distinct_keys gb_ID (group_buys d) \<and>
     distinct_keys (\<lambda>p. (p_GroupBuyID p, p_UserID p)) (participants d) \<and>
     (\<forall>p \<in> set (participants d). 0 < p_Quantity p \<and> p_GroupBuyID p \<in> gb_ID ` set (group_buys d)) \<and>
     (\<forall>g \<in> set (group_buys d). ledger_row (participants d) g)"

lemma seats_of_append [simp]:
  "seats_of i (ps @ [p]) = seats_of i ps + (if p_GroupBuyID p = i then p_Quantity p else 0)"
  by (simp add: seats_of_def)

lemma groupbuys_Get_readonly [store_rules]: "readonly (groupbuys_Get i)"
  by (simp add: groupbuys_Get_def readonly_query)

lemma groupbuys_reads_readonly [store_rules]:
  "readonly (groupbuys_List l k)" "readonly (groupbuys_ListParticipants i)" "readonly (groupbuys_ListExpiringBefore t)"
  by (simp_all add: groupbuys_List_def groupbuys_ListParticipants_def groupbuys_ListExpiringBefore_def
      readonly_query split: prod.splits)

lemma join_read_readonly [store_rules]: "readonly (join_read i q)"
  unfolding join_read_def by (intro store_rules)

lemma JoinAtomic_all_or_nothing [store_rules]: "all_or_nothing (groupbuys_JoinAtomic i u q)"
  unfolding groupbuys_JoinAtomic_def Let_def by (intro store_rules)

lemma groupbuys_Get_returns [returns]:
  "groupbuys_Get i w = (Inr g, w') \<longleftrightarrow>
     \<not> outage w (stmts w) \<and> row_by gb_ID i (group_buys (store w)) = Some g \<and>
     w' = w\<lparr>readings := Suc (readings w), stmts := Suc (stmts w)\<rparr>"
  by (auto simp: groupbuys_Get_def query_returns split: option.splits)


text \<open>What the writing half of a join does when it succeeds.\<close>

definition joined :: "uuid \<Rightarrow> int \<Rightarrow> int \<Rightarrow> time \<Rightarrow> group_buy_participant \<Rightarrow> db \<Rightarrow> db" where
  "joined gbID qty version t p d = d\<lparr>
     group_buys := update_where (slots_free gbID qty version) (take_slots qty t) (group_buys d),
     participants := participants d @ [p]\<rparr>"

lemma join_write_returns:
  assumes "join_write gbID u qty (g0, t0) w = (Inr (g', p), w')"
  shows "\<exists>g t. g \<in> set (group_buys (store w)) \<and> slots_free gbID qty (gb_Version g0) g \<and>
    g' = take_slots qty t g \<and> p_GroupBuyID p = gbID \<and> p_UserID p = u \<and> p_Quantity p = qty \<and> 0 < qty \<and>
    participant_unique (store w) p \<and> u \<in> u_ID ` set (users (store w)) \<and>
    store w' = joined gbID qty (gb_Version g0) t p (store w)"
  using assms
  by (auto simp: join_write_def join_decrement_def participant_insert_def returns Let_def joined_def
      references_def participant_unique_def split: option.splits if_splits dest!: find_Some_set)

lemma take_slots_simps [simp]:
  "gb_ID (take_slots q t g) = gb_ID g" "gb_Capacity (take_slots q t g) = gb_Capacity g"
  "gb_RemainingSlots (take_slots q t g) = gb_RemainingSlots g - q"
  "gb_Version (take_slots q t g) = gb_Version g + 1" "gb_Threshold (take_slots q t g) = gb_Threshold g"
  "gb_Status (take_slots q t g) =
     (if gb_Capacity g - (gb_RemainingSlots g - q) \<ge> gb_Threshold g then GroupBuyMet else gb_Status g)"
  by (simp_all add: take_slots_def)

lemma ledger_row_cong:
  "seats_of (gb_ID g) ps = seats_of (gb_ID g) ps' \<Longrightarrow> ledger_row ps g = ledger_row ps' g"
  by (simp add: ledger_row_def)

text \<open>
  A join keeps the ledger provided no failed group buy still carries the version it read. The
  snapshot of a join that is under way must therefore stay \<open>fresh_snapshot\<close>.
\<close>

definition fresh_snapshot :: "uuid \<Rightarrow> int \<Rightarrow> db \<Rightarrow> bool" where
  "fresh_snapshot gbID version d \<longleftrightarrow> (\<forall>g \<in> set (group_buys d). gb_ID g = gbID \<longrightarrow>
     version \<le> gb_Version g \<and> (gb_Version g = version \<longrightarrow> gb_Status g \<noteq> GroupBuyFailed))"

lemma ledger_joined:
  assumes inv: "ledger_inv d" and g: "g \<in> set (group_buys d)" "slots_free gbID qty v g"
    and p: "p_GroupBuyID p = gbID" "p_Quantity p = qty" "0 < qty" "participant_unique d p"
    and fresh: "fresh_snapshot gbID v d"
  shows "ledger_inv (joined gbID qty v t p d)"
proof -
  let ?f = "\<lambda>x. if slots_free gbID qty v x then take_slots qty t x else x"
  have row: "ledger_row (participants d @ [p]) (?f x)" if x: "x \<in> set (group_buys d)" for x
  proof (cases "gb_ID x = gbID")
    case True
    then have "x = g" using inv g x by (auto simp: ledger_inv_def slots_free_def dest: distinct_keys_inj)
    moreover have "ledger_row (participants d) x" using inv x by (simp add: ledger_inv_def)
    moreover have "gb_Status x \<noteq> GroupBuyFailed"
      using fresh x True g \<open>x = g\<close> by (auto simp: fresh_snapshot_def slots_free_def)
    ultimately show ?thesis using g p True by (auto simp: ledger_row_def Confirmed_def slots_free_def)
  next
    case False
    then have "ledger_row (participants d) x" and "\<not> slots_free gbID qty v x"
      using inv x by (auto simp: ledger_inv_def slots_free_def)
    then show ?thesis using False p by (simp add: ledger_row_cong [where ps = "participants d @ [p]" and ps' = "participants d"])
  qed
  have ids: "gb_ID ` set (update_where (slots_free gbID qty v) (take_slots qty t) (group_buys d)) = gb_ID ` set (group_buys d)"
    by (rule keys_update) simp
  have "gbID \<in> gb_ID ` set (group_buys d)" using g by (auto simp: slots_free_def)
  then show ?thesis
    using inv row p
    by (simp add: ledger_inv_def joined_def ids distinct_keys_update distinct_keys_append ball_update_where
        participant_unique_def fresh_key_iff)
qed

lemma ledger_join_write:
  assumes "ledger_inv (store w)" and "fresh_snapshot gbID (gb_Version g0) (store w)"
    and "transaction (join_write gbID u qty (g0, t0)) w = (r, w')"
  shows "ledger_inv (store w')"
proof (cases r)
  case (Inl e)
  with assms(3) have "store w' = store w" by (auto dest: all_or_nothingD [OF all_or_nothing_transaction])
  with assms(1) show ?thesis by simp
next
  case (Inr x)
  obtain g' p where x: "x = (g', p)" by (cases x)
  obtain w1 w2 where run: "join_write gbID u qty (g0, t0) w1 = (Inr (g', p), w2)"
    and st: "store w1 = store w" "store w' = store w2"
    using assms(3) unfolding Inr x by (rule transaction_runs)
  with join_write_returns [OF run] assms(1,2) show ?thesis
    by (auto intro: ledger_joined)
qed

lemma ledger_update:
  assumes "ledger_inv d" and "\<And>g. p g \<Longrightarrow> gb_ID (f g) = gb_ID g"
    and "\<And>g. g \<in> set (group_buys d) \<Longrightarrow> p g \<Longrightarrow> ledger_row (participants d) (f g)"
  shows "ledger_inv (d\<lparr>group_buys := update_where p f (group_buys d)\<rparr>)"
  using assms by (auto simp: ledger_inv_def distinct_keys_update keys_update ball_update_where)

text \<open>Releasing the slots of a failed group buy, and a status set to anything but failed.\<close>

lemma ledger_release:
  "ledger_inv d \<Longrightarrow> ledger_inv (d\<lparr>group_buys := update_where due (release_slots t) (group_buys d)\<rparr>)"
  by (rule ledger_update) (auto simp: release_slots_def ledger_row_def ledger_inv_def)

lemma MarkFailed_ledger [store_rules]: "preserves ledger_inv (groupbuys_MarkFailedAndReleaseSlots i)"
  unfolding groupbuys_MarkFailedAndReleaseSlots_def Let_def
  by (intro store_rules preserves_sql) (auto split: if_splits intro: ledger_release)

definition not_failed :: "uuid \<Rightarrow> db \<Rightarrow> bool" where
  "not_failed i d \<longleftrightarrow> (\<forall>g \<in> set (group_buys d). gb_ID g = i \<longrightarrow> gb_Status g \<noteq> GroupBuyFailed)"

lemma ledger_status:
  assumes "ledger_inv d" and "not_failed i d" and "st \<noteq> GroupBuyFailed"
  shows "ledger_inv (d\<lparr>group_buys := update_where (\<lambda>g. gb_ID g = i)
           (\<lambda>g. g\<lparr>gb_Status := st, gb_UpdatedAt := t\<rparr>) (group_buys d)\<rparr>)"
  using assms
  by (intro ledger_update) (auto simp: ledger_inv_def ledger_row_def not_failed_def Confirmed_def)

lemma ledger_create:
  assumes "ledger_inv d" and "group_buy_insertable d g" and "gb_RemainingSlots g = gb_Capacity g"
    and "gb_Status g \<noteq> GroupBuyFailed"
  shows "ledger_inv (d\<lparr>group_buys := group_buys d @ [g]\<rparr>)"
proof -
  have "gb_ID g \<notin> gb_ID ` set (group_buys d)"
    using assms(2) by (simp add: group_buy_insertable_def fresh_key_def)
  then have "\<And>p. p \<in> set (participants d) \<Longrightarrow> p_GroupBuyID p \<noteq> gb_ID g"
    using assms(1) unfolding ledger_inv_def by metis
  then have "seats_of (gb_ID g) (participants d) = 0"
    unfolding seats_of_def by (intro sum_where_none) auto
  then show ?thesis
    using assms
    by (auto simp: ledger_inv_def distinct_keys_append group_buy_insertable_def fresh_key_iff ledger_row_def Confirmed_def)
qed

end
