(* ===== verification/Group_Buy_Service.thy ===== *)
theory Group_Buy_Service
  imports GroupBuys
begin

text \<open>
  \<open>service/groupbuy.go\<close>: creating a group buy with the policy defaults, joining with retries, the
  progress report, and the sweep that closes group buys at their deadline. The service holds its
  repository behind an interface; \<open>join_loop\<close> takes the operation it calls as an argument, and the
  locale \<open>join_store\<close> states what the retry loop needs of it.
\<close>

definition DefaultThreshold :: int where
  "DefaultThreshold = 5"

definition DefaultDeadline :: duration where
  "DefaultDeadline = 24 * hour"

record create_group_buy_input =
  cg_OrganizerID :: uuid
  cg_ResourceID :: uuid
  cg_Title :: string
  cg_Description :: string
  cg_Threshold :: int
  cg_Capacity :: int
  cg_StartsAt :: time
  cg_EndsAt :: time
  cg_Deadline :: "time option"

definition default_deadline :: "create_group_buy_input \<Rightarrow> time \<Rightarrow> time" where
  "default_deadline inp t =
     (case cg_Deadline inp of
        Some d \<Rightarrow> d
      | None \<Rightarrow> let d = t + DefaultDeadline in if d > cg_StartsAt inp then cg_StartsAt inp else d)"

definition GroupBuyService_Create :: "create_group_buy_input \<Rightarrow> group_buy action" where
  "GroupBuyService_Create inp =
     bindE now (\<lambda>t.
     bindE (users_GetByID (cg_OrganizerID inp)) (\<lambda>user.
     if u_IsBlacklisted user then fail ErrBlacklisted else
     bindE (resources_Get (cg_ResourceID inp)) (\<lambda>_.
     let threshold = (if cg_Threshold inp \<le> 0 then DefaultThreshold else cg_Threshold inp);
         g = \<lparr>gb_ID = uuid_nil, gb_ResourceID = cg_ResourceID inp, gb_OrganizerID = Some (cg_OrganizerID inp),
              gb_Title = cg_Title inp, gb_Description = cg_Description inp, gb_Threshold = threshold,
              gb_Capacity = cg_Capacity inp, gb_RemainingSlots = 0, gb_StartsAt = cg_StartsAt inp,
              gb_EndsAt = cg_EndsAt inp, gb_Deadline = default_deadline inp t, gb_Status = GroupBuyOpen,
              gb_Version = 0, gb_CreatedAt = zero_time, gb_UpdatedAt = zero_time\<rparr> in
     case GroupBuy_Validate g t of Inl e \<Rightarrow> fail e | Inr _ \<Rightarrow> groupbuys_Create (Some GroupBuyOpen) g)))"

text \<open>The notifications' texts; \<open>pr\<close> says which runes are printable.\<close>

definition group_buy_message :: "(rune \<Rightarrow> bool) \<Rightarrow> group_buy \<Rightarrow> string \<Rightarrow> string" where
  "group_buy_message pr g tail = ''Group buy '' @ go_quote pr (gb_Title g) @ tail"

definition notifyOrganizerProgress :: "(rune \<Rightarrow> bool) \<Rightarrow> group_buy \<Rightarrow> unit action" where
  "notifyOrganizerProgress pr g =
     (if \<not> ThresholdMet g then ret ()
      else if gb_Status g \<noteq> GroupBuyMet then ret ()
      else case gb_OrganizerID g of
        None \<Rightarrow> ret ()
      | Some u \<Rightarrow> ignoring (notifications_CreateNotification
          (new_notification u ''group_buy_threshold_met'' (group_buy_message pr g '' reached its threshold'')
            (go_decimal (Confirmed g) @ '' / '' @ go_decimal (gb_Threshold g) @ '' seats confirmed.'')))
          (ret ()))"

text \<open>\<open>for attempt := 1; attempt <= maxRetries\<close>, counting the attempts that are left.\<close>

definition maxRetries :: nat where
  "maxRetries = 3"

type_synonym join_op = "uuid \<Rightarrow> uuid \<Rightarrow> int \<Rightarrow> (group_buy \<times> group_buy_participant) action"

fun join_loop ::
  "join_op \<Rightarrow> (rune \<Rightarrow> bool) \<Rightarrow> uuid \<Rightarrow> uuid \<Rightarrow> int \<Rightarrow> nat \<Rightarrow> (group_buy \<times> group_buy_participant) action" where
  "join_loop join pr gbID u qty 0 = fail OtherError"
| "join_loop join pr gbID u qty (Suc left) =
     attempt (join gbID u qty) (\<lambda>r.
       case r of
         Inr (gb, part) \<Rightarrow> ignoring (notifyOrganizerProgress pr gb) (ret (gb, part))
       | Inl e \<Rightarrow> if e = ErrOptimisticLock \<and> 0 < left then join_loop join pr gbID u qty left else fail e)"

definition GroupBuyService_Join ::
  "(rune \<Rightarrow> bool) \<Rightarrow> uuid \<Rightarrow> uuid \<Rightarrow> int \<Rightarrow> (group_buy \<times> group_buy_participant) action" where
  "GroupBuyService_Join pr gbID u qty =
     bindE (users_GetByID u) (\<lambda>user.
     if u_IsBlacklisted user then fail ErrBlacklisted
     else join_loop groupbuys_JoinAtomic pr gbID u qty maxRetries)"

definition GroupBuyService_Get :: "uuid \<Rightarrow> group_buy action" where
  "GroupBuyService_Get i = groupbuys_Get i"

definition GroupBuyService_Participants :: "uuid \<Rightarrow> group_buy_participant list action" where
  "GroupBuyService_Participants i = groupbuys_ListParticipants i"

definition GroupBuyService_List :: "int \<Rightarrow> int \<Rightarrow> group_buy list action" where
  "GroupBuyService_List limit offset = groupbuys_List limit offset"

record progress =
  pg_GroupBuyID :: uuid
  pg_Threshold :: int
  pg_Confirmed :: int
  pg_RemainingSlots :: int
  pg_Capacity :: int
  pg_Ratio :: rat
  pg_ThresholdMet :: bool
  pg_Deadline :: time
  pg_SecondsLeft :: int
  pg_Status :: string

definition GroupBuyService_Progress :: "uuid \<Rightarrow> progress action" where
  "GroupBuyService_Progress i =
     bindE (groupbuys_Get i) (\<lambda>g.
     bindE now (\<lambda>t.
     let left = gb_Deadline g - t in
     ret \<lparr>pg_GroupBuyID = gb_ID g, pg_Threshold = gb_Threshold g, pg_Confirmed = Confirmed g,
          pg_RemainingSlots = gb_RemainingSlots g, pg_Capacity = gb_Capacity g,
          pg_Ratio = GroupBuy_Progress g, pg_ThresholdMet = ThresholdMet g, pg_Deadline = gb_Deadline g,
          pg_SecondsLeft = (if left < 0 then 0 else left div second),
          pg_Status = group_buy_status_text (gb_Status g)\<rparr>))"

definition sweep_target :: "group_buy \<Rightarrow> group_buy_status" where
  "sweep_target g =
     (if ThresholdMet g then GroupBuyFinalized
      else if Confirmed g > 0 then GroupBuyFailed
      else GroupBuyExpired)"

definition sweep_notice :: "(rune \<Rightarrow> bool) \<Rightarrow> group_buy \<Rightarrow> uuid \<Rightarrow> notification" where
  "sweep_notice pr g u =
     (let target = group_buy_status_text (sweep_target g) in
      new_notification u (''group_buy_'' @ target) (group_buy_message pr g ('' '' @ target))
        (go_decimal (Confirmed g) @ '' / '' @ go_decimal (gb_Threshold g) @ '' confirmed at deadline.''))"

definition sweep_one :: "(rune \<Rightarrow> bool) \<Rightarrow> group_buy \<Rightarrow> unit action" where
  "sweep_one pr g =
     (let target = sweep_target g in
      bindE (if target = GroupBuyFailed then groupbuys_MarkFailedAndReleaseSlots (gb_ID g)
             else groupbuys_UpdateStatus (gb_ID g) target) (\<lambda>_.
      case gb_OrganizerID g of
        None \<Rightarrow> ret ()
      | Some u \<Rightarrow> ignoring (notifications_CreateNotification (sweep_notice pr g u)) (ret ())))"

definition GroupBuyService_SweepExpired :: "(rune \<Rightarrow> bool) \<Rightarrow> unit action" where
  "GroupBuyService_SweepExpired pr =
     bindE now (\<lambda>t. bindE (groupbuys_ListExpiringBefore t) (for_each (sweep_one pr)))"

section \<open>The interface the retry loop relies on\<close>

text \<open>A store invariant that looks at group buys and participants only.\<close>

definition gb_view :: "db \<Rightarrow> group_buy list \<times> group_buy_participant list" where
  "gb_view d = (group_buys d, participants d)"

lemma blind_gb_view: "blind_to_notifications (\<lambda>d. gb_view d = v)"
  by (simp add: blind_to_notifications_def gb_view_def)

lemma notify_gb_view:
  assumes "notifyOrganizerProgress pr g w = (r, w')"
  shows "gb_view (store w') = gb_view (store w)"
proof -
  have "preserves (\<lambda>d. gb_view d = gb_view (store w)) (notifyOrganizerProgress pr g)"
    unfolding notifyOrganizerProgress_def
    by (intro store_rules notification_writes_preserve blind_gb_view)
  then show ?thesis using preservesD assms by fastforce
qed

locale join_store =
  fixes join :: join_op
  assumes join_atomic: "all_or_nothing (join i u q)"
    and join_adds: "join i u q w = (Inr (g, p), w') \<Longrightarrow>
      participants (store w') = participants (store w) @ [p] \<and>
      p_GroupBuyID p = i \<and> p_UserID p = u \<and> p_Quantity p = join_quantity q"
    and join_oracles: "keeps_oracles (join i u q)"
begin

text \<open>An error of the loop has changed nothing, however many attempts it made.\<close>

lemma join_loop_fails: "join_loop join pr i u q n w = (Inl e, w') \<Longrightarrow> store w' = store w"
proof (induction n arbitrary: w)
  case 0
  then show ?case by (simp add: fail_def)
next
  case (Suc n)
  obtain r w1 where r: "join i u q w = (r, w1)" by (cases "join i u q w")
  show ?case
  proof (cases r)
    case (Inl e')
    then have "store w1 = store w" using r by (auto dest: all_or_nothingD [OF join_atomic])
    then show ?thesis
      using Suc.IH [of w1] Suc.prems r Inl by (auto simp: attempt_def fail_def split: if_splits)
  next
    case (Inr x)
    then show ?thesis using Suc.prems r by (auto simp: attempt_def ret_def ignoring_def split: prod.splits)
  qed
qed

text \<open>A success rests on exactly one join, made on the store the loop started from.\<close>

lemma join_loop_succeeds:
  "join_loop join pr i u q n w = (Inr (g, p), w') \<Longrightarrow>
   \<exists>w1 w2. store w1 = store w \<and> clock w1 = clock w \<and> join i u q w1 = (Inr (g, p), w2) \<and>
     gb_view (store w') = gb_view (store w2)"
proof (induction n arbitrary: w)
  case 0
  then show ?case by (simp add: fail_def)
next
  case (Suc n)
  from Suc.prems obtain r w1 where r: "join i u q w = (r, w1)"
    and k: "(case r of Inr (gb, part) \<Rightarrow> ignoring (notifyOrganizerProgress pr gb) (ret (gb, part))
       | Inl e \<Rightarrow> if e = ErrOptimisticLock \<and> 0 < n then join_loop join pr i u q n else fail e) w1 = (Inr (g, p), w')"
    by (auto simp: attempt_returns)
  show ?case
  proof (cases r)
    case (Inl e)
    then have "store w1 = store w" using r by (auto dest: all_or_nothingD [OF join_atomic])
    moreover have "join_loop join pr i u q n w1 = (Inr (g, p), w')"
      using k Inl by (auto simp: fail_def split: if_splits)
    moreover have "clock w1 = clock w" using keeps_oraclesD [OF join_oracles r] by simp
    ultimately show ?thesis using Suc.IH by metis
  next
    case (Inr x)
    then have "r = Inr (g, p)" and "\<exists>r'. notifyOrganizerProgress pr g w1 = (r', w')"
      using k by (auto simp: returns split: prod.splits)
    then show ?thesis using r notify_gb_view by blast
  qed
qed

lemma join_loop_adds_one:
  assumes "join_loop join pr i u q n w = (Inr (g, p), w')"
  shows "participants (store w') = participants (store w) @ [p] \<and>
    p_GroupBuyID p = i \<and> p_UserID p = u \<and> p_Quantity p = join_quantity q"
proof -
  obtain w1 w2 where "store w1 = store w" "join i u q w1 = (Inr (g, p), w2)"
    "gb_view (store w') = gb_view (store w2)"
    using join_loop_succeeds [OF assms] by blast
  with join_adds [OF this(2)] show ?thesis by (simp add: gb_view_def)
qed

end

lemma JoinAtomic_returns:
  assumes "groupbuys_JoinAtomic i u q w = (Inr (g', p), w')"
  shows "\<exists>g t t'. row_by gb_ID i (group_buys (store w)) = Some g \<and> joinable (gb_Status g) \<and>
    gb_Deadline g > t \<and> (\<exists>n. t = clock w n) \<and> join_quantity q \<le> gb_RemainingSlots g \<and>
    participant_unique (store w) p \<and> u \<in> u_ID ` set (users (store w)) \<and>
    p_GroupBuyID p = i \<and> p_UserID p = u \<and> p_Quantity p = join_quantity q \<and>
    store w' = joined i (join_quantity q) (gb_Version g) t' p (store w) \<and>
    (\<exists>x \<in> set (group_buys (store w)). slots_free i (join_quantity q) (gb_Version g) x \<and>
       g' = take_slots (join_quantity q) t' x)"
proof -
  from assms obtain w1 w2 w3 g t where
    pre: "store w1 = store w" "clock w1 = clock w" and
    rd: "join_read i (join_quantity q) w1 = (Inr (g, t), w2)" and
    wr: "join_write i u (join_quantity q) (g, t) w2 = (Inr (g', p), w3)" and st: "store w' = store w3"
    unfolding groupbuys_JoinAtomic_def Let_def
    by (elim transaction_runs) (auto simp: bindE_returns)
  have st2: "store w2 = store w" using readonlyD [OF join_read_readonly rd] pre by simp
  have "row_by gb_ID i (group_buys (store w)) = Some g" "joinable (gb_Status g)" "gb_Deadline g > t"
    "\<exists>n. t = clock w n" "join_quantity q \<le> gb_RemainingSlots g"
    using rd pre by (auto simp: join_read_def returns)
  then show ?thesis
    using join_write_returns [OF wr] st st2 by auto
qed

lemma JoinAtomic_oracles [oracle_rules]: "keeps_oracles (groupbuys_JoinAtomic i u q)"
  unfolding groupbuys_JoinAtomic_def join_read_def join_write_def groupbuys_Get_def join_decrement_def
    participant_insert_def Let_def
  by (intro oracle_rules)

interpretation repo: join_store groupbuys_JoinAtomic
proof unfold_locales
  show "all_or_nothing (groupbuys_JoinAtomic i u q)" for i u q
    by (rule JoinAtomic_all_or_nothing)
  show "participants (store w') = participants (store w) @ [p] \<and>
      p_GroupBuyID p = i \<and> p_UserID p = u \<and> p_Quantity p = join_quantity q"
    if "groupbuys_JoinAtomic i u q w = (Inr (g, p), w')" for i u q w g p w'
    using JoinAtomic_returns [OF that] by (auto simp: joined_def)
  show "keeps_oracles (groupbuys_JoinAtomic i u q)" for i u q
    by (rule JoinAtomic_oracles)
qed

text \<open>In a ledger that is in order the update meets the one row the join has read.\<close>

lemma JoinAtomic_ledger:
  assumes inv: "ledger_inv (store w)" and run: "groupbuys_JoinAtomic i u q w = (Inr (g', p), w')"
  shows "\<exists>g n t'. row_by gb_ID i (group_buys (store w)) = Some g \<and> joinable (gb_Status g) \<and>
    clock w n < gb_Deadline g \<and> join_quantity q \<le> gb_RemainingSlots g \<and> participant_unique (store w) p \<and>
    p_GroupBuyID p = i \<and> p_UserID p = u \<and> p_Quantity p = join_quantity q \<and>
    g' = take_slots (join_quantity q) t' g \<and>
    participants (store w') = participants (store w) @ [p] \<and>
    group_buys (store w') = update_where (\<lambda>x. gb_ID x = i) (\<lambda>_. g') (group_buys (store w)) \<and>
    ledger_inv (store w')"
proof -
  obtain g n t' x where
    g: "row_by gb_ID i (group_buys (store w)) = Some g" "joinable (gb_Status g)" "clock w n < gb_Deadline g"
      "join_quantity q \<le> gb_RemainingSlots g" and
    p: "participant_unique (store w) p" "p_GroupBuyID p = i" "p_UserID p = u" "p_Quantity p = join_quantity q" and
    st: "store w' = joined i (join_quantity q) (gb_Version g) t' p (store w)" and
    x: "x \<in> set (group_buys (store w))" "slots_free i (join_quantity q) (gb_Version g) x"
      "g' = take_slots (join_quantity q) t' x"
    using JoinAtomic_returns [OF run] by blast
  have keys: "distinct_keys gb_ID (group_buys (store w))" using inv by (simp add: ledger_inv_def)
  have only: "y = g" if "y \<in> set (group_buys (store w))" "gb_ID y = i" for y
    using g(1) keys that by (auto simp: row_by_eq_iff dest: distinct_keys_inj)
  have "x = g" using x only by (auto simp: slots_free_def)
  have "update_where (slots_free i (join_quantity q) (gb_Version g)) (take_slots (join_quantity q) t') (group_buys (store w))
      = update_where (\<lambda>x. gb_ID x = i) (\<lambda>_. g') (group_buys (store w))"
  proof (rule update_where_cong)
    fix y
    assume "y \<in> set (group_buys (store w))"
    then show "slots_free i (join_quantity q) (gb_Version g) y = (gb_ID y = i)"
      using only [of y] x(2) \<open>x = g\<close> by (cases "gb_ID y = i") (simp_all add: slots_free_def)
    assume "slots_free i (join_quantity q) (gb_Version g) y"
    then have "y = g" using only [of y] \<open>y \<in> set (group_buys (store w))\<close> by (simp add: slots_free_def)
    then show "take_slots (join_quantity q) t' y = g'" using x(3) \<open>x = g\<close> by simp
  qed
  moreover have "fresh_snapshot i (gb_Version g) (store w)"
    unfolding fresh_snapshot_def
  proof (intro ballI impI)
    fix y
    assume "y \<in> set (group_buys (store w))" "gb_ID y = i"
    then have "y = g" by (rule only)
    then show "gb_Version g \<le> gb_Version y \<and> (gb_Version y = gb_Version g \<longrightarrow> gb_Status y \<noteq> GroupBuyFailed)"
      using g(2) by (auto simp: joinable_def)
  qed
  then have "ledger_inv (store w')"
    unfolding st using inv x p by (intro ledger_joined) (auto simp: join_quantity_def)
  moreover have "participants (store w') = participants (store w) @ [p]"
    and "group_buys (store w') = update_where (slots_free i (join_quantity q) (gb_Version g))
      (take_slots (join_quantity q) t') (group_buys (store w))"
    by (simp_all add: st joined_def)
  moreover have "g' = take_slots (join_quantity q) t' g"
    using x(3) \<open>x = g\<close> by simp
  ultimately show ?thesis
    using g p by (intro exI [of _ g] exI [of _ n] exI [of _ t'] conjI) (assumption | simp only:)+
qed


section \<open>The sweep\<close>

text \<open>What the sweep makes of a row, the timestamp aside.\<close>

definition closed_row :: "time \<Rightarrow> group_buy \<Rightarrow> group_buy" where
  "closed_row t g =
     (if sweep_target g = GroupBuyFailed then release_slots t g
      else g\<lparr>gb_Status := sweep_target g, gb_UpdatedAt := t\<rparr>)"

definition undated :: "group_buy \<Rightarrow> group_buy" where
  "undated g = g\<lparr>gb_UpdatedAt := 0\<rparr>"

lemma closed_row_ID [simp]: "gb_ID (closed_row t g) = gb_ID g"
  by (simp add: closed_row_def release_slots_def)

lemma undated_closed_row: "undated (closed_row t g) = undated (closed_row 0 g)"
  by (simp add: undated_def closed_row_def release_slots_def)

lemma closed_row_cases:
  "undated (closed_row 0 g) = undated
     (if Confirmed g \<ge> gb_Threshold g then g\<lparr>gb_Status := GroupBuyFinalized\<rparr>
      else if Confirmed g > 0 then
        g\<lparr>gb_Status := GroupBuyFailed, gb_RemainingSlots := gb_Capacity g, gb_Version := gb_Version g + 1\<rparr>
      else g\<lparr>gb_Status := GroupBuyExpired\<rparr>)"
  by (simp add: closed_row_def sweep_target_def ThresholdMet_def release_slots_def undated_def)

lemma notification_gb_view:
  assumes "notifications_CreateNotification n w = (r, w')"
  shows "gb_view (store w') = gb_view (store w)"
  using preservesD [OF notification_writes_preserve(1) [OF blind_gb_view [of "gb_view (store w)"]] assms] by simp

lemma sweep_one_calm:
  assumes "calm w" and g: "g \<in> set (group_buys (store w))" and keys: "distinct_keys gb_ID (group_buys (store w))"
    and open_met: "gb_Status g \<in> {GroupBuyOpen, GroupBuyMet}"
  shows "\<exists>t w'. sweep_one pr g w = (Inr (), w') \<and> calm w' \<and> clock w' = clock w \<and>
    participants (store w') = participants (store w) \<and>
    group_buys (store w') = update_where (\<lambda>x. gb_ID x = gb_ID g) (closed_row t) (group_buys (store w))"
proof -
  have only: "x = g" if "x \<in> set (group_buys (store w))" "gb_ID x = gb_ID g" for x
    using distinct_keys_inj [OF keys] g that by metis
  define t where "t = clock w (readings w + (if sweep_target g = GroupBuyFailed then 1 else 0))"
  define act where "act = (if sweep_target g = GroupBuyFailed then groupbuys_MarkFailedAndReleaseSlots (gb_ID g)
      else groupbuys_UpdateStatus (gb_ID g) (sweep_target g))"
  have "\<exists>w1. act w = (Inr (), w1) \<and> calm w1 \<and> clock w1 = clock w \<and> participants (store w1) = participants (store w) \<and>
    group_buys (store w1) = update_where (\<lambda>x. gb_ID x = gb_ID g) (closed_row t) (group_buys (store w))"
  proof (cases "sweep_target g = GroupBuyFailed")
    case True
    have "update_where (\<lambda>x. gb_ID x = gb_ID g \<and> gb_Status x \<in> {GroupBuyOpen, GroupBuyMet}) (release_slots t)
        (group_buys (store w)) = update_where (\<lambda>x. gb_ID x = gb_ID g) (closed_row t) (group_buys (store w))"
      using only open_met True by (intro update_where_cong) (auto simp: closed_row_def)
    moreover have "matches (\<lambda>x. gb_ID x = gb_ID g \<and> gb_Status x \<in> {GroupBuyOpen, GroupBuyMet}) (group_buys (store w)) \<noteq> 0"
      using g open_met by auto
    ultimately show ?thesis
      using True assms(1)
      by (simp add: act_def groupbuys_MarkFailedAndReleaseSlots_def transaction_def Let_def sql_calm bindE_run ret_def t_def
          del: matches_0)
  next
    case False
    have "update_where (\<lambda>x. gb_ID x = gb_ID g) (\<lambda>x. x\<lparr>gb_Status := sweep_target g, gb_UpdatedAt := t\<rparr>)
        (group_buys (store w)) = update_where (\<lambda>x. gb_ID x = gb_ID g) (closed_row t) (group_buys (store w))"
      using only False by (intro update_where_cong) (auto simp: closed_row_def)
    moreover have "matches (\<lambda>x. gb_ID x = gb_ID g) (group_buys (store w)) \<noteq> 0"
      using g by auto
    ultimately show ?thesis
      using False assms(1)
      by (simp add: act_def groupbuys_UpdateStatus_def sql_calm t_def del: matches_0)
  qed
  then obtain w1 where w1: "act w = (Inr (), w1)" "calm w1" "clock w1 = clock w"
    "participants (store w1) = participants (store w)"
    "group_buys (store w1) = update_where (\<lambda>x. gb_ID x = gb_ID g) (closed_row t) (group_buys (store w))"
    by blast
  have "\<exists>w2. sweep_one pr g w = (Inr (), w2) \<and> calm w2 \<and> clock w2 = clock w1 \<and> gb_view (store w2) = gb_view (store w1)"
  proof (cases "gb_OrganizerID g")
    case None
    then show ?thesis using w1 by (simp add: sweep_one_def Let_def act_def [symmetric] bindE_run ret_def)
  next
    case (Some u)
    obtain r w2 where n: "notifications_CreateNotification (sweep_notice pr g u) w1 = (r, w2)"
      by (cases "notifications_CreateNotification (sweep_notice pr g u) w1")
    have "sweep_one pr g w = (Inr (), w2)"
      using w1(1) n Some
      by (simp add: sweep_one_def Let_def act_def [symmetric] bindE_run ignoring_def attempt_def ret_def)
    then show ?thesis
      using notification_gb_view [OF n] keeps_oraclesD [OF notification_oracles(1) n] w1(2)
      by (auto simp: calm_def)
  qed
  then show ?thesis using w1 by (auto simp: gb_view_def)
qed


definition swept :: "group_buy list \<Rightarrow> group_buy \<Rightarrow> group_buy" where
  "swept gs x = (if gb_ID x \<in> gb_ID ` set gs then closed_row 0 x else x)"

lemma sweep_all_calm:
  "calm w \<Longrightarrow> set gs \<subseteq> set (group_buys (store w)) \<Longrightarrow> distinct_keys gb_ID (group_buys (store w)) \<Longrightarrow>
   distinct_keys gb_ID gs \<Longrightarrow> (\<And>g. g \<in> set gs \<Longrightarrow> gb_Status g \<in> {GroupBuyOpen, GroupBuyMet}) \<Longrightarrow>
   \<exists>w'. for_each (sweep_one pr) gs w = (Inr (), w') \<and> participants (store w') = participants (store w) \<and>
     map undated (group_buys (store w')) = map (undated \<circ> swept gs) (group_buys (store w))"
proof (induction gs arbitrary: w)
  case Nil
  then show ?case by (auto simp: ret_def swept_def)
next
  case (Cons g gs)
  from Cons.prems have "g \<in> set (group_buys (store w))" "gb_Status g \<in> {GroupBuyOpen, GroupBuyMet}" by auto
  with sweep_one_calm [OF Cons.prems(1) _ Cons.prems(3)] obtain t w1 where
    w1: "sweep_one pr g w = (Inr (), w1)" "calm w1" "participants (store w1) = participants (store w)"
      "group_buys (store w1) = update_where (\<lambda>x. gb_ID x = gb_ID g) (closed_row t) (group_buys (store w))"
    by blast
  have other: "gb_ID x \<noteq> gb_ID g" if "x \<in> set gs" for x
    using Cons.prems(4) that by (simp add: distinct_keys_Cons)
  then have mine: "gb_ID g \<notin> gb_ID ` set gs" by force
  have "set gs \<subseteq> set (group_buys (store w1))"
    using Cons.prems(2) other by (force simp: w1 set_update_where image_iff)
  moreover have "distinct_keys gb_ID (group_buys (store w1))"
    using Cons.prems(3) by (simp add: w1 distinct_keys_update)
  ultimately obtain w' where w': "for_each (sweep_one pr) gs w1 = (Inr (), w')"
    "participants (store w') = participants (store w1)"
    "map undated (group_buys (store w')) = map (undated \<circ> swept gs) (group_buys (store w1))"
    using Cons.IH [of w1] Cons.prems(4,5) w1(2) by (auto simp: distinct_keys_def)
  have "(undated \<circ> swept gs) (if gb_ID x = gb_ID g then closed_row t x else x) = (undated \<circ> swept (g # gs)) x" for x
    using undated_closed_row [of t x] mine by (cases "gb_ID x = gb_ID g") (simp_all add: swept_def)
  then have "map (undated \<circ> swept gs) (group_buys (store w1)) = map (undated \<circ> swept (g # gs)) (group_buys (store w))"
    by (simp add: w1 update_where_def comp_def)
  then show ?case
    using w' w1 by (auto simp: ignoring_def attempt_def)
qed

section \<open>Properties\<close>

text \<open>
  C12. A group buy that \<open>Create\<close> accepts is sound: its organizer exists and is not blacklisted, its
  resource exists, its threshold (5 when none is given) lies between 1 and its capacity, its window is
  not empty, its deadline lies after the moment of creation and not after its start (24 hours from
  now, or the start if that is earlier, when none is given), and it is stored as one new open row with
  all seats free.
\<close>

theorem created_group_buy_is_sound:
  assumes "GroupBuyService_Create inp w = (Inr g, w')"
  shows "\<exists>t. t = clock w (readings w) \<and>
    (\<exists>u. row_by u_ID (cg_OrganizerID inp) (users (store w)) = Some u \<and> \<not> u_IsBlacklisted u) \<and>
    row_by r_ID (cg_ResourceID inp) (resources (store w)) \<noteq> None \<and>
    gb_Threshold g = (if cg_Threshold inp \<le> 0 then 5 else cg_Threshold inp) \<and>
    1 \<le> gb_Threshold g \<and> gb_Threshold g \<le> gb_Capacity g \<and> gb_StartsAt g < gb_EndsAt g \<and>
    t < gb_Deadline g \<and> gb_Deadline g \<le> gb_StartsAt g \<and>
    (cg_Deadline inp = None \<longrightarrow> gb_Deadline g = min (t + 24 * hour) (cg_StartsAt inp)) \<and>
    gb_Status g = GroupBuyOpen \<and> gb_RemainingSlots g = gb_Capacity g \<and> gb_Version g = 0 \<and>
    group_buys (store w') = group_buys (store w) @ [g] \<and> participants (store w') = participants (store w)"
proof -
  let ?t = "clock w (readings w)"
  define g0 where "g0 = \<lparr>gb_ID = uuid_nil, gb_ResourceID = cg_ResourceID inp,
      gb_OrganizerID = Some (cg_OrganizerID inp), gb_Title = cg_Title inp, gb_Description = cg_Description inp,
      gb_Threshold = (if cg_Threshold inp \<le> 0 then DefaultThreshold else cg_Threshold inp),
      gb_Capacity = cg_Capacity inp, gb_RemainingSlots = 0, gb_StartsAt = cg_StartsAt inp,
      gb_EndsAt = cg_EndsAt inp, gb_Deadline = default_deadline inp ?t, gb_Status = GroupBuyOpen,
      gb_Version = 0, gb_CreatedAt = zero_time, gb_UpdatedAt = zero_time\<rparr>"
  from assms obtain u w1 where
    u: "row_by u_ID (cg_OrganizerID inp) (users (store w)) = Some u" "\<not> u_IsBlacklisted u" and
    r: "row_by r_ID (cg_ResourceID inp) (resources (store w)) \<noteq> None" and
    v: "GroupBuy_Validate g0 ?t = Inr ()" and c: "groupbuys_Create (Some GroupBuyOpen) g0 w1 = (Inr g, w')" and
    st: "store w1 = store w"
    unfolding GroupBuyService_Create_def Let_def
    by (clarsimp simp: returns g0_def [symmetric] split: sum.splits)
  from c obtain i t where g: "g = g0\<lparr>gb_ID := i, gb_CreatedAt := t, gb_UpdatedAt := t,
      gb_RemainingSlots := gb_Capacity g0\<rparr>"
    and st': "store w' = store w1\<lparr>group_buys := group_buys (store w1) @ [g]\<rparr>"
    unfolding groupbuys_Create_def Let_def
    by (auto simp: returns g0_def split: if_splits)
  have "gb_Deadline g = default_deadline inp ?t" "gb_Threshold g = (if cg_Threshold inp \<le> 0 then 5 else cg_Threshold inp)"
    by (simp_all add: g g0_def DefaultThreshold_def)
  moreover have "1 \<le> gb_Threshold g" "gb_Threshold g \<le> gb_Capacity g" "gb_StartsAt g < gb_EndsAt g"
    "?t < gb_Deadline g" "gb_Deadline g \<le> gb_StartsAt g"
    using v by (auto simp: g GroupBuy_Validate_def split: if_splits)
  moreover have "gb_Status g = GroupBuyOpen" "gb_RemainingSlots g = gb_Capacity g" "gb_Version g = 0"
    by (simp_all add: g g0_def)
  ultimately show ?thesis
    using u r st st' by (auto simp: default_deadline_def DefaultDeadline_def Let_def)
qed


definition demo_group_buy_input :: create_group_buy_input where
  "demo_group_buy_input = \<lparr>cg_OrganizerID = 1, cg_ResourceID = 7, cg_Title = ''sail'', cg_Description = [],
     cg_Threshold = 0, cg_Capacity = 8, cg_StartsAt = 100 * hour, cg_EndsAt = 101 * hour, cg_Deadline = None\<rparr>"

definition demo_group_buy :: "int \<Rightarrow> group_buy" where
  "demo_group_buy remaining = \<lparr>gb_ID = 1000, gb_ResourceID = 7, gb_OrganizerID = Some 1, gb_Title = ''sail'',
     gb_Description = [], gb_Threshold = 5, gb_Capacity = 8, gb_RemainingSlots = remaining,
     gb_StartsAt = 100 * hour, gb_EndsAt = 101 * hour, gb_Deadline = 24 * hour, gb_Status = GroupBuyOpen,
     gb_Version = 0, gb_CreatedAt = 0, gb_UpdatedAt = 0\<rparr>"

definition sample_user :: "uuid \<Rightarrow> user" where
  "sample_user i = \<lparr>u_ID = i, u_Username = ''user'', u_PasswordHash = [], u_IsBlacklisted = False,
     u_BlacklistReason = [], u_IsAdmin = False, u_MustRotatePassword = False, u_AnonymizedAt = None,
     u_FailedAttempts = 0, u_LockedUntil = None, u_LastLoginAt = None, u_CreatedAt = 0, u_UpdatedAt = 0\<rparr>"

definition market :: "group_buy list \<Rightarrow> group_buy_participant list \<Rightarrow> db" where
  "market gs ps = empty_db\<lparr>users := [sample_user 1, sample_user 2],
     resources := [\<lparr>r_ID = 7, r_Name = ''boat'', r_Description = [], r_Capacity = 8, r_CreatedAt = 0\<rparr>],
     group_buys := gs, participants := ps\<rparr>"

lemmas market_defs = market_def sample_user_def demo_group_buy_def demo_group_buy_input_def demo_world_def empty_db_def

lemma demo_group_buy_created:
  "GroupBuyService_Create demo_group_buy_input (demo_world (market [] []) 0) =
     (Inr (demo_group_buy 8), (demo_world (market [demo_group_buy 8] []) 0)\<lparr>readings := 5, stmts := 3, minted := 1\<rparr>)"
  by (simp add: GroupBuyService_Create_def groupbuys_Create_def users_GetByID_def resources_Get_def row_by_def
      GroupBuy_Validate_def default_deadline_def DefaultDeadline_def DefaultThreshold_def group_buy_insertable_def
      references_def references_opt_def fresh_key_def int4_def market_defs run_defs)

theorem created_group_buy_is_sound_witness:
  "1 \<le> gb_Threshold (demo_group_buy 8) \<and> gb_Threshold (demo_group_buy 8) \<le> gb_Capacity (demo_group_buy 8) \<and>
   gb_Deadline (demo_group_buy 8) = 24 * hour"
  using created_group_buy_is_sound [OF demo_group_buy_created]
  by (auto simp: demo_group_buy_input_def demo_world_def)

text \<open>
  C9. A successful join is booked exactly once. It needs an existing user who is not blacklisted, an
  open or met group buy whose deadline is still ahead and which has enough seats left, and no earlier
  join of the same user; it adds one participant with the requested quantity (1 for a quantity that is
  not positive), takes exactly that many seats off that one group buy, raises its version by one, and
  marks it met exactly when its threshold is reached. However many attempts the retry loop made, no
  other row changes, and the ledger stays balanced.
\<close>

theorem join_is_booked_exactly_once:
  assumes "ledger_inv (store w)" and "GroupBuyService_Join pr i u q w = (Inr (g', p), w')"
  shows "\<exists>g n. row_by gb_ID i (group_buys (store w)) = Some g \<and>
    (\<exists>x. row_by u_ID u (users (store w)) = Some x \<and> \<not> u_IsBlacklisted x) \<and>
    gb_Status g \<in> {GroupBuyOpen, GroupBuyMet} \<and> clock w n < gb_Deadline g \<and>
    join_quantity q \<le> gb_RemainingSlots g \<and>
    (\<forall>p' \<in> set (participants (store w)). p_GroupBuyID p' = i \<longrightarrow> p_UserID p' \<noteq> u) \<and>
    p_GroupBuyID p = i \<and> p_UserID p = u \<and> p_Quantity p = join_quantity q \<and>
    participants (store w') = participants (store w) @ [p] \<and>
    group_buys (store w') = update_where (\<lambda>x. gb_ID x = i) (\<lambda>_. g') (group_buys (store w)) \<and>
    gb_RemainingSlots g' = gb_RemainingSlots g - join_quantity q \<and> gb_Version g' = gb_Version g + 1 \<and>
    gb_Status g' = (if Confirmed g' \<ge> gb_Threshold g then GroupBuyMet else gb_Status g) \<and>
    ledger_inv (store w')"
proof -
  from assms(2) obtain x w0 where x: "row_by u_ID u (users (store w)) = Some x" "\<not> u_IsBlacklisted x"
    and loop: "join_loop groupbuys_JoinAtomic pr i u q maxRetries w0 = (Inr (g', p), w')"
    and w0: "store w0 = store w" "clock w0 = clock w"
    by (auto simp: GroupBuyService_Join_def returns)
  from repo.join_loop_succeeds [OF loop] obtain w1 w2 where
    w1: "store w1 = store w" "clock w1 = clock w" and
    run: "groupbuys_JoinAtomic i u q w1 = (Inr (g', p), w2)" and
    view: "group_buys (store w') = group_buys (store w2)" "participants (store w') = participants (store w2)"
    unfolding w0 by (auto simp: gb_view_def)
  have inv: "ledger_inv (store w') = ledger_inv (store w2)"
    by (simp add: ledger_inv_def view)
  obtain g n t' where
    g: "row_by gb_ID i (group_buys (store w)) = Some g" "joinable (gb_Status g)" "clock w n < gb_Deadline g"
      "join_quantity q \<le> gb_RemainingSlots g" and
    p: "participant_unique (store w) p" "p_GroupBuyID p = i" "p_UserID p = u" "p_Quantity p = join_quantity q" and
    g': "g' = take_slots (join_quantity q) t' g" and
    st: "participants (store w') = participants (store w) @ [p]"
      "group_buys (store w') = update_where (\<lambda>x. gb_ID x = i) (\<lambda>_. g') (group_buys (store w))"
      "ledger_inv (store w')"
    using JoinAtomic_ledger [OF _ run] assms(1) unfolding w1 view inv by blast
  have "gb_Status g' = (if Confirmed g' \<ge> gb_Threshold g then GroupBuyMet else gb_Status g)"
    "gb_RemainingSlots g' = gb_RemainingSlots g - join_quantity q" "gb_Version g' = gb_Version g + 1"
    by (simp_all add: g' Confirmed_def)
  moreover have "gb_Status g \<in> {GroupBuyOpen, GroupBuyMet}" using g(2) by (auto simp: joinable_def)
  moreover have "\<forall>p' \<in> set (participants (store w)). p_GroupBuyID p' = i \<longrightarrow> p_UserID p' \<noteq> u"
    using p by (auto simp: participant_unique_def fresh_key_iff row_by_None)
  ultimately show ?thesis using x g p st by blast
qed


lemmas join_code = GroupBuyService_Join_def groupbuys_JoinAtomic_def join_read_def join_write_def
  join_decrement_def participant_insert_def groupbuys_Get_def users_GetByID_def notifyOrganizerProgress_def
  joinable_def join_quantity_def slots_free_def take_slots_def participant_unique_def row_by_def
  references_def fresh_key_def int4_def maxRetries_def ThresholdMet_def Confirmed_def

definition demo_participant :: "uuid \<Rightarrow> uuid \<Rightarrow> int \<Rightarrow> group_buy_participant" where
  "demo_participant i u qty = \<lparr>p_ID = i, p_GroupBuyID = 1000, p_UserID = u, p_Quantity = qty, p_JoinedAt = 0\<rparr>"

lemma demo_join:
  "GroupBuyService_Join pr 1000 2 3 (demo_world (market [demo_group_buy 8] []) 0) =
     (Inr ((demo_group_buy 5)\<lparr>gb_Version := 1\<rparr>, demo_participant 1000 2 3),
      (demo_world (market [(demo_group_buy 5)\<lparr>gb_Version := 1\<rparr>] [demo_participant 1000 2 3]) 0)
        \<lparr>readings := 7, stmts := 6, minted := 1\<rparr>)"
  by (simp add: join_code demo_participant_def market_defs eval_nat_numeral run_defs)

lemma market_ledger: "ledger_inv (market [demo_group_buy 8] [])"
  by (simp add: ledger_inv_def market_def distinct_keys_def ledger_row_def demo_group_buy_def Confirmed_def
      seats_of_def empty_db_def)

theorem join_is_booked_exactly_once_witness:
  "ledger_inv (market [(demo_group_buy 5)\<lparr>gb_Version := 1\<rparr>] [demo_participant 1000 2 3])"
  using join_is_booked_exactly_once [OF _ demo_join [of "\<lambda>_. True"]] market_ledger
  by (auto simp: demo_world_def)

text \<open>
  C10. A join that reports an error has changed nothing: whatever fails, at whatever attempt of the
  retry loop, the whole store is as it was, so no seat is lost and no participant is half booked.
\<close>

theorem failed_join_changes_nothing:
  assumes "GroupBuyService_Join pr i u q w = (Inl e, w')"
  shows "store w' = store w"
proof -
  obtain r w1 where r: "users_GetByID u w = (r, w1)" by (cases "users_GetByID u w")
  have st: "store w1 = store w" by (rule readonlyD [OF account_reads_readonly(1) r])
  show ?thesis
    using assms r st repo.join_loop_fails [of pr i u q maxRetries w1 e w']
    by (cases r) (auto simp: GroupBuyService_Join_def bindE_def fail_def split: if_splits)
qed

theorem failed_join_changes_nothing_witness:
  "store (snd (GroupBuyService_Join (\<lambda>_. True) 1000 2 9 (demo_world (market [demo_group_buy 8] []) 0))) =
   market [demo_group_buy 8] []"
proof -
  have "fst (GroupBuyService_Join (\<lambda>_. True) 1000 2 9 (demo_world (market [demo_group_buy 8] []) 0)) = Inl ErrOversold"
    by (simp add: join_code market_defs eval_nat_numeral run_defs)
  then obtain w' where run: "GroupBuyService_Join (\<lambda>_. True) 1000 2 9 (demo_world (market [demo_group_buy 8] []) 0)
      = (Inl ErrOversold, w')"
    by (metis prod.collapse)
  show ?thesis using failed_join_changes_nothing [OF run] run by (simp add: demo_world_def)
qed



end
