(* ===== verification/Group_Buy_Races.thy ===== *)
theory Group_Buy_Races
  imports Group_Buy_Service
begin

text \<open>
  Any number of clients joining group buys at once, with the sweep and new group buys in between. A
  client runs \<open>GroupBuyService.Join\<close>: its retry loop alternates the read of \<open>JoinAtomic\<close> with the
  transaction that decrements and inserts, and other steps may come between the two. The row lock of
  the \<open>UPDATE\<close> is held until the commit, so the writing half is one step. The sweep is one background
  job: it lists what is due, then closes the listed group buys one by one, on the rows as they were
  listed.
\<close>

record join_request =
  jr_gb :: uuid
  jr_user :: uuid
  jr_qty :: int

text \<open>The attempt a client is in (counted from 1), what it has read, and how its request ended.\<close>

datatype phase =
  Reading nat
| Writing nat group_buy time
| Finished "go_error + group_buy \<times> group_buy_participant"

record race =
  world_now :: "db world"
  clients :: "nat \<Rightarrow> phase"
  sweeping :: "group_buy list"

definition after_error :: "nat \<Rightarrow> go_error \<Rightarrow> phase" where
  "after_error k e = (if e = ErrOptimisticLock \<and> k < maxRetries then Reading (Suc k) else Finished (Inl e))"

inductive race_step :: "(nat \<Rightarrow> join_request) \<Rightarrow> (rune \<Rightarrow> bool) \<Rightarrow> race \<Rightarrow> race \<Rightarrow> bool"
  for reqs pr where
  read_ok: "clients s c = Reading k \<Longrightarrow>
    join_read (jr_gb (reqs c)) (join_quantity (jr_qty (reqs c))) (world_now s) = (Inr (g, t), w') \<Longrightarrow>
    race_step reqs pr s (s\<lparr>world_now := w', clients := (clients s)(c := Writing k g t)\<rparr>)"
| read_fails: "clients s c = Reading k \<Longrightarrow>
    join_read (jr_gb (reqs c)) (join_quantity (jr_qty (reqs c))) (world_now s) = (Inl e, w') \<Longrightarrow>
    race_step reqs pr s (s\<lparr>world_now := w', clients := (clients s)(c := after_error k e)\<rparr>)"
| write_ok: "clients s c = Writing k g t \<Longrightarrow>
    transaction (join_write (jr_gb (reqs c)) (jr_user (reqs c)) (join_quantity (jr_qty (reqs c))) (g, t))
      (world_now s) = (Inr (g', p), w') \<Longrightarrow>
    race_step reqs pr s (s\<lparr>world_now := snd (notifyOrganizerProgress pr g' w'),
      clients := (clients s)(c := Finished (Inr (g', p)))\<rparr>)"
| write_fails: "clients s c = Writing k g t \<Longrightarrow>
    transaction (join_write (jr_gb (reqs c)) (jr_user (reqs c)) (join_quantity (jr_qty (reqs c))) (g, t))
      (world_now s) = (Inl e, w') \<Longrightarrow>
    race_step reqs pr s (s\<lparr>world_now := w', clients := (clients s)(c := after_error k e)\<rparr>)"
| sweep_begins: "sweeping s = [] \<Longrightarrow>
    bindE now groupbuys_ListExpiringBefore (world_now s) = (Inr gs, w') \<Longrightarrow>
    race_step reqs pr s (s\<lparr>world_now := w', sweeping := gs\<rparr>)"
| sweep_closes: "sweeping s = g # gs \<Longrightarrow> sweep_one pr g (world_now s) = (r, w') \<Longrightarrow>
    race_step reqs pr s (s\<lparr>world_now := w', sweeping := gs\<rparr>)"
| creates: "GroupBuyService_Create inp (world_now s) = (r, w') \<Longrightarrow>
    race_step reqs pr s (s\<lparr>world_now := w'\<rparr>)"
| elsewhere: "gb_view (store w') = gb_view (store (world_now s)) \<Longrightarrow>
    race_step reqs pr s (s\<lparr>world_now := w'\<rparr>)"

definition race_start :: "race \<Rightarrow> bool" where
  "race_start s \<longleftrightarrow> ledger_inv (store (world_now s)) \<and> (\<forall>c. clients s c = Reading 1) \<and> sweeping s = []"

section \<open>The invariant\<close>

definition snapshot_ok :: "join_request \<Rightarrow> phase \<Rightarrow> db \<Rightarrow> bool" where
  "snapshot_ok r ph d \<longleftrightarrow> (\<forall>k g t. ph = Writing k g t \<longrightarrow>
     fresh_snapshot (jr_gb r) (gb_Version g) d \<and> jr_gb r \<in> gb_ID ` set (group_buys d))"

definition outcome_ok :: "join_request \<Rightarrow> phase \<Rightarrow> db \<Rightarrow> bool" where
  "outcome_ok r ph d \<longleftrightarrow> (\<forall>g p. ph = Finished (Inr (g, p)) \<longrightarrow>
     p \<in> set (participants d) \<and> p_GroupBuyID p = jr_gb r \<and> p_UserID p = jr_user r \<and>
     p_Quantity p = join_quantity (jr_qty r))"

definition attempts_ok :: "phase \<Rightarrow> bool" where
  "attempts_ok ph \<longleftrightarrow> (case ph of Reading k \<Rightarrow> 1 \<le> k \<and> k \<le> maxRetries
     | Writing k _ _ \<Rightarrow> 1 \<le> k \<and> k \<le> maxRetries | Finished _ \<Rightarrow> True)"

definition winner :: "phase \<Rightarrow> bool" where
  "winner ph \<longleftrightarrow> (\<exists>g p. ph = Finished (Inr (g, p)))"

definition race_inv :: "(nat \<Rightarrow> join_request) \<Rightarrow> race \<Rightarrow> bool" where
  "race_inv reqs s \<longleftrightarrow> (let d = store (world_now s) in
     ledger_inv d \<and>
     (\<forall>c. snapshot_ok (reqs c) (clients s c) d \<and> outcome_ok (reqs c) (clients s c) d \<and> attempts_ok (clients s c)) \<and>
     (\<forall>c c'. winner (clients s c) \<longrightarrow> winner (clients s c') \<longrightarrow> c \<noteq> c' \<longrightarrow>
        (jr_gb (reqs c), jr_user (reqs c)) \<noteq> (jr_gb (reqs c'), jr_user (reqs c'))) \<and>
     distinct_keys gb_ID (sweeping s) \<and> (\<forall>g \<in> set (sweeping s). not_failed (gb_ID g) d))"

text \<open>
  How the tables may move under a client that waits and under a pending sweep: versions only grow, no
  row of that version becomes failed, rows and participants stay.
\<close>

definition gb_grows :: "db \<Rightarrow> db \<Rightarrow> bool" where
  "gb_grows d d' \<longleftrightarrow>
     (\<forall>i v. i \<in> gb_ID ` set (group_buys d) \<longrightarrow> fresh_snapshot i v d \<longrightarrow> fresh_snapshot i v d') \<and>
     gb_ID ` set (group_buys d) \<subseteq> gb_ID ` set (group_buys d') \<and> set (participants d) \<subseteq> set (participants d')"

lemma gb_grows_view: "gb_view d' = gb_view d \<Longrightarrow> gb_grows d d'"
  by (simp add: gb_grows_def gb_view_def fresh_snapshot_def)

lemma ledger_inv_view: "gb_view d' = gb_view d \<Longrightarrow> ledger_inv d' = ledger_inv d"
  by (simp add: ledger_inv_def gb_view_def)

lemma not_failed_view: "gb_view d' = gb_view d \<Longrightarrow> not_failed i d' = not_failed i d"
  by (simp add: not_failed_def gb_view_def)

lemma gb_grows_update:
  assumes "group_buys d' = update_where p f (group_buys d)" and "set (participants d) \<subseteq> set (participants d')"
    and "\<And>g. p g \<Longrightarrow> gb_ID (f g) = gb_ID g"
    and "\<And>g. p g \<Longrightarrow> gb_Version g \<le> gb_Version (f g)"
    and "\<And>g. p g \<Longrightarrow> gb_Version (f g) = gb_Version g \<Longrightarrow> gb_Status (f g) \<noteq> GroupBuyFailed"
  shows "gb_grows d d'"
proof -
  have "gb_ID ` set (group_buys d') = gb_ID ` set (group_buys d)"
    unfolding assms(1) by (rule keys_update) (rule assms(3))
  moreover have "fresh_snapshot i v d'" if old: "fresh_snapshot i v d" for i v
    unfolding fresh_snapshot_def assms(1) ball_update_where
  proof (intro ballI impI)
    fix g
    let ?g = "if p g then f g else g"
    assume g: "g \<in> set (group_buys d)" and id: "gb_ID ?g = i"
    then have "gb_ID g = i" using assms(3) [of g] by (auto split: if_splits)
    then have "v \<le> gb_Version g \<and> (gb_Version g = v \<longrightarrow> gb_Status g \<noteq> GroupBuyFailed)"
      using old g by (simp add: fresh_snapshot_def)
    then show "v \<le> gb_Version ?g \<and> (gb_Version ?g = v \<longrightarrow> gb_Status ?g \<noteq> GroupBuyFailed)"
      using assms(4,5) [of g] by force
  qed
  ultimately show ?thesis using assms(2) by (simp add: gb_grows_def)
qed

lemma snapshot_ok_grows: "gb_grows d d' \<Longrightarrow> snapshot_ok r ph d \<Longrightarrow> snapshot_ok r ph d'"
  unfolding snapshot_ok_def gb_grows_def by (metis subsetD)

lemma outcome_ok_grows: "gb_grows d d' \<Longrightarrow> outcome_ok r ph d \<Longrightarrow> outcome_ok r ph d'"
  unfolding outcome_ok_def gb_grows_def by (metis subsetD)

text \<open>
  A step that keeps the ledger and moves at most one client to a phase that is in order keeps the
  invariant.
\<close>

lemma race_inv_step:
  assumes inv: "race_inv reqs s" and d': "store w' = d'"
    and ledger: "ledger_inv d'" and grows: "gb_grows (store (world_now s)) d'"
    and client: "snapshot_ok (reqs c) ph d'" "outcome_ok (reqs c) ph d'" "attempts_ok ph"
    and win: "winner ph \<Longrightarrow> \<not> winner (clients s c) \<Longrightarrow>
        (jr_gb (reqs c), jr_user (reqs c)) \<notin> (\<lambda>p. (p_GroupBuyID p, p_UserID p)) ` set (participants (store (world_now s)))"
    and sweep: "distinct_keys gb_ID gs" "\<And>g. g \<in> set gs \<Longrightarrow> not_failed (gb_ID g) d'"
  shows "race_inv reqs (s\<lparr>world_now := w', clients := (clients s)(c := ph), sweeping := gs\<rparr>)"
proof -
  have key: "(jr_gb (reqs c'), jr_user (reqs c')) \<in>
      (\<lambda>p. (p_GroupBuyID p, p_UserID p)) ` set (participants (store (world_now s)))"
    if won: "winner (clients s c')" for c'
  proof -
    obtain g p where "clients s c' = Finished (Inr (g, p))" using won by (auto simp: winner_def)
    moreover have "outcome_ok (reqs c') (clients s c') (store (world_now s))"
      using inv by (simp add: race_inv_def Let_def)
    ultimately have "p \<in> set (participants (store (world_now s)))"
      "(jr_gb (reqs c'), jr_user (reqs c')) = (p_GroupBuyID p, p_UserID p)"
      by (simp_all add: outcome_ok_def)
    then show ?thesis by (rule rev_image_eqI)
  qed
  have "(jr_gb (reqs c1), jr_user (reqs c1)) \<noteq> (jr_gb (reqs c2), jr_user (reqs c2))"
    if "winner (((clients s)(c := ph)) c1)" "winner (((clients s)(c := ph)) c2)" "c1 \<noteq> c2" for c1 c2
  proof (cases "c1 = c \<or> c2 = c")
    case False
    then show ?thesis using that inv by (simp add: race_inv_def Let_def)
  next
    case True
    define oth where "oth = (if c1 = c then c2 else c1)"
    have o: "oth \<noteq> c" "winner (clients s oth)" "winner ph" using True that by (auto simp: oth_def)
    have "(jr_gb (reqs c), jr_user (reqs c)) \<noteq> (jr_gb (reqs oth), jr_user (reqs oth))"
    proof (cases "winner (clients s c)")
      case True
      then show ?thesis using inv o(1,2) unfolding race_inv_def Let_def by metis
    next
      case False
      show ?thesis using win [OF o(3) False] key [OF o(2)] by metis
    qed
    then show ?thesis using True by (auto simp: oth_def split: if_splits)
  qed
  then show ?thesis
    using inv ledger client sweep snapshot_ok_grows [OF grows] outcome_ok_grows [OF grows] d'
    by (simp add: race_inv_def Let_def)
qed


lemma race_inv_quiet:
  assumes inv: "race_inv reqs s" and ledger: "ledger_inv (store w')"
    and grows: "gb_grows (store (world_now s)) (store w')"
    and sweep: "distinct_keys gb_ID gs" "\<And>g. g \<in> set gs \<Longrightarrow> not_failed (gb_ID g) (store w')"
  shows "race_inv reqs (s\<lparr>world_now := w', sweeping := gs\<rparr>)"
proof -
  let ?ph = "clients s 0"
  have "snapshot_ok (reqs 0) ?ph (store w')" "outcome_ok (reqs 0) ?ph (store w')" "attempts_ok ?ph"
    using inv snapshot_ok_grows [OF grows] outcome_ok_grows [OF grows] by (auto simp: race_inv_def Let_def)
  from race_inv_step [OF inv refl ledger grows this _ sweep]
  show ?thesis by simp
qed

lemma race_inv_sweeping:
  "race_inv reqs s \<Longrightarrow> distinct_keys gb_ID (sweeping s) \<and> (\<forall>g \<in> set (sweeping s). not_failed (gb_ID g) (store (world_now s)))"
  by (simp add: race_inv_def Let_def)

lemma race_inv_ledger: "race_inv reqs s \<Longrightarrow> ledger_inv (store (world_now s))"
  by (simp add: race_inv_def Let_def)

text \<open>A client that moves to a phase without a success, the store being as it was.\<close>

lemma race_inv_client:
  assumes inv: "race_inv reqs s" and st: "store w' = store (world_now s)"
    and ph: "snapshot_ok (reqs c) ph (store w')" "attempts_ok ph" "\<not> winner ph"
  shows "race_inv reqs (s\<lparr>world_now := w', clients := (clients s)(c := ph)\<rparr>)"
proof -
  have "outcome_ok (reqs c) ph (store w')" using ph(3) by (simp add: outcome_ok_def winner_def)
  moreover have "gb_grows (store (world_now s)) (store w')" by (rule gb_grows_view) (simp add: st)
  moreover have "ledger_inv (store w')" using race_inv_ledger [OF inv] st by simp
  ultimately have "race_inv reqs (s\<lparr>world_now := w', clients := (clients s)(c := ph), sweeping := sweeping s\<rparr>)"
    using ph race_inv_sweeping [OF inv] by (intro race_inv_step [OF inv refl]) (simp_all add: st)
  then show ?thesis by simp
qed

lemma after_error_ok:
  "1 \<le> k \<Longrightarrow> k \<le> maxRetries \<Longrightarrow>
   snapshot_ok r (after_error k e) d \<and> attempts_ok (after_error k e) \<and> \<not> winner (after_error k e)"
  by (simp add: after_error_def snapshot_ok_def attempts_ok_def winner_def)

text \<open>What the sweep does to the tables, whether its statement went through or not.\<close>

lemma sweep_one_tables:
  assumes "sweep_one pr g w = (r, w')"
  shows "gb_view (store w') = gb_view (store w) \<or>
    (participants (store w') = participants (store w) \<and>
     ((\<exists>t. group_buys (store w') = update_where (\<lambda>x. gb_ID x = gb_ID g \<and> gb_Status x \<in> {GroupBuyOpen, GroupBuyMet})
         (release_slots t) (group_buys (store w))) \<or>
      (\<exists>st t. st \<noteq> GroupBuyFailed \<and> group_buys (store w') = update_where (\<lambda>x. gb_ID x = gb_ID g)
         (\<lambda>x. x\<lparr>gb_Status := st, gb_UpdatedAt := t\<rparr>) (group_buys (store w)))))"
proof -
  define act where "act = (if sweep_target g = GroupBuyFailed then groupbuys_MarkFailedAndReleaseSlots (gb_ID g)
      else groupbuys_UpdateStatus (gb_ID g) (sweep_target g))"
  obtain r1 w1 where act: "act w = (r1, w1)" by (cases "act w")
  have view: "gb_view (store w') = gb_view (store w1)"
    using assms act notification_gb_view
    by (cases r1) (auto simp: sweep_one_def Let_def act_def [symmetric] bindE_def returns ret_def split: option.splits)
  have atomic: "all_or_nothing act"
    unfolding act_def groupbuys_MarkFailedAndReleaseSlots_def groupbuys_UpdateStatus_def
    by (intro store_rules)
  show ?thesis
  proof (cases r1)
    case (Inl e)
    then show ?thesis using view all_or_nothingD [OF atomic] act by metis
  next
    case (Inr u)
    show ?thesis
    proof (cases "sweep_target g = GroupBuyFailed")
      case True
      then have "groupbuys_MarkFailedAndReleaseSlots (gb_ID g) w = (Inr (), w1)" using act Inr by (simp add: act_def)
      then have "participants (store w1) = participants (store w) \<and>
        (\<exists>t. group_buys (store w1) = update_where (\<lambda>x. gb_ID x = gb_ID g \<and> gb_Status x \<in> {GroupBuyOpen, GroupBuyMet})
           (release_slots t) (group_buys (store w)))"
        unfolding groupbuys_MarkFailedAndReleaseSlots_def Let_def
        by (elim transaction_runs) (auto simp: sql_returns split: if_splits)
      then show ?thesis using view by (auto simp: gb_view_def)
    next
      case False
      then have "groupbuys_UpdateStatus (gb_ID g) (sweep_target g) w = (Inr (), w1)" using act Inr by (simp add: act_def)
      then have "participants (store w1) = participants (store w) \<and>
        (\<exists>t. group_buys (store w1) = update_where (\<lambda>x. gb_ID x = gb_ID g)
           (\<lambda>x. x\<lparr>gb_Status := sweep_target g, gb_UpdatedAt := t\<rparr>) (group_buys (store w)))"
        unfolding groupbuys_UpdateStatus_def by (auto simp: sql_returns split: if_splits)
      then show ?thesis using view False by (auto simp: gb_view_def)
    qed
  qed
qed


text \<open>The same as three cases, for the proofs that follow.\<close>

lemma sweep_one_cases:
  assumes "sweep_one pr g w = (r, w')"
  obtains (idle) "gb_view (store w') = gb_view (store w)"
  | (failed) t where "participants (store w') = participants (store w)"
      "group_buys (store w') = update_where (\<lambda>x. gb_ID x = gb_ID g \<and> gb_Status x \<in> {GroupBuyOpen, GroupBuyMet})
         (release_slots t) (group_buys (store w))"
  | (closed) st t where "participants (store w') = participants (store w)" "st \<noteq> GroupBuyFailed"
      "group_buys (store w') = update_where (\<lambda>x. gb_ID x = gb_ID g)
         (\<lambda>x. x\<lparr>gb_Status := st, gb_UpdatedAt := t\<rparr>) (group_buys (store w))"
  using sweep_one_tables [OF assms] by (elim disjE conjE exE)

lemma ledger_inv_tables:
  "group_buys d' = gs \<Longrightarrow> participants d' = participants d \<Longrightarrow> ledger_inv (d\<lparr>group_buys := gs\<rparr>) \<Longrightarrow> ledger_inv d'"
  by (simp add: ledger_inv_def)

lemma sweep_one_grows:
  assumes "sweep_one pr g w = (r, w')"
  shows "gb_grows (store w) (store w')"
  using assms
proof (cases rule: sweep_one_cases)
  case idle
  then show ?thesis by (rule gb_grows_view)
next
  case (failed t)
  show ?thesis by (rule gb_grows_update [OF failed(2)]) (simp_all add: failed(1) release_slots_def)
next
  case (closed st t)
  show ?thesis by (rule gb_grows_update [OF closed(3)]) (simp_all add: closed(1,2))
qed

lemma sweep_one_ledger:
  assumes "sweep_one pr g w = (r, w')" and inv: "ledger_inv (store w)" and "not_failed (gb_ID g) (store w)"
  shows "ledger_inv (store w')"
  using assms(1)
proof (cases rule: sweep_one_cases)
  case idle
  show ?thesis using inv by (simp add: ledger_inv_view [OF idle])
next
  case (failed t)
  show ?thesis by (rule ledger_inv_tables [OF failed(2,1)]) (rule ledger_release [OF inv])
next
  case (closed st t)
  show ?thesis by (rule ledger_inv_tables [OF closed(3,1)]) (rule ledger_status [OF inv assms(3) closed(2)])
qed

lemma sweep_one_others:
  assumes "sweep_one pr g w = (r, w')" and "i \<noteq> gb_ID g" and "not_failed i (store w)"
  shows "not_failed i (store w')"
  using assms(1)
proof (cases rule: sweep_one_cases)
  case idle
  show ?thesis using assms(3) by (simp add: not_failed_view [OF idle])
next
  case (failed t)
  show ?thesis using assms(2,3) unfolding not_failed_def failed(2) ball_update_where
    by (simp add: release_slots_def)
next
  case (closed st t)
  show ?thesis using assms(2,3) unfolding not_failed_def closed(3) ball_update_where by simp
qed

lemma Create_tables:
  assumes "GroupBuyService_Create inp w = (r, w')"
  shows "store w' = store w \<or>
    (\<exists>g. group_buys (store w') = group_buys (store w) @ [g] \<and> participants (store w') = participants (store w) \<and>
       gb_RemainingSlots g = gb_Capacity g \<and> gb_Status g = GroupBuyOpen \<and> gb_Version g = 0 \<and>
       group_buy_insertable (store w) g)"
proof (cases r)
  case (Inl e)
  have "all_or_nothing (GroupBuyService_Create inp)"
    unfolding GroupBuyService_Create_def groupbuys_Create_def Let_def
    by (intro store_rules)
  then show ?thesis using assms Inl by (auto dest: all_or_nothingD)
next
  case (Inr g)
  from assms Inr obtain g0 w1 where c: "groupbuys_Create (Some GroupBuyOpen) g0 w1 = (Inr g, w')"
    and st: "store w1 = store w"
    unfolding GroupBuyService_Create_def Let_def
    by (clarsimp simp: returns split: sum.splits)
  from c have "group_buys (store w') = group_buys (store w1) @ [g]" "participants (store w') = participants (store w1)"
    "gb_RemainingSlots g = gb_Capacity g" "gb_Status g = GroupBuyOpen" "gb_Version g = 0"
    "group_buy_insertable (store w1) g"
    unfolding groupbuys_Create_def Let_def by (auto simp: returns split: if_splits)
  then show ?thesis using st by auto
qed

lemma Create_grows:
  assumes "GroupBuyService_Create inp w = (r, w')"
  shows "gb_grows (store w) (store w')"
  using Create_tables [OF assms]
  by (auto simp: gb_grows_def fresh_snapshot_def group_buy_insertable_def fresh_key_def)

lemma Create_ledger:
  assumes "GroupBuyService_Create inp w = (r, w')" and inv: "ledger_inv (store w)"
  shows "ledger_inv (store w')"
  using Create_tables [OF assms(1)]
proof (elim disjE exE conjE)
  fix g
  assume rows: "group_buys (store w') = group_buys (store w) @ [g]" "participants (store w') = participants (store w)"
    and "gb_RemainingSlots g = gb_Capacity g" "gb_Status g = GroupBuyOpen" "group_buy_insertable (store w) g"
  then have "ledger_inv (store w\<lparr>group_buys := group_buys (store w) @ [g]\<rparr>)"
    by (intro ledger_create inv) simp_all
  then show ?thesis by (rule ledger_inv_tables [OF rows])
qed (simp add: inv)

lemma Create_not_failed:
  assumes "GroupBuyService_Create inp w = (r, w')" and "not_failed i (store w)"
  shows "not_failed i (store w')"
  using Create_tables [OF assms(1)] assms(2) by (auto simp: not_failed_def)

section \<open>Every step keeps it\<close>

lemma race_inv_start: "race_start s \<Longrightarrow> race_inv reqs s"
  by (simp add: race_start_def race_inv_def snapshot_ok_def outcome_ok_def attempts_ok_def winner_def maxRetries_def
      distinct_keys_def Let_def)

lemma join_read_snapshot:
  assumes "join_read i q w = (Inr (g, t), w')" and "ledger_inv (store w)"
  shows "store w' = store w \<and> fresh_snapshot i (gb_Version g) (store w) \<and> i \<in> gb_ID ` set (group_buys (store w))"
proof -
  have g: "row_by gb_ID i (group_buys (store w)) = Some g" "joinable (gb_Status g)"
    using assms(1) by (auto simp: join_read_def returns)
  have "x = g" if "x \<in> set (group_buys (store w))" "gb_ID x = i" for x
    using assms(2) g(1) row_by_Some [OF g(1)] that by (auto simp: ledger_inv_def dest: distinct_keys_inj)
  then have "fresh_snapshot i (gb_Version g) (store w)"
    using g(2) unfolding fresh_snapshot_def joinable_def by fastforce
  then show ?thesis
    using readonlyD [OF join_read_readonly assms(1)] row_by_Some [OF g(1)] by auto
qed


lemma race_inv_preserved:
  assumes "race_step reqs pr s s'" and inv: "race_inv reqs s"
  shows "race_inv reqs s'"
  using assms(1)
proof cases
  case (read_ok c k g t w')
  then have snap: "store w' = store (world_now s)" "snapshot_ok (reqs c) (Writing k g t) (store w')"
    using join_read_snapshot [OF read_ok(3) race_inv_ledger [OF inv]] by (simp_all add: snapshot_ok_def)
  have "attempts_ok (clients s c)" using inv by (simp add: race_inv_def Let_def)
  then show ?thesis
    unfolding read_ok(1) using read_ok(2) snap
    by (intro race_inv_client [OF inv]) (simp_all add: attempts_ok_def winner_def)
next
  case (read_fails c k e w')
  have "attempts_ok (clients s c)" using inv by (simp add: race_inv_def Let_def)
  then have "1 \<le> k" "k \<le> maxRetries" using read_fails(2) by (simp_all add: attempts_ok_def)
  then show ?thesis
    unfolding read_fails(1) using after_error_ok readonlyD [OF join_read_readonly read_fails(3)]
    by (intro race_inv_client [OF inv]) auto
next
  case (write_ok c k g t g' p w')
  let ?w = "world_now s" and ?r = "reqs c"
  have pre: "ledger_inv (store ?w)" "snapshot_ok ?r (clients s c) (store ?w)"
    using inv by (simp_all add: race_inv_def Let_def)
  then have fresh: "fresh_snapshot (jr_gb ?r) (gb_Version g) (store ?w)"
    using write_ok(2) by (simp add: snapshot_ok_def)
  have view: "gb_view (store (snd (notifyOrganizerProgress pr g' w'))) = gb_view (store w')"
    using notify_gb_view by (metis prod.collapse)
  obtain w1 w2 where run: "join_write (jr_gb ?r) (jr_user ?r) (join_quantity (jr_qty ?r)) (g, t) w1 = (Inr (g', p), w2)"
    and st: "store w1 = store ?w" "store w' = store w2"
    using write_ok(3) by (rule transaction_runs)
  obtain x t' where x: "g' = take_slots (join_quantity (jr_qty ?r)) t' x"
    and p: "p_GroupBuyID p = jr_gb ?r" "p_UserID p = jr_user ?r" "p_Quantity p = join_quantity (jr_qty ?r)"
      "participant_unique (store ?w) p"
    and st': "store w' = joined (jr_gb ?r) (join_quantity (jr_qty ?r)) (gb_Version g) t' p (store ?w)"
    using join_write_returns [OF run] unfolding st by blast
  let ?d = "store (snd (notifyOrganizerProgress pr g' w'))"
  have tables: "group_buys ?d = update_where (slots_free (jr_gb ?r) (join_quantity (jr_qty ?r)) (gb_Version g))
      (take_slots (join_quantity (jr_qty ?r)) t') (group_buys (store ?w))" "participants ?d = participants (store ?w) @ [p]"
    using view st' by (simp_all add: gb_view_def joined_def)
  have "ledger_inv ?d"
    using ledger_join_write [OF pre(1) fresh write_ok(3)] by (simp add: ledger_inv_view [OF view])
  moreover have "gb_grows (store ?w) ?d"
    by (rule gb_grows_update [OF tables(1)]) (simp_all add: tables(2) subset_insertI)
  moreover have "not_failed (gb_ID y) ?d" if "y \<in> set (sweeping s)" for y
    using race_inv_sweeping [OF inv] that unfolding not_failed_def tables(1) ball_update_where by auto
  moreover have "(jr_gb ?r, jr_user ?r) \<notin> (\<lambda>p. (p_GroupBuyID p, p_UserID p)) ` set (participants (store ?w))"
    using p by (simp add: participant_unique_def fresh_key_def)
  ultimately have "race_inv reqs (s\<lparr>world_now := snd (notifyOrganizerProgress pr g' w'),
      clients := (clients s)(c := Finished (Inr (g', p))), sweeping := sweeping s\<rparr>)"
    using p race_inv_sweeping [OF inv]
    by (intro race_inv_step [OF inv refl]) (simp_all add: snapshot_ok_def outcome_ok_def attempts_ok_def tables(2))
  then show ?thesis unfolding write_ok(1) by simp
next
  case (write_fails c k g t e w')
  have "attempts_ok (clients s c)" using inv by (simp add: race_inv_def Let_def)
  then have "1 \<le> k" "k \<le> maxRetries" using write_fails(2) by (simp_all add: attempts_ok_def)
  then show ?thesis
    unfolding write_fails(1) using after_error_ok all_or_nothingD [OF all_or_nothing_transaction write_fails(3)]
    by (intro race_inv_client [OF inv]) auto
next
  case (sweep_begins gs w')
  have st: "store w' = store (world_now s)" and gs: "\<exists>t. gs = filter (expiring t) (group_buys (store (world_now s)))"
    using sweep_begins(3) by (auto simp: groupbuys_ListExpiringBefore_def returns)
  have led: "ledger_inv (store (world_now s))" by (rule race_inv_ledger [OF inv])
  have "distinct_keys gb_ID gs"
    using gs led by (auto simp: ledger_inv_def distinct_keys_def distinct_map_filter)
  moreover have "not_failed (gb_ID g) (store w')" if "g \<in> set gs" for g
    unfolding st not_failed_def
  proof (intro ballI impI)
    fix x
    assume x: "x \<in> set (group_buys (store (world_now s)))" "gb_ID x = gb_ID g"
    have g: "g \<in> set (group_buys (store (world_now s)))" "gb_Status g \<noteq> GroupBuyFailed"
      using gs that by (auto simp: expiring_def)
    have "x = g" using led x g(1) by (auto simp: ledger_inv_def dest: distinct_keys_inj)
    then show "gb_Status x \<noteq> GroupBuyFailed" using g(2) by simp
  qed
  ultimately show ?thesis
    unfolding sweep_begins(1) using led
    by (intro race_inv_quiet [OF inv] gb_grows_view) (simp_all add: st)
next
  case (sweep_closes g gs r w')
  have sw: "distinct_keys gb_ID (g # gs)" "\<forall>x \<in> set (g # gs). not_failed (gb_ID x) (store (world_now s))"
    using race_inv_sweeping [OF inv] sweep_closes(2) by simp_all
  have "not_failed (gb_ID x) (store w')" if "x \<in> set gs" for x
    using sweep_one_others [OF sweep_closes(3)] sw that by (simp add: distinct_keys_Cons)
  then show ?thesis
    unfolding sweep_closes(1) using sw
    by (intro race_inv_quiet [OF inv] sweep_one_ledger [OF sweep_closes(3)] sweep_one_grows [OF sweep_closes(3)]
        race_inv_ledger [OF inv]) (simp_all add: distinct_keys_Cons)
next
  case (creates inp r w')
  have "race_inv reqs (s\<lparr>world_now := w', sweeping := sweeping s\<rparr>)"
    using race_inv_sweeping [OF inv]
    by (intro race_inv_quiet [OF inv] Create_ledger [OF creates(2)] Create_grows [OF creates(2)] race_inv_ledger [OF inv]
        Create_not_failed [OF creates(2)]) simp_all
  then show ?thesis unfolding creates(1) by simp
next
  case (elsewhere w')
  have "race_inv reqs (s\<lparr>world_now := w', sweeping := sweeping s\<rparr>)"
    using race_inv_sweeping [OF inv] race_inv_ledger [OF inv] elsewhere(2)
    by (intro race_inv_quiet [OF inv] gb_grows_view)
      (simp_all add: ledger_inv_view [OF elsewhere(2)] not_failed_view [OF elsewhere(2)])
  then show ?thesis unfolding elsewhere(1) by simp
qed


lemma race_inv_reachable:
  assumes "rtranclp (race_step reqs pr) s s'" and "race_start s"
  shows "race_inv reqs s'"
  using assms by (induction rule: rtranclp_induct) (auto intro: race_inv_start race_inv_preserved)

section \<open>An example race\<close>

text \<open>
  User 2 wants five of the eight seats of the example group buy. Her client reads it before the
  deadline; the clock then passes the deadline.
\<close>

definition lone_request :: "nat \<Rightarrow> join_request" where
  "lone_request c = \<lparr>jr_gb = 1000, jr_user = 2, jr_qty = 5\<rparr>"

definition quiet_market :: "time \<Rightarrow> group_buy_status \<Rightarrow> db world" where
  "quiet_market t st = demo_world (market [(demo_group_buy 8)\<lparr>gb_Status := st, gb_OrganizerID := None,
     gb_UpdatedAt := t\<rparr>] []) t"

definition race0 :: race where
  "race0 = \<lparr>world_now = quiet_market 0 GroupBuyOpen, clients = (\<lambda>_. Reading 1), sweeping = []\<rparr>"

lemma race0_start: "race_start race0"
  by (simp add: race_start_def race0_def quiet_market_def ledger_inv_def market_def distinct_keys_def ledger_row_def
      demo_group_buy_def Confirmed_def seats_of_def demo_world_def empty_db_def)

lemmas race_code = join_read_def join_write_def join_decrement_def participant_insert_def groupbuys_Get_def
  joinable_def join_quantity_def slots_free_def take_slots_def participant_unique_def row_by_def references_def
  fresh_key_def int4_def notifyOrganizerProgress_def sweep_one_def sweep_target_def groupbuys_UpdateStatus_def
  groupbuys_ListExpiringBefore_def expiring_def ThresholdMet_def Confirmed_def lone_request_def
  quiet_market_def market_def demo_group_buy_def sample_user_def demo_world_def empty_db_def

definition the_group_buy :: "time \<Rightarrow> group_buy_status \<Rightarrow> group_buy" where
  "the_group_buy t st = (demo_group_buy 8)\<lparr>gb_Status := st, gb_OrganizerID := None, gb_UpdatedAt := t\<rparr>"

lemma demo_read:
  "join_read 1000 5 (quiet_market 0 GroupBuyOpen) =
     (Inr (the_group_buy 0 GroupBuyOpen, 0), (quiet_market 0 GroupBuyOpen)\<lparr>readings := 2, stmts := 1\<rparr>)"
  by (simp add: race_code the_group_buy_def run_defs)

lemma demo_due:
  "bindE now groupbuys_ListExpiringBefore ((quiet_market 0 GroupBuyOpen)\<lparr>clock := \<lambda>_. 25 * hour\<rparr>) =
     (Inr [the_group_buy 0 GroupBuyOpen],
      (quiet_market 0 GroupBuyOpen)\<lparr>clock := \<lambda>_. 25 * hour, readings := 2, stmts := 1\<rparr>)"
  by (simp add: race_code the_group_buy_def run_defs)

lemma demo_close:
  "\<exists>w. sweep_one pr (the_group_buy 0 GroupBuyOpen)
      ((quiet_market 0 GroupBuyOpen)\<lparr>clock := \<lambda>_. 25 * hour, readings := 2, stmts := 1\<rparr>) = (Inr (), w) \<and>
     gb_view (store w) = gb_view (store (quiet_market (25 * hour) GroupBuyExpired))"
  by (simp add: race_code gb_view_def the_group_buy_def run_defs)

lemma demo_write:
  "\<exists>g p w. transaction (join_write 1000 2 5 (the_group_buy 0 GroupBuyOpen, 0)) (quiet_market (25 * hour) GroupBuyExpired)
     = (Inr (g, p), w) \<and> gb_OrganizerID g = None \<and> map gb_Status (group_buys (store w)) = [GroupBuyMet]"
  by (simp add: race_code the_group_buy_def run_defs)

lemma demo_write_early:
  "\<exists>g p w. transaction (join_write 1000 2 5 (the_group_buy 0 GroupBuyOpen, 0))
       ((quiet_market 0 GroupBuyOpen)\<lparr>readings := 2, stmts := 1\<rparr>) = (Inr (g, p), w) \<and>
     gb_OrganizerID g = None \<and> group_buys (store w) = [g] \<and> participants (store w) = [p] \<and>
     gb_RemainingSlots g = 3 \<and> gb_Capacity g = 8 \<and> gb_Status g = GroupBuyMet"
  by (simp add: race_code the_group_buy_def run_defs)

lemma demo_join_race:
  "\<exists>s g p. rtranclp (race_step lone_request pr) race0 s \<and> clients s 0 = Finished (Inr (g, p)) \<and>
     group_buys (store (world_now s)) = [g] \<and> participants (store (world_now s)) = [p] \<and>
     gb_RemainingSlots g = 3 \<and> gb_Capacity g = 8 \<and> gb_Status g = GroupBuyMet"
proof -
  let ?w0 = "quiet_market 0 GroupBuyOpen" and ?g = "the_group_buy 0 GroupBuyOpen"
  let ?w1 = "?w0\<lparr>readings := 2, stmts := 1\<rparr>"
  let ?cl = "(\<lambda>_. Reading 1)(0 := Writing 1 ?g 0)"
  obtain g p w where w: "transaction (join_write 1000 2 5 (?g, 0)) ?w1 = (Inr (g, p), w)"
    "gb_OrganizerID g = None" "group_buys (store w) = [g]" "participants (store w) = [p]"
    "gb_RemainingSlots g = 3" "gb_Capacity g = 8" "gb_Status g = GroupBuyMet"
    using demo_write_early by (elim exE conjE) (rule that)
  define a where "a = \<lparr>world_now = ?w1, clients = ?cl, sweeping = []\<rparr>"
  define b where "b = \<lparr>world_now = w, clients = (\<lambda>_. Reading 1)(0 := Finished (Inr (g, p))), sweeping = []\<rparr>"
  have told: "notifyOrganizerProgress pr g w = (Inr (), w)"
    using w(2) by (simp add: notifyOrganizerProgress_def ret_def)
  have "race_step lone_request pr race0 a"
    using race_step.read_ok [of race0 0 1 lone_request ?g 0] demo_read
    by (simp add: race0_def a_def lone_request_def join_quantity_def)
  moreover have "race_step lone_request pr a b"
    using race_step.write_ok [of a 0 1 ?g 0 lone_request g p w pr] w(1) told
    by (simp add: a_def b_def lone_request_def join_quantity_def)
  ultimately have "rtranclp (race_step lone_request pr) race0 b"
    by (meson rtranclp.rtrancl_into_rtrancl rtranclp.rtrancl_refl)
  then show ?thesis using w by (intro exI [of _ b] exI [of _ g] exI [of _ p]) (simp add: b_def)
qed

section \<open>Properties\<close>

text \<open>
  C13. No group buy is ever oversold. Starting from a balanced ledger, after any interleaving of any
  number of joins (each with its retries), the sweep and the creation of group buys, whatever
  statements fail: the free seats of every group buy are between 0 and its capacity, the seats that
  are taken are exactly those of its participants unless it has failed, and a failed one has all its
  seats free.
\<close>

theorem no_oversell_under_interleaving:
  assumes "race_start s" and "rtranclp (race_step reqs pr) s s'"
    and "g \<in> set (group_buys (store (world_now s')))"
  shows "0 \<le> gb_RemainingSlots g \<and> gb_RemainingSlots g \<le> gb_Capacity g \<and>
    (if gb_Status g = GroupBuyFailed then gb_RemainingSlots g = gb_Capacity g
     else sum_where (\<lambda>p. p_GroupBuyID p = gb_ID g) p_Quantity (participants (store (world_now s')))
       = gb_Capacity g - gb_RemainingSlots g)"
proof -
  have "ledger_inv (store (world_now s'))"
    by (rule race_inv_ledger [OF race_inv_reachable [OF assms(2,1)]])
  then have "ledger_row (participants (store (world_now s'))) g"
    using assms(3) by (simp add: ledger_inv_def)
  then show ?thesis by (auto simp: ledger_row_def Confirmed_def seats_of_def)
qed

theorem no_oversell_under_interleaving_witness:
  "\<exists>s g p. rtranclp (race_step lone_request (\<lambda>_. True)) race0 s \<and>
     group_buys (store (world_now s)) = [g] \<and> participants (store (world_now s)) = [p] \<and>
     gb_RemainingSlots g = 3 \<and> gb_Status g = GroupBuyMet \<and>
     sum_where (\<lambda>p. p_GroupBuyID p = gb_ID g) p_Quantity (participants (store (world_now s))) = 5"
proof -
  obtain s g p where s: "rtranclp (race_step lone_request (\<lambda>_. True)) race0 s" "group_buys (store (world_now s)) = [g]"
    "participants (store (world_now s)) = [p]" "gb_RemainingSlots g = 3" "gb_Capacity g = 8" "gb_Status g = GroupBuyMet"
    using demo_join_race by blast
  then show ?thesis
    using no_oversell_under_interleaving [OF race0_start s(1), of g] by auto
qed

text \<open>
  C14. A request ends after at most three attempts, and is booked once. In every interleaving a client
  is never beyond its third attempt; a client that was told it has joined has its participant row, for
  its group buy, its user and its quantity; and of two clients that ask for the same user and the same
  group buy at most one is told so.
\<close>

theorem joins_are_bounded_and_single:
  assumes "race_start s" and "rtranclp (race_step reqs pr) s s'"
  shows "(clients s' c = Reading k \<or> clients s' c = Writing k g0 t \<longrightarrow> 1 \<le> k \<and> k \<le> 3) \<and>
    (clients s' c = Finished (Inr (g, p)) \<longrightarrow>
       p \<in> set (participants (store (world_now s'))) \<and> p_GroupBuyID p = jr_gb (reqs c) \<and>
       p_UserID p = jr_user (reqs c) \<and> p_Quantity p = join_quantity (jr_qty (reqs c))) \<and>
    (clients s' c = Finished (Inr (g, p)) \<and> clients s' c' = Finished (Inr (g', p')) \<and> c \<noteq> c' \<longrightarrow>
       jr_gb (reqs c) \<noteq> jr_gb (reqs c') \<or> jr_user (reqs c) \<noteq> jr_user (reqs c'))"
proof -
  have inv: "race_inv reqs s'" by (rule race_inv_reachable [OF assms(2,1)])
  then have "attempts_ok (clients s' c)" "outcome_ok (reqs c) (clients s' c) (store (world_now s'))"
    by (simp_all add: race_inv_def Let_def)
  moreover have "winner (clients s' c) \<longrightarrow> winner (clients s' c') \<longrightarrow> c \<noteq> c' \<longrightarrow>
      (jr_gb (reqs c), jr_user (reqs c)) \<noteq> (jr_gb (reqs c'), jr_user (reqs c'))"
    using inv by (simp add: race_inv_def Let_def)
  ultimately show ?thesis
    by (auto simp: attempts_ok_def outcome_ok_def winner_def maxRetries_def)
qed

theorem joins_are_bounded_and_single_witness:
  "\<exists>(s::race) g p. clients s 0 = Finished (Inr (g, p)) \<and> p \<in> set (participants (store (world_now s))) \<and>
     p_UserID p = 2 \<and> p_Quantity p = 5"
proof -
  obtain s g p where s: "rtranclp (race_step lone_request (\<lambda>_. True)) race0 s" "clients s 0 = Finished (Inr (g, p))"
    using demo_join_race by blast
  have "p \<in> set (participants (store (world_now s))) \<and> p_UserID p = 2 \<and> p_Quantity p = 5"
    using joins_are_bounded_and_single [OF race0_start s(1), where c = 0 and g = g and p = p] s(2)
    by (auto simp: lone_request_def join_quantity_def)
  then show ?thesis using s(2) by blast
qed

text \<open>
  C15. A closed group buy can come back. The sweep's status update neither checks the status nor raises
  the version, so a join that has read the group buy before its deadline still commits after the sweep
  has marked it expired, and turns it from expired into met.
\<close>

theorem swept_group_buy_comes_back:
  "\<exists>s1 s2. rtranclp (race_step lone_request pr) race0 s1 \<and> rtranclp (race_step lone_request pr) s1 s2 \<and>
     map gb_Status (group_buys (store (world_now s1))) = [GroupBuyExpired] \<and>
     map gb_Status (group_buys (store (world_now s2))) = [GroupBuyMet]"
proof -
  let ?w0 = "quiet_market 0 GroupBuyOpen" and ?g = "the_group_buy 0 GroupBuyOpen"
  let ?late = "?w0\<lparr>clock := \<lambda>_. 25 * hour\<rparr>"
  let ?cl = "(\<lambda>_. Reading 1)(0 := Writing 1 ?g 0)"
  let ?we = "quiet_market (25 * hour) GroupBuyExpired"
  define a where "a = \<lparr>world_now = ?w0\<lparr>readings := 2, stmts := 1\<rparr>, clients = ?cl, sweeping = []\<rparr>"
  define b where "b = \<lparr>world_now = ?late, clients = ?cl, sweeping = []\<rparr>"
  define c where "c = \<lparr>world_now = ?late\<lparr>readings := 2, stmts := 1\<rparr>, clients = ?cl, sweeping = [?g]\<rparr>"
  obtain w where w: "sweep_one pr ?g (world_now c) = (Inr (), w)" "gb_view (store w) = gb_view (store ?we)"
    using demo_close [of pr] by (auto simp: c_def)
  define d where "d = \<lparr>world_now = w, clients = ?cl, sweeping = []\<rparr>"
  define e where "e = \<lparr>world_now = ?we, clients = ?cl, sweeping = []\<rparr>"
  obtain g p w' where w': "transaction (join_write 1000 2 5 (?g, 0)) ?we = (Inr (g, p), w')"
    "gb_OrganizerID g = None" "map gb_Status (group_buys (store w')) = [GroupBuyMet]"
    using demo_write by (elim exE conjE) (rule that)
  define f where "f = \<lparr>world_now = w', clients = (\<lambda>_. Reading 1)(0 := Finished (Inr (g, p))), sweeping = []\<rparr>"
  have told: "notifyOrganizerProgress pr g w' = (Inr (), w')"
    using w'(2) by (simp add: notifyOrganizerProgress_def ret_def)
  have "race_step lone_request pr race0 a"
    using race_step.read_ok [of race0 0 1 lone_request ?g 0] demo_read
    by (simp add: race0_def a_def lone_request_def join_quantity_def)
  moreover have "race_step lone_request pr a b"
    using race_step.elsewhere [of ?late a lone_request pr] by (simp add: a_def b_def)
  moreover have "race_step lone_request pr b c"
    using race_step.sweep_begins [of b "[?g]"] demo_due by (simp add: b_def c_def)
  moreover have "race_step lone_request pr c d"
    using race_step.sweep_closes [of c ?g "[]" pr "Inr ()" w lone_request] w by (simp add: c_def d_def)
  moreover have "race_step lone_request pr d e"
    using race_step.elsewhere [of ?we d lone_request pr] w(2) by (simp add: d_def e_def)
  moreover have "race_step lone_request pr e f"
    using race_step.write_ok [of e 0 1 ?g 0 lone_request g p w' pr] w'(1) told
    by (simp add: e_def f_def lone_request_def join_quantity_def)
  ultimately have "rtranclp (race_step lone_request pr) race0 e" "rtranclp (race_step lone_request pr) e f"
    by (meson rtranclp.rtrancl_into_rtrancl rtranclp.rtrancl_refl)+
  moreover have "map gb_Status (group_buys (store (world_now e))) = [GroupBuyExpired]"
    by (simp add: e_def race_code)
  ultimately show ?thesis using w'(3) by (intro exI [of _ e] exI [of _ f]) (simp add: f_def)
qed

end
