(* ===== verification/Auth_Service.thy ===== *)
theory Auth_Service
  imports Accounts
begin

text \<open>
  \<open>service/auth.go\<close>: registration, login with lockout and CAPTCHA, sessions, password change.

  bcrypt is a parameter (\<open>bcrypt_generate salt password cost\<close>, with the 16 random bytes it salts
  with, and \<open>bcrypt_compare hash password\<close>), and so are the rune classes of package \<open>unicode\<close> and
  PostgreSQL's \<open>LOWER\<close>. \<open>bcrypt_ok\<close> is what the code relies on: a hash accepts its own password.
\<close>

section \<open>Settings, tokens\<close>

record auth_settings =
  SessionInactivity :: duration
  SessionAbsoluteTTL :: duration
  LockoutThreshold :: int
  LockoutDuration :: duration
  CaptchaThreshold :: int
  CaptchaTTL :: duration
  BcryptCost :: int
  CookieSecure :: bool

text \<open>\<open>bcrypt.DefaultCost\<close> is the argument.\<close>

definition DefaultAuthSettings :: "int \<Rightarrow> auth_settings" where
  "DefaultAuthSettings bcrypt_DefaultCost =
     \<lparr>SessionInactivity = 30 * minute, SessionAbsoluteTTL = 12 * hour, LockoutThreshold = 5,
      LockoutDuration = 15 * minute, CaptchaThreshold = 2, CaptchaTTL = 5 * minute,
      BcryptCost = bcrypt_DefaultCost, CookieSecure = True\<rparr>"

record auth_env =
  bcrypt_generate :: "string \<Rightarrow> string \<Rightarrow> int \<Rightarrow> string option"
  bcrypt_compare :: "string \<Rightarrow> string \<Rightarrow> bool"
  env_unicode :: unicode
  pg_LOWER :: "string \<Rightarrow> string"

definition bcrypt_ok :: "auth_env \<Rightarrow> bool" where
  "bcrypt_ok env \<longleftrightarrow> (\<forall>salt pw cost h. bcrypt_generate env salt pw cost = Some h \<longrightarrow> bcrypt_compare env h pw)"

text \<open>\<open>base64.RawURLEncoding\<close>.\<close>

definition base64_char :: "nat \<Rightarrow> char" where
  "base64_char n = char_of (if n < 26 then 65 + n else if n < 52 then 71 + n else if n < 62 then n - 4
     else if n = 62 then 45 else 95)"

fun sextets :: "nat list \<Rightarrow> nat list" where
  "sextets [] = []"
| "sextets [a] = [a div 4, a mod 4 * 16]"
| "sextets [a, b] = [a div 4, a mod 4 * 16 + b div 16, b mod 16 * 4]"
| "sextets (a # b # c # rest) = a div 4 # (a mod 4 * 16 + b div 16) # (b mod 16 * 4 + c div 64) # c mod 64 # sextets rest"

definition base64url :: "string \<Rightarrow> string" where
  "base64url s = map base64_char (sextets (map of_char s))"

definition generateToken :: "nat \<Rightarrow> string action" where
  "generateToken byteLen = bindE (draw_bytes byteLen) (\<lambda>buf. ret (base64url buf))"

definition randInt :: "int \<Rightarrow> int \<Rightarrow> int action" where
  "randInt lo hi = bindE (draw_below (nat (hi - lo + 1))) (\<lambda>n. ret (int n + lo))"

section \<open>Registration and passwords\<close>

definition hash_password :: "auth_env \<Rightarrow> auth_settings \<Rightarrow> string \<Rightarrow> string action" where
  "hash_password env cfg pw =
     bindE (draw_bytes 16) (\<lambda>salt.
     case bcrypt_generate env salt pw (BcryptCost cfg) of None \<Rightarrow> fail OtherError | Some h \<Rightarrow> ret h)"

definition new_user :: "string \<Rightarrow> string \<Rightarrow> user" where
  "new_user name hash =
     \<lparr>u_ID = uuid_nil, u_Username = name, u_PasswordHash = hash, u_IsBlacklisted = False,
      u_BlacklistReason = [], u_IsAdmin = False, u_MustRotatePassword = False, u_AnonymizedAt = None,
      u_FailedAttempts = 0, u_LockedUntil = None, u_LastLoginAt = None, u_CreatedAt = zero_time,
      u_UpdatedAt = zero_time\<rparr>"

definition AuthService_Register :: "auth_env \<Rightarrow> auth_settings \<Rightarrow> string \<Rightarrow> string \<Rightarrow> user action" where
  "AuthService_Register env cfg username password =
     (let name = trim_space username in
      if length name < 3 \<or> length name > 64 then fail ErrInvalidInput else
      case ValidatePassword (env_unicode env) password of Inl e \<Rightarrow> fail e | Inr _ \<Rightarrow>
      attempt (users_GetByUsername (pg_LOWER env) name) (\<lambda>r.
      case r of
        Inr _ \<Rightarrow> fail ErrConflict
      | Inl e \<Rightarrow>
          if e \<noteq> ErrNotFound then fail e else
          bindE (hash_password env cfg password) (\<lambda>hash. users_Create (new_user name hash))))"

definition AuthService_ChangePassword ::
  "auth_env \<Rightarrow> auth_settings \<Rightarrow> uuid \<Rightarrow> string \<Rightarrow> string \<Rightarrow> unit action" where
  "AuthService_ChangePassword env cfg userID current next =
     bindE (users_GetByID userID) (\<lambda>user.
     if \<not> bcrypt_compare env (u_PasswordHash user) current then fail ErrCredentialInvalid else
     case ValidatePassword (env_unicode env) next of Inl e \<Rightarrow> fail e | Inr _ \<Rightarrow>
     bindE (hash_password env cfg next) (\<lambda>hash. users_UpdatePasswordHash userID hash))"

section \<open>CAPTCHA challenges\<close>

definition AuthService_IssueCaptcha :: "auth_settings \<Rightarrow> captcha_challenge action" where
  "AuthService_IssueCaptcha cfg =
     bindE (randInt 1 9) (\<lambda>a.
     bindE (randInt 1 9) (\<lambda>b.
     bindE (generateToken 16) (\<lambda>tok.
     bindE now (\<lambda>t.
     let c = \<lparr>c_Token = tok, c_Question = ''What is '' @ go_decimal a @ '' + '' @ go_decimal b @ ''?'',
              c_Answer = go_decimal (a + b), c_CreatedAt = t, c_ExpiresAt = t + CaptchaTTL cfg,
              c_Consumed = False\<rparr> in
     bindE (captchas_Create c) (\<lambda>_. ret c)))))"

definition AuthService_verifyCaptcha :: "string \<Rightarrow> string \<Rightarrow> time \<Rightarrow> unit action" where
  "AuthService_verifyCaptcha tok answer t =
     attempt (captchas_Get tok) (\<lambda>r.
     case r of
       Inl e \<Rightarrow> fail (if e = ErrNotFound then ErrCaptchaInvalid else e)
     | Inr c \<Rightarrow>
         if c_Consumed c \<or> t > c_ExpiresAt c then fail ErrCaptchaInvalid
         else if trim_space answer \<noteq> c_Answer c then ignoring (captchas_Consume tok) (fail ErrCaptchaInvalid)
         else bindE (captchas_Consume tok) (\<lambda>_. ret ()))"

section \<open>Login and sessions\<close>

record login_input =
  li_Username :: string
  li_Password :: string
  li_CaptchaToken :: string
  li_CaptchaAnswer :: string
  li_UserAgent :: string
  li_IP :: string

record login_result =
  lr_Session :: session
  lr_User :: user

text \<open>The CAPTCHA gate, the accounting of a wrong password, and the session of a right one.\<close>

definition captcha_gate :: "user \<Rightarrow> login_input \<Rightarrow> time \<Rightarrow> unit action" where
  "captcha_gate user inp t =
     (if CaptchaRequired user then
        if li_CaptchaToken inp = [] \<or> li_CaptchaAnswer inp = [] then fail ErrCaptchaRequired
        else AuthService_verifyCaptcha (li_CaptchaToken inp) (li_CaptchaAnswer inp) t
      else ret ())"

definition wrong_password :: "auth_settings \<Rightarrow> user \<Rightarrow> time \<Rightarrow> 'a action" where
  "wrong_password cfg user t =
     (let lockUntil = (if u_FailedAttempts user + 1 \<ge> LockoutThreshold cfg then Some (t + LockoutDuration cfg) else None)
      in ignoring (users_RecordFailedLogin (u_ID user) lockUntil)
           (fail (if lockUntil \<noteq> None then ErrLocked else ErrCredentialInvalid)))"

definition open_session :: "auth_settings \<Rightarrow> user \<Rightarrow> login_input \<Rightarrow> time \<Rightarrow> login_result action" where
  "open_session cfg user inp t =
     ignoring (users_ResetFailedLogin (u_ID user) t)
     (bindE (generateToken 32) (\<lambda>sessID.
      let sess = \<lparr>s_ID = sessID, s_UserID = u_ID user, s_CreatedAt = t, s_LastActivityAt = t,
                  s_ExpiresAt = t + SessionInactivity cfg, s_UserAgent = li_UserAgent inp, s_IP = li_IP inp\<rparr> in
      bindE (sessions_Create sess) (\<lambda>_.
      ret \<lparr>lr_Session = sess,
           lr_User = user\<lparr>u_FailedAttempts := 0, u_LockedUntil := None, u_LastLoginAt := Some t\<rparr>\<rparr>)))"

definition AuthService_Login :: "auth_env \<Rightarrow> auth_settings \<Rightarrow> login_input \<Rightarrow> login_result action" where
  "AuthService_Login env cfg inp =
     bindE now (\<lambda>t.
     attempt (users_GetByUsername (pg_LOWER env) (trim_space (li_Username inp))) (\<lambda>r.
     case r of
       Inl e \<Rightarrow> fail (if e = ErrNotFound then ErrCredentialInvalid else e)
     | Inr user \<Rightarrow>
         if IsLocked user t then fail ErrLocked else
         bindE (captcha_gate user inp t) (\<lambda>_.
         if \<not> bcrypt_compare env (u_PasswordHash user) (li_Password inp) then wrong_password cfg user t
         else open_session cfg user inp t)))"

definition AuthService_ResolveSession :: "auth_settings \<Rightarrow> string \<Rightarrow> (user \<times> session) action" where
  "AuthService_ResolveSession cfg sessionID =
     (if sessionID = [] then fail ErrUnauthorized else
      attempt (sessions_Get sessionID) (\<lambda>r.
      case r of
        Inl e \<Rightarrow> fail (if e = ErrNotFound then ErrUnauthorized else e)
      | Inr sess \<Rightarrow>
          bindE now (\<lambda>t.
          if t > s_ExpiresAt sess then ignoring (sessions_Delete sessionID) (fail ErrSessionExpired)
          else if t - s_CreatedAt sess > SessionAbsoluteTTL cfg
          then ignoring (sessions_Delete sessionID) (fail ErrSessionExpired)
          else
          bindE (users_GetByID (s_UserID sess)) (\<lambda>user.
          let newExpires = t + SessionInactivity cfg in
          ignoring (sessions_Touch (s_ID sess) t newExpires)
            (ret (user, sess\<lparr>s_LastActivityAt := t, s_ExpiresAt := newExpires\<rparr>))))))"

definition AuthService_Logout :: "string \<Rightarrow> unit action" where
  "AuthService_Logout sessionID = (if sessionID = [] then ret () else sessions_Delete sessionID)"

section \<open>What the operations did\<close>

lemma captchas_Consume_returns [returns]:
  "captchas_Consume tok w = (Inr x, w') \<longleftrightarrow>
     \<not> outage w (stmts w) \<and> (\<exists>c \<in> set (captchas (store w)). c_Token c = tok \<and> \<not> c_Consumed c) \<and>
     w' = w\<lparr>store := (store w)\<lparr>captchas := update_where (\<lambda>c. c_Token c = tok \<and> \<not> c_Consumed c)
              (\<lambda>c. c\<lparr>c_Consumed := True\<rparr>) (captchas (store w))\<rparr>,
            readings := Suc (readings w), stmts := Suc (stmts w)\<rparr>"
  by (auto simp: captchas_Consume_def sql_returns split: if_splits)

text \<open>A CAPTCHA that verified was open, unexpired and answered, and is spent.\<close>

definition spend :: "string \<Rightarrow> db \<Rightarrow> db" where
  "spend tok d = d\<lparr>captchas := update_where (\<lambda>c. c_Token c = tok \<and> \<not> c_Consumed c)
     (\<lambda>c. c\<lparr>c_Consumed := True\<rparr>) (captchas d)\<rparr>"

lemma spend_frame [simp]: "users (spend tok d) = users d" "sessions (spend tok d) = sessions d"
  by (simp_all add: spend_def)

lemma spend_spent: "\<forall>c \<in> set (captchas (spend tok d)). c_Token c = tok \<longrightarrow> c_Consumed c"
  by (simp add: spend_def ball_update_where)

lemma verifyCaptcha_returns:
  assumes "AuthService_verifyCaptcha tok answer t w = (Inr x, w')"
  shows "(\<exists>c \<in> set (captchas (store w)). c_Token c = tok \<and> \<not> c_Consumed c \<and> t \<le> c_ExpiresAt c \<and>
            trim_space answer = c_Answer c) \<and>
         store w' = spend tok (store w)"
proof -
  obtain c w1 where c: "row_by c_Token tok (captchas (store w)) = Some c"
    and w1: "w1 = w\<lparr>readings := Suc (readings w), stmts := Suc (stmts w)\<rparr>"
    and r: "(if c_Consumed c \<or> t > c_ExpiresAt c then fail ErrCaptchaInvalid
         else if trim_space answer \<noteq> c_Answer c then ignoring (captchas_Consume tok) (fail ErrCaptchaInvalid)
         else bindE (captchas_Consume tok) (\<lambda>_. ret ())) w1 = (Inr x, w')"
    using assms unfolding AuthService_verifyCaptcha_def attempt_fail_returns captchas_Get_returns by blast
  from r show ?thesis
    using row_by_Some [OF c] w1
    by (auto simp: returns spend_def split: if_splits)
qed

lemma sessions_Create_returns [returns]:
  "sessions_Create s w = (Inr x, w') \<longleftrightarrow>
     \<not> outage w (stmts w) \<and> session_insertable (store w) s \<and>
     w' = w\<lparr>store := (store w)\<lparr>sessions := sessions (store w) @ [s]\<rparr>,
            readings := Suc (readings w), stmts := Suc (stmts w)\<rparr>"
  by (auto simp: sessions_Create_def sql_returns split: if_splits)

definition reset_user :: "uuid \<Rightarrow> time \<Rightarrow> time \<Rightarrow> db \<Rightarrow> db" where
  "reset_user i t t' d = d\<lparr>users := update_where (\<lambda>u. u_ID u = i)
     (\<lambda>u. u\<lparr>u_FailedAttempts := 0, u_LockedUntil := None, u_LastLoginAt := Some t, u_UpdatedAt := t'\<rparr>) (users d)\<rparr>"

lemma ResetFailedLogin_store:
  "users_ResetFailedLogin i t w = (r, w') \<Longrightarrow>
   store w' = store w \<or> (\<exists>t'. store w' = reset_user i t t' (store w))"
  by (auto simp: users_ResetFailedLogin_def sql_def reset_user_def Let_def split: if_splits)

lemma generateToken_readonly [store_rules]: "readonly (generateToken n)"
  unfolding generateToken_def by (intro store_rules)

lemma randInt_readonly [store_rules]: "readonly (randInt a b)"
  unfolding randInt_def by (intro store_rules)

lemma hash_password_readonly [store_rules]: "readonly (hash_password env cfg pw)"
  unfolding hash_password_def by (intro store_rules)

lemma open_session_returns:
  assumes "open_session cfg user inp t w = (Inr res, w')"
  shows "s_UserID (lr_Session res) = u_ID user \<and> s_CreatedAt (lr_Session res) = t \<and>
     s_ExpiresAt (lr_Session res) = t + SessionInactivity cfg \<and>
     (\<exists>d. (d = store w \<or> (\<exists>t'. d = reset_user (u_ID user) t t' (store w))) \<and>
          session_insertable d (lr_Session res) \<and>
          store w' = d\<lparr>sessions := sessions d @ [lr_Session res]\<rparr>)"
proof -
  obtain r1 w1 w2 tok where w1: "users_ResetFailedLogin (u_ID user) t w = (r1, w1)"
    and w2: "generateToken 32 w1 = (Inr tok, w2)"
    and res: "s_UserID (lr_Session res) = u_ID user \<and> s_CreatedAt (lr_Session res) = t \<and>
       s_ExpiresAt (lr_Session res) = t + SessionInactivity cfg"
      "session_insertable (store w2) (lr_Session res)"
      "store w' = (store w2)\<lparr>sessions := sessions (store w2) @ [lr_Session res]\<rparr>"
    using assms by (auto simp: open_session_def ignoring_returns bindE_returns let_returns ret_returns sessions_Create_returns)
  then show ?thesis
    using ResetFailedLogin_store [OF w1] readonlyD [OF generateToken_readonly w2] by metis
qed

lemma wrong_password_fails: "wrong_password cfg user t w \<noteq> (Inr x, w')"
  by (simp add: wrong_password_def ignoring_returns fail_returns)

lemma captcha_gate_returns:
  assumes "captcha_gate user inp t w = (Inr x, w')"
  shows "(store w' = store w \<and> \<not> CaptchaRequired user) \<or>
     (CaptchaRequired user \<and> store w' = spend (li_CaptchaToken inp) (store w) \<and>
      (\<exists>c \<in> set (captchas (store w)). c_Token c = li_CaptchaToken inp \<and> \<not> c_Consumed c \<and>
         t \<le> c_ExpiresAt c \<and> trim_space (li_CaptchaAnswer inp) = c_Answer c))"
  using assms verifyCaptcha_returns [of "li_CaptchaToken inp" "li_CaptchaAnswer inp" t w x w']
  by (auto simp: captcha_gate_def returns split: if_splits)

definition login_row :: "auth_env \<Rightarrow> login_input \<Rightarrow> db \<Rightarrow> user option" where
  "login_row env inp d =
     row_by (\<lambda>u. pg_LOWER env (u_Username u)) (pg_LOWER env (trim_space (li_Username inp))) (users d)"

lemma Login_returns:
  "AuthService_Login env cfg inp w = (Inr res, w') \<longleftrightarrow>
     (\<exists>u w1. \<not> outage w (stmts w) \<and> login_row env inp (store w) = Some u \<and> \<not> IsLocked u (clock w (readings w)) \<and>
        captcha_gate u inp (clock w (readings w))
          (w\<lparr>readings := Suc (Suc (readings w)), stmts := Suc (stmts w)\<rparr>) = (Inr (), w1) \<and>
        bcrypt_compare env (u_PasswordHash u) (li_Password inp) \<and>
        open_session cfg u inp (clock w (readings w)) w1 = (Inr res, w'))"
  by (auto simp: AuthService_Login_def bindE_returns now_returns attempt_fail_returns
      users_GetByUsername_returns if_returns fail_returns wrong_password_fails login_row_def)

text \<open>The errors of the gate and of the session are not \<open>ErrLocked\<close>.\<close>

lemma captcha_gate_errors: "errors_in {ErrCaptchaRequired, ErrCaptchaInvalid, DBError, ErrNotFound} (captcha_gate user inp t)"
  unfolding captcha_gate_def AuthService_verifyCaptcha_def captchas_Get_def captchas_Consume_def
  by (intro error_rules errors_attempt errors_sql
      errors_attempt [OF errors_query [where E = "{DBError, ErrNotFound}"]])
    (auto split: option.splits if_splits intro!: error_rules errors_sql)

lemma open_session_errors: "errors_in {OtherError, DBError} (open_session cfg user inp t)"
  unfolding open_session_def generateToken_def sessions_Create_def Let_def
  by (intro error_rules errors_sql) (auto split: if_splits)

lemma captcha_gate_oracles [oracle_rules]: "keeps_oracles (captcha_gate user inp t)"
  unfolding captcha_gate_def AuthService_verifyCaptcha_def captchas_Get_def captchas_Consume_def
  by (intro oracle_rules)

section \<open>The lockout invariant\<close>

text \<open>
  An account whose counter has reached the threshold carries a lock. It is kept by every operation,
  also when statements fail in between, because the counter and the lock are written by one
  statement.
\<close>

definition lockout_inv :: "auth_settings \<Rightarrow> db \<Rightarrow> bool" where
  "lockout_inv cfg d \<longleftrightarrow> distinct_keys u_ID (users d) \<and>
     (\<forall>u \<in> set (users d). LockoutThreshold cfg \<le> u_FailedAttempts u \<longrightarrow> u_LockedUntil u \<noteq> None)"

lemma lockout_inv_users: "users d' = users d \<Longrightarrow> lockout_inv cfg d' = lockout_inv cfg d"
  by (simp add: lockout_inv_def)

text \<open>A write that rewrites users in place keeps it if it keeps it on each row.\<close>

lemma lockout_inv_update:
  assumes "lockout_inv cfg d" and "\<And>u. p u \<Longrightarrow> u_ID (f u) = u_ID u"
    and "\<And>u. u \<in> set (users d) \<Longrightarrow> p u \<Longrightarrow> LockoutThreshold cfg \<le> u_FailedAttempts (f u) \<Longrightarrow> u_LockedUntil (f u) \<noteq> None"
  shows "lockout_inv cfg (d\<lparr>users := update_where p f (users d)\<rparr>)"
  using assms by (auto simp: lockout_inv_def distinct_keys_update ball_update_where)

lemma Consume_lockout [store_rules]: "preserves (lockout_inv cfg) (captchas_Consume tok)"
  unfolding captchas_Consume_def by (rule preserves_sql) (auto simp: lockout_inv_def split: if_splits)

lemma captcha_users: "captcha_gate user inp t w = (r, w') \<Longrightarrow> users (store w') = users (store w)"
proof -
  have "preserves (\<lambda>d. users d = us) (captchas_Consume tok)" for us tok
    unfolding captchas_Consume_def by (rule preserves_sql) (auto split: if_splits)
  then have "preserves (\<lambda>d. users d = us) (captcha_gate user inp t)" for us
    unfolding captcha_gate_def AuthService_verifyCaptcha_def by (intro store_rules)
  then show "captcha_gate user inp t w = (r, w') \<Longrightarrow> users (store w') = users (store w)"
    using preservesD by blast
qed

lemma RecordFailed_lockout:
  assumes "LockoutThreshold cfg \<le> u_FailedAttempts u + 1 \<Longrightarrow> lockUntil \<noteq> None"
  shows "hoare (\<lambda>d. lockout_inv cfg d \<and> u \<in> set (users d)) (users_RecordFailedLogin (u_ID u) lockUntil)
           (\<lambda>_. lockout_inv cfg)"
  unfolding users_RecordFailedLogin_def
proof (rule hoare_sql)
  fix t d
  assume d: "lockout_inv cfg d \<and> u \<in> set (users d)"
  then have "x = u" if "x \<in> set (users d)" "u_ID x = u_ID u" for x
    using that by (auto simp: lockout_inv_def dest: distinct_keys_inj)
  then have "lockout_inv cfg (d\<lparr>users := update_where (\<lambda>x. u_ID x = u_ID u)
       (\<lambda>u. u\<lparr>u_FailedAttempts := u_FailedAttempts u + 1,
              u_LockedUntil := (case lockUntil of None \<Rightarrow> u_LockedUntil u | Some l \<Rightarrow> Some l),
              u_UpdatedAt := t\<rparr>) (users d)\<rparr>)"
    using d assms by (intro lockout_inv_update) (force split: option.splits)+
  then show "case Inr ((), d\<lparr>users := update_where (\<lambda>x. u_ID x = u_ID u)
       (\<lambda>u. u\<lparr>u_FailedAttempts := u_FailedAttempts u + 1,
              u_LockedUntil := (case lockUntil of None \<Rightarrow> u_LockedUntil u | Some l \<Rightarrow> Some l),
              u_UpdatedAt := t\<rparr>) (users d)\<rparr>) of
        Inl e \<Rightarrow> lockout_inv cfg d | Inr (x, d') \<Rightarrow> lockout_inv cfg d'"
    by simp
qed simp

lemma reset_lockout: "0 < LockoutThreshold cfg \<Longrightarrow> lockout_inv cfg d \<Longrightarrow> lockout_inv cfg (reset_user i t t' d)"
  unfolding reset_user_def by (rule lockout_inv_update) auto

lemma session_writes_lockout [store_rules]:
  "preserves (lockout_inv cfg) (sessions_Create s)" "preserves (lockout_inv cfg) (sessions_Touch k t e)"
  "preserves (lockout_inv cfg) (sessions_Delete k)" "preserves (lockout_inv cfg) (captchas_Create c)"
  unfolding sessions_Create_def sessions_Touch_def sessions_Delete_def captchas_Create_def
  by (rule preserves_sql; auto simp: lockout_inv_def split: if_splits)+

lemma token_preserves [store_rules]:
  "preserves I (generateToken n)" "preserves I (randInt a b)" "preserves I (hash_password env cfg pw)"
  by (simp_all add: readonly_preserves generateToken_readonly randInt_readonly hash_password_readonly)

lemma open_session_lockout:
  assumes "0 < LockoutThreshold cfg"
  shows "preserves (lockout_inv cfg) (open_session cfg user inp t)"
proof -
  have "preserves (lockout_inv cfg) (users_ResetFailedLogin i t)" for i
    using reset_lockout [OF assms] by (intro preservesI) (metis ResetFailedLogin_store)
  then show ?thesis
    unfolding open_session_def Let_def by (intro store_rules)
qed

lemma wrong_password_lockout:
  "hoare (\<lambda>d. lockout_inv cfg d \<and> u \<in> set (users d)) (wrong_password cfg u t) (\<lambda>_. lockout_inv cfg)"
  unfolding wrong_password_def Let_def
  by (rule hoare_ignoring [OF RecordFailed_lockout hoare_fail]) auto

lemma Login_lockout:
  assumes "0 < LockoutThreshold cfg"
  shows "preserves (lockout_inv cfg) (AuthService_Login env cfg inp)"
proof -
  let ?known = "\<lambda>u d. lockout_inv cfg d \<and> u \<in> set (users d)"
  have look: "hoare (lockout_inv cfg) (users_GetByUsername pl n)
      (\<lambda>r d. case r of Inl _ \<Rightarrow> lockout_inv cfg d | Inr u \<Rightarrow> ?known u d)" for pl n
    by (rule hoareI) (auto simp: users_GetByUsername_returns readonlyD [OF account_reads_readonly(2)]
        dest: row_by_Some split: sum.splits)
  have gate: "hoare (?known u) (captcha_gate u inp t)
      (\<lambda>r d. case r of Inl e \<Rightarrow> lockout_inv cfg d | Inr _ \<Rightarrow> ?known u d)" for u t
    by (rule hoareI) (auto simp: lockout_inv_def captcha_users split: sum.splits)
  have right: "hoare (?known u) (open_session cfg u inp t) (\<lambda>_. lockout_inv cfg)" for u t
    by (rule hoare_weaken [OF open_session_lockout [OF assms, unfolded preserves_hoare]]) simp_all
  have "hoare (lockout_inv cfg) (AuthService_Login env cfg inp) (\<lambda>_. lockout_inv cfg)"
    unfolding AuthService_Login_def
    by (rule hoare_bindE [where Q = "\<lambda>_. lockout_inv cfg"], rule hoare_readonly [OF readonly_now])
      (auto split: sum.splits intro!: hoare_attempt_cases [OF look] hoare_fail hoare_bindE [OF gate] hoare_if right wrong_password_lockout)
  then show ?thesis by (simp add: preserves_hoare)
qed

lemma Register_lockout:
  assumes "0 < LockoutThreshold cfg"
  shows "preserves (lockout_inv cfg) (AuthService_Register env cfg name pw)"
proof -
  have "preserves (lockout_inv cfg) (users_Create (new_user n h))" for n h
    unfolding users_Create_def Let_def
    by (intro store_rules preserves_sql)
      (use assms in \<open>auto simp: lockout_inv_def user_insertable_def fresh_key_iff distinct_keys_append new_user_def split: if_splits\<close>)
  then show ?thesis
    unfolding AuthService_Register_def Let_def by (intro store_rules)
qed

lemma other_operations_lockout:
  "preserves (lockout_inv cfg) (AuthService_ChangePassword env cfg i old new)"
  "preserves (lockout_inv cfg) (AuthService_IssueCaptcha cfg)"
  "preserves (lockout_inv cfg) (AuthService_ResolveSession cfg k)"
  "preserves (lockout_inv cfg) (AuthService_Logout k)"
proof -
  have "preserves (lockout_inv cfg) (users_UpdatePasswordHash i h)" for h
    unfolding users_UpdatePasswordHash_def
    by (rule preserves_sql) (auto split: if_splits intro!: lockout_inv_update, simp add: lockout_inv_def)
  then show "preserves (lockout_inv cfg) (AuthService_ChangePassword env cfg i old new)"
    unfolding AuthService_ChangePassword_def by (intro store_rules)
qed (unfold AuthService_IssueCaptcha_def AuthService_ResolveSession_def AuthService_Logout_def Let_def, (intro store_rules)+)

text \<open>The requests that reach the service, and how each is served.\<close>

datatype auth_call =
    CallRegister string string
  | CallLogin login_input
  | CallResolve string
  | CallChangePassword uuid string string
  | CallLogout string
  | CallCaptcha

fun serve_auth :: "auth_env \<Rightarrow> auth_settings \<Rightarrow> auth_call \<Rightarrow> unit action" where
  "serve_auth env cfg (CallRegister name pw) = bindE (AuthService_Register env cfg name pw) (\<lambda>_. ret ())"
| "serve_auth env cfg (CallLogin inp) = bindE (AuthService_Login env cfg inp) (\<lambda>_. ret ())"
| "serve_auth env cfg (CallResolve k) = bindE (AuthService_ResolveSession cfg k) (\<lambda>_. ret ())"
| "serve_auth env cfg (CallChangePassword i old new) = AuthService_ChangePassword env cfg i old new"
| "serve_auth env cfg (CallLogout k) = AuthService_Logout k"
| "serve_auth env cfg CallCaptcha = bindE (AuthService_IssueCaptcha cfg) (\<lambda>_. ret ())"

lemma serve_auth_lockout:
  "0 < LockoutThreshold cfg \<Longrightarrow> preserves (lockout_inv cfg) (serve_auth env cfg call)"
  by (cases call) (auto intro!: store_rules Register_lockout Login_lockout other_operations_lockout)

section \<open>Sessions\<close>

lemma ResolveSession_returns:
  "AuthService_ResolveSession cfg k w = (Inr (u, s'), w') \<Longrightarrow>
     \<exists>s t. row_by s_ID k (sessions (store w)) = Some s \<and> t = clock w (Suc (readings w)) \<and>
        t \<le> s_ExpiresAt s \<and> t - s_CreatedAt s \<le> SessionAbsoluteTTL cfg \<and>
        row_by u_ID (s_UserID s) (users (store w)) = Some u \<and>
        s' = s\<lparr>s_LastActivityAt := t, s_ExpiresAt := t + SessionInactivity cfg\<rparr>"
  unfolding AuthService_ResolveSession_def if_returns attempt_fail_returns
  by (auto simp: returns split: if_splits)

text \<open>Serving requests neither moves the birth of a session nor gives its id to a second one.\<close>

definition births :: "db \<Rightarrow> (string \<times> time) set" where
  "births d = (\<lambda>s. (s_ID s, s_CreatedAt s)) ` set (sessions d)"

lemma Resolve_births: "preserves (\<lambda>d. births d \<subseteq> B) (AuthService_ResolveSession cfg k)"
proof -
  have "preserves (\<lambda>d. births d \<subseteq> B) (sessions_Touch i t e)" for i t e
    unfolding sessions_Touch_def
    by (rule preserves_sql) (auto simp: births_def set_update_where split: if_splits)
  moreover have "preserves (\<lambda>d. births d \<subseteq> B) (sessions_Delete i)" for i
    unfolding sessions_Delete_def by (rule preserves_sql) (auto simp: births_def)
  ultimately show ?thesis
    unfolding AuthService_ResolveSession_def Let_def by (intro store_rules)
qed

section \<open>Registration\<close>

lemma users_GetByUsername_missing:
  "users_GetByUsername pl n w = (Inl ErrNotFound, w') \<Longrightarrow>
     row_by (\<lambda>u. pl (u_Username u)) (pl n) (users (store w)) = None \<and> store w' = store w"
  by (auto simp: users_GetByUsername_def query_def sql_def Let_def split: if_splits sum.splits option.splits)

lemma users_Create_returns:
  assumes "users_Create u w = (Inr u', w')"
  shows "user_insertable (store w) u' \<and> store w' = (store w)\<lparr>users := users (store w) @ [u'\<lparr>u_AnonymizedAt := None\<rparr>]\<rparr> \<and>
     (\<exists>i t. u' = u\<lparr>u_ID := i, u_CreatedAt := t, u_UpdatedAt := t\<rparr>)"
proof -
  let ?key = "if u_ID u = uuid_nil then new_uuid else ret (u_ID u)"
  obtain i w1 where i: "?key w = (Inr i, w1)"
    and rest: "bindE now (\<lambda>t. let u' = u\<lparr>u_ID := i, u_CreatedAt := t, u_UpdatedAt := t\<rparr> in
       bindE (sql (\<lambda>_ d. if user_insertable d u' then Inr ((), d\<lparr>users := users d @ [u'\<lparr>u_AnonymizedAt := None\<rparr>]\<rparr>)
         else Inl DBError)) (\<lambda>_. ret u')) w1 = (Inr u', w')"
    using assms unfolding users_Create_def by (subst (asm) bindE_returns) blast
  have "readonly ?key" by (intro store_rules)
  then have "store w1 = store w" using i by (rule readonlyD)
  then show ?thesis
    using rest by (auto simp: Let_def bindE_returns now_returns sql_returns ret_returns split: if_splits)
qed

lemma Register_returns:
  assumes "AuthService_Register env cfg name pw w = (Inr u, w')"
  shows "\<exists>salt hash. row_by (\<lambda>u. pg_LOWER env (u_Username u)) (pg_LOWER env (trim_space name)) (users (store w)) = None \<and>
     bcrypt_generate env salt pw (BcryptCost cfg) = Some hash \<and> u_PasswordHash u = hash \<and>
     u_Username u = trim_space name \<and> \<not> u_IsAdmin u \<and> u_FailedAttempts u = 0 \<and> u_LockedUntil u = None \<and>
     store w' = (store w)\<lparr>users := users (store w) @ [u]\<rparr>"
proof -
  let ?find = "users_GetByUsername (pg_LOWER env) (trim_space name)"
  obtain r1 w1 where r1: "?find w = (r1, w1)" by (cases "?find w")
  have "(case r1 of Inr _ \<Rightarrow> fail ErrConflict
      | Inl e \<Rightarrow> if e \<noteq> ErrNotFound then fail e else
          bindE (hash_password env cfg pw) (\<lambda>hash. users_Create (new_user (trim_space name) hash))) w1 = (Inr u, w')"
    using assms r1 by (auto simp: AuthService_Register_def Let_def attempt_def fail_def split: if_splits sum.splits)
  then obtain w2 hash where find: "?find w = (Inl ErrNotFound, w1)" and hash: "hash_password env cfg pw w1 = (Inr hash, w2)"
    and new: "users_Create (new_user (trim_space name) hash) w2 = (Inr u, w')"
    using r1 by (cases r1) (auto simp: fail_returns bindE_returns split: if_splits)
  then show ?thesis
    using users_GetByUsername_missing [OF find] readonlyD [OF hash_password_readonly hash] users_Create_returns [OF new]
    by (auto simp: hash_password_def bindE_returns ret_returns fail_returns new_user_def split: option.splits)
qed

lemma open_session_calm:
  assumes "calm w" and "entropy w (drawn w) = Some f" and "u_ID u \<in> u_ID ` set (users (store w))"
    and "fresh_key s_ID (sessions (store w)) (base64url (map f [0..<32]))"
  shows "\<exists>res w'. open_session cfg u inp t w = (Inr res, w') \<and> s_UserID (lr_Session res) = u_ID u \<and>
     lr_Session res \<in> set (sessions (store w'))"
  using assms
  by (simp add: open_session_def users_ResetFailedLogin_def ignoring_def attempt_def bindE_def sql_calm generateToken_def
      draw_bytes_def ret_def sessions_Create_def session_insertable_def references_def keys_update Let_def)

section \<open>The password policy\<close>

lemma scan_password_flags:
  "hasLower (scan_password uc rs p) \<longleftrightarrow> hasLower p \<or> (\<exists>r \<in> set rs. is_lower uc r)"
  "hasUpper (scan_password uc rs p) \<longleftrightarrow> hasUpper p \<or> (\<exists>r \<in> set rs. is_upper uc r \<and> \<not> is_lower uc r)"
  "hasDigit (scan_password uc rs p) \<longleftrightarrow>
     hasDigit p \<or> (\<exists>r \<in> set rs. is_digit uc r \<and> \<not> is_lower uc r \<and> \<not> is_upper uc r)"
  "hasSymbol (scan_password uc rs p) \<longleftrightarrow>
     hasSymbol p \<or> (\<exists>r \<in> set rs. (is_punct uc r \<or> is_symbol uc r) \<and> \<not> is_lower uc r \<and> \<not> is_upper uc r \<and>
        \<not> is_digit uc r \<and> \<not> is_space uc r)"
  by (induction rs arbitrary: p) (auto simp: scan_rune_def)

section \<open>An example\<close>

text \<open>
  A toy bcrypt that stores the salted password in the clear (it has the two laws of the real one),
  the ASCII rune classes, and one registered user.
\<close>

definition toy_env :: auth_env where
  "toy_env = \<lparr>bcrypt_generate = (\<lambda>salt pw _. if length pw > 72 then None else Some (''$'' @ pw)),
     bcrypt_compare = (\<lambda>h pw. h = ''$'' @ pw), env_unicode = ascii_unicode, pg_LOWER = ascii_lower\<rparr>"

definition demo_account :: "int \<Rightarrow> user" where
  "demo_account failures = (new_user ''Alice'' ''$Harbor-Pass-1'')\<lparr>u_ID := 7, u_FailedAttempts := failures\<rparr>"

definition demo_captcha :: captcha_challenge where
  "demo_captcha = \<lparr>c_Token = ''tok'', c_Question = ''What is 2 + 3?'', c_Answer = ''5'', c_CreatedAt = 0,
     c_ExpiresAt = 300 * second, c_Consumed = False\<rparr>"

definition demo_login :: "string \<Rightarrow> login_input" where
  "demo_login pw = \<lparr>li_Username = ''alice'', li_Password = pw, li_CaptchaToken = ''tok'', li_CaptchaAnswer = ''5'',
     li_UserAgent = [], li_IP = []\<rparr>"

definition accounts_world :: "int \<Rightarrow> db world" where
  "accounts_world failures = demo_world (empty_db\<lparr>users := [demo_account failures], captchas := [demo_captcha]\<rparr>) second"

lemma toy_bcrypt_ok: "bcrypt_ok toy_env"
  by (simp add: bcrypt_ok_def toy_env_def)

lemmas auth_code = AuthService_Login_def captcha_gate_def AuthService_verifyCaptcha_def wrong_password_def
  open_session_def users_GetByUsername_def captchas_Get_def captchas_Consume_def users_RecordFailedLogin_def
  users_ResetFailedLogin_def generateToken_def sessions_Create_def session_insertable_def fresh_key_def
  references_def row_by_def CaptchaRequired_def IsLocked_def
lemmas auth_demo = demo_login_def demo_account_def demo_captcha_def accounts_world_def demo_world_def empty_db_def
  toy_env_def new_user_def

lemma plain_slices: "\<forall>b \<in> set bs. b < 128 \<Longrightarrow> rune_slices bs = map (\<lambda>b. [b]) bs"
  by (induction bs) auto

lemma trim_space_plain:
  assumes "\<forall>c \<in> set s. 32 < (of_char c :: nat) \<and> of_char c < (128 :: nat)"
  shows "trim_space s = s"
proof -
  have "\<not> white_slice [of_char c]" if "c \<in> set s" for c
    using assms that by (auto simp: white_slice_def white_space_def)
  then have "dropWhile white_slice xs = xs" if "set xs \<subseteq> (\<lambda>c. [of_char c]) ` set s" for xs
    using that by (cases xs) auto
  then show ?thesis
    using assms by (simp add: trim_space_def plain_slices comp_def rev_map)
qed

lemma trim_examples: "trim_space ''alice'' = ''alice''" "trim_space ''5'' = ''5''"
  by (rule trim_space_plain; simp)+

lemma lower_examples: "ascii_lower ''alice'' = ''alice''" "ascii_lower ''Alice'' = ''alice''"
  by (simp_all add: ascii_lower_def lower_char_def char_of_def bit_0)

lemma demo_right:
  "\<exists>res w. AuthService_Login toy_env (DefaultAuthSettings 10) (demo_login ''Harbor-Pass-1'') (accounts_world 2) = (Inr res, w)"
  by (simp add: auth_code auth_demo run_defs trim_examples lower_examples)

lemma demo_wrong:
  "\<exists>w. AuthService_Login toy_env (DefaultAuthSettings 10) (demo_login ''guess'') (accounts_world 4) = (Inl ErrLocked, w) \<and>
     calm w \<and> clock w = (\<lambda>_. second)"
  by (simp add: auth_code auth_demo run_defs trim_examples lower_examples DefaultAuthSettings_def calm_def)

lemma demo_first_failure:
  "\<exists>w. for_each (serve_auth toy_env ((DefaultAuthSettings 10)\<lparr>LockoutThreshold := 1\<rparr>)) [CallLogin (demo_login ''guess'')]
       (accounts_world 0) = (Inr (), w) \<and>
     users (store w) = [(demo_account 1)\<lparr>u_LockedUntil := Some (second + 15 * minute), u_UpdatedAt := second\<rparr>]"
  by (simp add: auth_code auth_demo run_defs trim_examples lower_examples DefaultAuthSettings_def)

section \<open>Properties\<close>

text \<open>
  C16. Nobody gets a session without passing every check. A login that succeeds is for a registered name
  (compared by PostgreSQL's LOWER after trimming), the account is not locked at that moment, the
  password matches its hash, and from the third attempt on a CAPTCHA was open, unexpired, answered
  correctly and is now spent. Exactly one session is added, for that user, expiring after the
  inactivity window; nothing but users, sessions and CAPTCHAs is touched.
\<close>

theorem login_passed_every_check:
  assumes "AuthService_Login env cfg inp w = (Inr res, w')"
  shows "\<exists>u t. t = clock w (readings w) \<and> login_row env inp (store w) = Some u \<and> \<not> IsLocked u t \<and>
     bcrypt_compare env (u_PasswordHash u) (li_Password inp) \<and>
     (2 \<le> u_FailedAttempts u \<longrightarrow>
        (\<exists>c \<in> set (captchas (store w)). c_Token c = li_CaptchaToken inp \<and> \<not> c_Consumed c \<and>
           t \<le> c_ExpiresAt c \<and> trim_space (li_CaptchaAnswer inp) = c_Answer c) \<and>
        (\<forall>c \<in> set (captchas (store w')). c_Token c = li_CaptchaToken inp \<longrightarrow> c_Consumed c)) \<and>
     sessions (store w') = sessions (store w) @ [lr_Session res] \<and>
     s_UserID (lr_Session res) = u_ID u \<and> s_ExpiresAt (lr_Session res) = t + SessionInactivity cfg \<and>
     store w' = (store w)\<lparr>users := users (store w'), sessions := sessions (store w'), captchas := captchas (store w')\<rparr>"
proof -
  define t where "t = clock w (readings w)"
  obtain u w1 where u: "login_row env inp (store w) = Some u" "\<not> IsLocked u t"
      "bcrypt_compare env (u_PasswordHash u) (li_Password inp)"
    and gate: "captcha_gate u inp t (w\<lparr>readings := Suc (Suc (readings w)), stmts := Suc (stmts w)\<rparr>) = (Inr (), w1)"
    and opened: "open_session cfg u inp t w1 = (Inr res, w')"
    using assms unfolding Login_returns t_def by blast
  note g = captcha_gate_returns [OF gate, simplified] and o = open_session_returns [OF opened]
  obtain d where d: "d = store w1 \<or> (\<exists>t'. d = reset_user (u_ID u) t t' (store w1))"
    "store w' = d\<lparr>sessions := sessions d @ [lr_Session res]\<rparr>"
    using o by blast
  have w1: "store w1 = (if CaptchaRequired u then spend (li_CaptchaToken inp) (store w) else store w)"
    using g by auto
  have "captchas (store w') = captchas (store w1)" and "sessions (store w') = sessions (store w) @ [lr_Session res]"
    using d w1 by (auto simp: reset_user_def)
  moreover have "store w' = (store w)\<lparr>users := users (store w'), sessions := sessions (store w'), captchas := captchas (store w')\<rparr>"
    using d w1 by (auto simp: reset_user_def spend_def)
  ultimately show ?thesis
    using u g o w1 spend_spent [of "li_CaptchaToken inp" "store w"]
    by (intro exI [of _ u] exI [of _ t]) (auto simp: t_def CaptchaRequired_def)
qed

theorem login_passed_every_check_witness:
  "\<exists>res w. AuthService_Login toy_env (DefaultAuthSettings 10) (demo_login ''Harbor-Pass-1'') (accounts_world 2) = (Inr res, w) \<and>
     sessions (store w) = [lr_Session res] \<and> s_UserID (lr_Session res) = 7 \<and>
     (\<exists>c \<in> set (captchas (store (accounts_world 2))). c_Token c = ''tok'' \<and> c_Answer c = ''5'')"
proof -
  obtain res w where run: "AuthService_Login toy_env (DefaultAuthSettings 10) (demo_login ''Harbor-Pass-1'')
      (accounts_world 2) = (Inr res, w)"
    using demo_right by blast
  have row: "login_row toy_env (demo_login ''Harbor-Pass-1'') (store (accounts_world 2)) = Some (demo_account 2)"
    by (simp add: login_row_def row_by_def auth_demo trim_examples lower_examples)
  show ?thesis
    using login_passed_every_check [OF run] run row
    by (intro exI [of _ res] exI [of _ w]) (auto simp: auth_demo)
qed

text \<open>
  The lockout cannot be outrun. After any list of requests to the service, with whatever statements
  failing, no account has a failure counter at the threshold without a lock on it.
\<close>

lemma counters_at_the_threshold_are_locked:
  assumes "0 < LockoutThreshold cfg" and "distinct_keys u_ID (users (store w))"
    and "\<forall>u \<in> set (users (store w)). u_FailedAttempts u = 0"
    and "for_each (serve_auth env cfg) calls w = (r, w')"
    and "u \<in> set (users (store w'))" and "LockoutThreshold cfg \<le> u_FailedAttempts u"
  shows "u_LockedUntil u \<noteq> None"
proof -
  have "lockout_inv cfg (store w)" using assms(1-3) by (auto simp: lockout_inv_def)
  then have "lockout_inv cfg (store w')"
    using preservesD [OF preserves_for_each assms(4)] serve_auth_lockout [OF assms(1)] by blast
  then show ?thesis using assms(5,6) by (simp add: lockout_inv_def)
qed

text \<open>
  C17. A locked account stays shut. When a login is answered with ErrLocked because of the failure that
  reaches the threshold, the account's row carries the lock, and until it expires every further login
  for that name, also one with the right password, is answered with ErrLocked and changes nothing.
\<close>

theorem lockout_blocks_the_right_password:
  assumes "calm w" and "calm w2"
    and "login_row env inp (store w) = Some u" and "\<not> IsLocked u (clock w (readings w))"
    and "AuthService_Login env cfg inp w = (Inl ErrLocked, w')" and "store w2 = store w'"
    and "li_Username inp' = li_Username inp"
    and "clock w2 (readings w2) < clock w (readings w) + LockoutDuration cfg"
  shows "fst (AuthService_Login env cfg inp' w2) = Inl ErrLocked \<and>
     store (snd (AuthService_Login env cfg inp' w2)) = store w2"
proof -
  define t where "t = clock w (readings w)"
  let ?w1 = "w\<lparr>readings := Suc (Suc (readings w)), stmts := Suc (stmts w)\<rparr>"
  have look: "users_GetByUsername (pg_LOWER env) (trim_space (li_Username inp)) (w\<lparr>readings := Suc (readings w)\<rparr>) = (Inr u, ?w1)"
    using assms(1,3) by (simp add: users_GetByUsername_returns login_row_def)
  obtain g w3 where g: "captcha_gate u inp t ?w1 = (g, w3)" by (cases "captcha_gate u inp t ?w1")
  have w3: "users (store w3) = users (store w)" "calm w3"
    using captcha_users [OF g] assms(1) keeps_oracles_calm [OF captcha_gate_oracles g] by simp_all
  have "g \<noteq> Inl ErrLocked" using errors_inD [OF captcha_gate_errors] g by fastforce
  then have wrong: "(wrong_password cfg u t :: login_result action) w3 = (Inl ErrLocked, w')"
    using assms(4,5) look g errors_inD [OF open_session_errors, of cfg u inp t w3]
    by (auto simp: AuthService_Login_def bindE_def attempt_def now_def t_def split: sum.splits if_splits)
  then have "u_FailedAttempts u + 1 \<ge> LockoutThreshold cfg"
    "users (store w') = update_where (\<lambda>x. u_ID x = u_ID u)
       (\<lambda>x. x\<lparr>u_FailedAttempts := u_FailedAttempts x + 1, u_LockedUntil := Some (t + LockoutDuration cfg),
              u_UpdatedAt := clock w3 (readings w3)\<rparr>) (users (store w3))"
    using w3(2) by (auto simp: wrong_password_def Let_def ignoring_returns fail_returns users_RecordFailedLogin_def
        sql_calm split: if_splits)
  then have row: "login_row env inp' (store w2) = Some (u\<lparr>u_FailedAttempts := u_FailedAttempts u + 1,
      u_LockedUntil := Some (t + LockoutDuration cfg), u_UpdatedAt := clock w3 (readings w3)\<rparr>)"
    using assms(3,6,7) w3(1) by (simp add: login_row_def row_by_update)
  then have "users_GetByUsername (pg_LOWER env) (trim_space (li_Username inp')) (w2\<lparr>readings := Suc (readings w2)\<rparr>) =
      (Inr (u\<lparr>u_FailedAttempts := u_FailedAttempts u + 1,
      u_LockedUntil := Some (t + LockoutDuration cfg), u_UpdatedAt := clock w3 (readings w3)\<rparr>),
       w2\<lparr>readings := Suc (Suc (readings w2)), stmts := Suc (stmts w2)\<rparr>)"
    using assms(2) by (simp add: users_GetByUsername_returns login_row_def)
  then show ?thesis
    using assms(8) by (simp add: AuthService_Login_def bindE_def attempt_def now_def IsLocked_def fail_def t_def)
qed

theorem lockout_blocks_the_right_password_witness:
  "\<exists>w. AuthService_Login toy_env (DefaultAuthSettings 10) (demo_login ''guess'') (accounts_world 4) = (Inl ErrLocked, w) \<and>
     fst (AuthService_Login toy_env (DefaultAuthSettings 10) (demo_login ''Harbor-Pass-1'') w) = Inl ErrLocked"
proof -
  obtain w where w: "AuthService_Login toy_env (DefaultAuthSettings 10) (demo_login ''guess'') (accounts_world 4) =
      (Inl ErrLocked, w)" "calm w" "clock w = (\<lambda>_. second)"
    using demo_wrong by blast
  have "fst (AuthService_Login toy_env (DefaultAuthSettings 10) (demo_login ''Harbor-Pass-1'') w) = Inl ErrLocked"
    using lockout_blocks_the_right_password [where w = "accounts_world 4" and ?w2.0 = w and u = "demo_account 4"
        and inp' = "demo_login ''Harbor-Pass-1''", OF _ w(2) _ _ w(1)] w(3)
    by (auto simp: login_row_def row_by_def IsLocked_def auth_demo trim_examples lower_examples DefaultAuthSettings_def calm_def)
  then show ?thesis using w(1) by blast
qed

text \<open>
  C18. A shut gate says nothing about the password. While the account is locked, or a CAPTCHA is due and
  not supplied, the answer and the world after are the same for every password, and the store is
  unchanged: such requests cannot be used to guess.
\<close>

theorem shut_gate_is_blind_to_passwords:
  assumes "login_row env inp (store w) = Some u" and "\<not> outage w (stmts w)"
    and "IsLocked u (clock w (readings w)) \<or>
      (2 \<le> u_FailedAttempts u \<and> (li_CaptchaToken inp = [] \<or> li_CaptchaAnswer inp = []))"
  shows "AuthService_Login env cfg (inp\<lparr>li_Password := pw\<rparr>) w =
     (Inl (if IsLocked u (clock w (readings w)) then ErrLocked else ErrCaptchaRequired),
      w\<lparr>readings := readings w + 2, stmts := stmts w + 1\<rparr>)"
proof -
  have "users_GetByUsername (pg_LOWER env) (trim_space (li_Username inp)) (w\<lparr>readings := Suc (readings w)\<rparr>) =
      (Inr u, w\<lparr>readings := Suc (Suc (readings w)), stmts := Suc (stmts w)\<rparr>)"
    using assms(1,2) by (simp add: users_GetByUsername_returns login_row_def)
  then show ?thesis
    using assms(3) by (auto simp: AuthService_Login_def bindE_def attempt_def now_def fail_def captcha_gate_def
        CaptchaRequired_def)
qed

theorem shut_gate_is_blind_to_passwords_witness:
  "fst (AuthService_Login toy_env (DefaultAuthSettings 10)
      ((demo_login [])\<lparr>li_CaptchaAnswer := [], li_Password := ''Harbor-Pass-1''\<rparr>) (accounts_world 2)) = Inl ErrCaptchaRequired"
  using shut_gate_is_blind_to_passwords [of toy_env "(demo_login [])\<lparr>li_CaptchaAnswer := []\<rparr>" "accounts_world 2"
      "demo_account 2" "DefaultAuthSettings 10" "''Harbor-Pass-1''"]
  by (simp add: login_row_def row_by_def IsLocked_def auth_demo trim_examples lower_examples)

text \<open>
  C19. A CAPTCHA is good for one try. Verifying an unexpired challenge succeeds exactly when it was open and
  the trimmed answer is its answer; whatever the outcome, and whatever answer is given next, every
  later verification of the same token fails with ErrCaptchaInvalid.
\<close>

theorem captcha_is_good_for_one_try:
  assumes "calm w" and "calm w2"
    and "row_by c_Token tok (captchas (store w)) = Some c" and "t \<le> c_ExpiresAt c"
    and "AuthService_verifyCaptcha tok answer t w = (r, w')" and "captchas (store w2) = captchas (store w')"
  shows "(r = Inr () \<longleftrightarrow> \<not> c_Consumed c \<and> trim_space answer = c_Answer c) \<and>
     (r \<noteq> Inr () \<longrightarrow> r = Inl ErrCaptchaInvalid) \<and>
     fst (AuthService_verifyCaptcha tok answer' t' w2) = Inl ErrCaptchaInvalid"
proof -
  let ?w1 = "w\<lparr>readings := Suc (readings w), stmts := Suc (stmts w)\<rparr>"
  have look: "captchas_Get tok w = (Inr c, ?w1)"
    using assms(1,3) by (simp add: captchas_Get_returns)
  have c: "c \<in> set (captchas (store w))" "c_Token c = tok" using row_by_Some [OF assms(3)] by simp_all
  have row: "row_by c_Token tok (captchas (store w2)) = Some (c\<lparr>c_Consumed := True\<rparr>) \<and>
     (r = Inr () \<longleftrightarrow> \<not> c_Consumed c \<and> trim_space answer = c_Answer c) \<and> (r \<noteq> Inr () \<longrightarrow> r = Inl ErrCaptchaInvalid)"
    using assms(1,3-6) look c
    by (cases c) (auto simp: AuthService_verifyCaptcha_def attempt_def bindE_def ignoring_def ret_def fail_def
        captchas_Consume_def sql_calm row_by_update split: if_splits)
  then have "captchas_Get tok w2 = (Inr (c\<lparr>c_Consumed := True\<rparr>), w2\<lparr>readings := Suc (readings w2), stmts := Suc (stmts w2)\<rparr>)"
    using assms(2) by (simp add: captchas_Get_returns)
  then show ?thesis
    using row by (simp add: AuthService_verifyCaptcha_def attempt_def fail_def)
qed

theorem captcha_is_good_for_one_try_witness:
  "\<exists>w. AuthService_verifyCaptcha ''tok'' ''5'' second (accounts_world 2) = (Inr (), w) \<and>
     fst (AuthService_verifyCaptcha ''tok'' ''5'' second w) = Inl ErrCaptchaInvalid"
proof -
  obtain r w where run: "AuthService_verifyCaptcha ''tok'' ''5'' second (accounts_world 2) = (r, w)"
    by (cases "AuthService_verifyCaptcha ''tok'' ''5'' second (accounts_world 2)")
  have "keeps_oracles (AuthService_verifyCaptcha ''tok'' ''5'' second)"
    unfolding AuthService_verifyCaptcha_def captchas_Get_def captchas_Consume_def by (intro oracle_rules)
  then have "calm w" by (metis keeps_oracles_calm run accounts_world_def calm_demo)
  then have "r = Inr () \<and> fst (AuthService_verifyCaptcha ''tok'' ''5'' second w) = Inl ErrCaptchaInvalid"
    using captcha_is_good_for_one_try [OF _ _ _ _ run, of w demo_captcha "''5''" second]
    by (auto simp: accounts_world_def demo_world_def empty_db_def row_by_def demo_captcha_def trim_examples calm_def)
  then show ?thesis using run by blast
qed

text \<open>
  C20. Activity does not keep a session alive past its cap. Resolving a token gives its user and slides the
  expiry to one inactivity window from now, and only if the token was stored, not expired, and at most
  SessionAbsoluteTTL old, counted from its creation, however many requests (of this and other
  sessions, with whatever outcome) have been resolved in between.
\<close>

theorem sessions_end_at_their_cap:
  assumes "for_each (AuthService_ResolveSession cfg) earlier w = (r, w1)"
    and "AuthService_ResolveSession cfg k w1 = (Inr (u, s'), w2)"
  shows "\<exists>s \<in> set (sessions (store w)). s_ID s = k \<and>
     clock w1 (Suc (readings w1)) \<le> s_CreatedAt s + SessionAbsoluteTTL cfg \<and>
     s_CreatedAt s' = s_CreatedAt s \<and> s_ExpiresAt s' = clock w1 (Suc (readings w1)) + SessionInactivity cfg \<and>
     s_UserID s' = u_ID u"
proof -
  obtain s t where s: "row_by s_ID k (sessions (store w1)) = Some s" "t = clock w1 (Suc (readings w1))"
      "t - s_CreatedAt s \<le> SessionAbsoluteTTL cfg" "row_by u_ID (s_UserID s) (users (store w1)) = Some u"
      "s' = s\<lparr>s_LastActivityAt := t, s_ExpiresAt := t + SessionInactivity cfg\<rparr>"
    using ResolveSession_returns [OF assms(2)] by blast
  have "births (store w1) \<subseteq> births (store w)"
    using preservesD [OF preserves_for_each assms(1)] Resolve_births by blast
  then obtain s0 where "s0 \<in> set (sessions (store w))" "s_ID s0 = s_ID s" "s_CreatedAt s0 = s_CreatedAt s"
    using row_by_Some [OF s(1)] by (force simp: births_def image_iff)
  then show ?thesis
    using s row_by_Some [OF s(1)] row_by_Some [OF s(4)] by (intro bexI [of _ s0]) auto
qed

definition session_world :: "time \<Rightarrow> db world" where
  "session_world t = demo_world (empty_db\<lparr>users := [demo_account 0], sessions := [\<lparr>s_ID = ''sid'', s_UserID = 7,
     s_CreatedAt = 0, s_LastActivityAt = 0, s_ExpiresAt = 30 * minute, s_UserAgent = [], s_IP = []\<rparr>]\<rparr>) t"

theorem sessions_end_at_their_cap_witness:
  "\<exists>u s' w w2. for_each (AuthService_ResolveSession (DefaultAuthSettings 10)) [''sid''] (session_world (20 * minute)) = (Inr (), w) \<and>
     AuthService_ResolveSession (DefaultAuthSettings 10) ''sid'' w = (Inr (u, s'), w2) \<and> s_ExpiresAt s' = 50 * minute"
proof -
  have "\<exists>u s' w w2. for_each (AuthService_ResolveSession (DefaultAuthSettings 10)) [''sid''] (session_world (20 * minute)) = (Inr (), w) \<and>
     AuthService_ResolveSession (DefaultAuthSettings 10) ''sid'' w = (Inr (u, s'), w2) \<and> clock w = (\<lambda>_. 20 * minute)"
    by (simp add: AuthService_ResolveSession_def sessions_Get_def users_GetByID_def sessions_Touch_def row_by_def
        session_world_def auth_demo run_defs DefaultAuthSettings_def)
  then obtain u s' w w2 where "for_each (AuthService_ResolveSession (DefaultAuthSettings 10)) [''sid''] (session_world (20 * minute)) = (Inr (), w)"
    "AuthService_ResolveSession (DefaultAuthSettings 10) ''sid'' w = (Inr (u, s'), w2)" "clock w = (\<lambda>_. 20 * minute)"
    by (elim exE conjE) (rule that)
  then show ?thesis
    using sessions_end_at_their_cap [of "DefaultAuthSettings 10" "[''sid'']" "session_world (20 * minute)" "Inr ()" w "''sid''" u s' w2]
    by (intro exI conjI) (auto simp: DefaultAuthSettings_def)
qed

text \<open>
  C21. The password policy, spelled out. A password is accepted exactly when it has at least twelve bytes
  and a lower-case letter, an upper-case letter, a digit, and a punctuation mark or symbol, each rune
  counting for the first class it belongs to and white space for none.
\<close>

theorem password_policy_spec:
  "ValidatePassword uc pw = Inr () \<longleftrightarrow>
     12 \<le> length pw \<and> (\<exists>r \<in> set (runes pw). is_lower uc r) \<and>
     (\<exists>r \<in> set (runes pw). is_upper uc r \<and> \<not> is_lower uc r) \<and>
     (\<exists>r \<in> set (runes pw). is_digit uc r \<and> \<not> is_lower uc r \<and> \<not> is_upper uc r) \<and>
     (\<exists>r \<in> set (runes pw). (is_punct uc r \<or> is_symbol uc r) \<and> \<not> is_lower uc r \<and> \<not> is_upper uc r \<and>
        \<not> is_digit uc r \<and> \<not> is_space uc r)"
  by (auto simp: ValidatePassword_def password_violations_def Let_def scan_password_flags PasswordMinLength_def)

text \<open>
  C22. Who registers can log in, and only so. After a successful registration, in a world without outages
  whose next random token is new, a login with the same name and password opens a session for the new
  user, who is no administrator, and a password that the hash rejects is refused.
\<close>

theorem registered_user_can_log_in:
  assumes "bcrypt_ok env" and "calm w" and "calm w2" and "store w2 = store w1"
    and "AuthService_Register env cfg name pw w = (Inr u, w1)" and "1 < LockoutThreshold cfg"
    and "entropy w2 (drawn w2) = Some f"
    and "fresh_key s_ID (sessions (store w1)) (base64url (map f [0..<32]))"
    and "li_Username inp = name"
  shows "\<not> u_IsAdmin u \<and> users (store w1) = users (store w) @ [u] \<and>
    (li_Password inp = pw \<longrightarrow> (\<exists>res w3. AuthService_Login env cfg inp w2 = (Inr res, w3) \<and>
       s_UserID (lr_Session res) = u_ID u \<and> lr_Session res \<in> set (sessions (store w3)))) \<and>
    (\<not> bcrypt_compare env (u_PasswordHash u) (li_Password inp) \<longrightarrow>
       fst (AuthService_Login env cfg inp w2) = Inl ErrCredentialInvalid)"
proof -
  obtain salt where new: "row_by (\<lambda>u. pg_LOWER env (u_Username u)) (pg_LOWER env (trim_space name)) (users (store w)) = None"
      "bcrypt_generate env salt pw (BcryptCost cfg) = Some (u_PasswordHash u)"
      "u_Username u = trim_space name" "\<not> u_IsAdmin u" "u_FailedAttempts u = 0" "u_LockedUntil u = None"
    and st: "store w1 = (store w)\<lparr>users := users (store w) @ [u]\<rparr>"
    using Register_returns [OF assms(5)] by blast
  define t where "t = clock w2 (readings w2)"
  let ?w3 = "w2\<lparr>readings := Suc (Suc (readings w2)), stmts := Suc (stmts w2)\<rparr>"
  have look: "users_GetByUsername (pg_LOWER env) (trim_space name) (w2\<lparr>readings := Suc (readings w2)\<rparr>) = (Inr u, ?w3)"
    using assms(3,4) new st by (simp add: users_GetByUsername_returns row_by_append) (simp add: row_by_def)
  have run: "AuthService_Login env cfg inp w2 =
      (if \<not> bcrypt_compare env (u_PasswordHash u) (li_Password inp) then wrong_password cfg u t ?w3
       else open_session cfg u inp t ?w3)"
    using look new assms(9) by (simp add: AuthService_Login_def bindE_def attempt_def now_def captcha_gate_def
        CaptchaRequired_def IsLocked_def ret_def t_def)
  have "\<exists>res w3. open_session cfg u inp t ?w3 = (Inr res, w3) \<and> s_UserID (lr_Session res) = u_ID u \<and>
      lr_Session res \<in> set (sessions (store w3))"
    using assms(3,4,7,8) st by (intro open_session_calm) simp_all
  moreover have "bcrypt_compare env (u_PasswordHash u) pw"
    using assms(1) new(2) by (auto simp: bcrypt_ok_def)
  moreover have "fst ((wrong_password cfg u t :: login_result action) ?w3) = Inl ErrCredentialInvalid"
    using new assms(6) by (simp add: wrong_password_def ignoring_def attempt_def fail_def split: prod.splits)
  ultimately show ?thesis using new st run by auto
qed

lemma demo_register:
  "\<exists>u w. AuthService_Register toy_env (DefaultAuthSettings 10) ''bob'' ''Harbor-Pass-1'' (demo_world empty_db 0) = (Inr u, w) \<and>
     calm w \<and> entropy w = (\<lambda>_. Some (\<lambda>_. CHR ''A'')) \<and> sessions (store w) = []"
proof -
  have "trim_space ''bob'' = ''bob''" by (rule trim_space_plain) simp
  moreover have "ValidatePassword ascii_unicode ''Harbor-Pass-1'' = Inr ()"
    by (simp add: ValidatePassword_def password_violations_def runes_ascii ascii_string_def scan_rune_def
        ascii_unicode_def PasswordMinLength_def)
  ultimately show ?thesis
    by (simp add: AuthService_Register_def users_GetByUsername_def hash_password_def users_Create_def user_insertable_def
        fresh_key_def row_by_def char_length_def is_cont_def auth_demo run_defs calm_def)
qed

theorem registered_user_can_log_in_witness:
  "\<exists>u w res w'. AuthService_Register toy_env (DefaultAuthSettings 10) ''bob'' ''Harbor-Pass-1'' (demo_world empty_db 0) = (Inr u, w) \<and>
     AuthService_Login toy_env (DefaultAuthSettings 10)
       ((demo_login ''Harbor-Pass-1'')\<lparr>li_Username := ''bob''\<rparr>) w = (Inr res, w') \<and> s_UserID (lr_Session res) = u_ID u"
proof -
  obtain u w where w: "AuthService_Register toy_env (DefaultAuthSettings 10) ''bob'' ''Harbor-Pass-1'' (demo_world empty_db 0) = (Inr u, w)"
    "calm w" "entropy w = (\<lambda>_. Some (\<lambda>_. CHR ''A''))" "sessions (store w) = []"
    using demo_register by blast
  then show ?thesis
    using registered_user_can_log_in [OF toy_bcrypt_ok calm_demo w(2) refl w(1), where f = "\<lambda>_. CHR ''A''"
        and inp = "(demo_login ''Harbor-Pass-1'')\<lparr>li_Username := ''bob''\<rparr>"]
    by (intro exI [of _ u] exI [of _ w]) (auto simp: DefaultAuthSettings_def fresh_key_def demo_login_def)
qed

end
