(* ===== verification/Idempotency.thy ===== *)
theory Idempotency
  imports Schema
begin

text \<open>
  HTTP requests and responses as the middleware sees them, and the at-most-once machinery:
  \<open>repository/idempotency.go\<close> and \<open>api/middleware/idempotency.go\<close>.

  A handler is an action that ends in a response or, as \<open>Inl\<close>, in a panic. The interface
  \<open>IdempotencyRepository\<close> is a record of its methods, \<open>idemRepo\<close> its PostgreSQL implementation; what the
  middleware needs of it is the locale \<open>reservations\<close>, which \<open>idemRepo\<close> interprets.
\<close>

section \<open>Requests and responses\<close>

text \<open>
  \<open>rq_Header\<close> is \<open>GetHeader\<close> (empty when absent), \<open>rq_Body\<close> is what reading the body yields (\<open>None\<close>: the
  read fails; a server request always has a body), \<open>rq_User\<close> is \<open>CurrentUser(c)\<close>.
\<close>

record request =
  rq_Method :: string
  rq_Path :: string
  rq_RawQuery :: string
  rq_Header :: "string \<Rightarrow> string"
  rq_Body :: "string option"
  rq_User :: "user option"

record response =
  rs_Status :: int
  rs_ContentType :: string
  rs_Headers :: "(string \<times> string) list"
  rs_Body :: string

type_synonym http = "(db, response) io"
type_synonym handler = "request \<Rightarrow> http"

definition quoted :: "string \<Rightarrow> string" where
  "quoted s = [char_of (34::nat)] @ s @ [char_of (34::nat)]"

text \<open>\<open>c.JSON(status, gin.H{"error": msg})\<close>, for the literal messages of the middleware.\<close>

definition error_json :: "int \<Rightarrow> string \<Rightarrow> response" where
  "error_json status msg = \<lparr>rs_Status = status, rs_ContentType = ''application/json; charset=utf-8'', rs_Headers = [],
     rs_Body = ''{'' @ quoted ''error'' @ '':'' @ quoted msg @ ''}''\<rparr>"

section \<open>The repository\<close>

record idempotency_repository =
  repo_Reserve :: "uuid option \<Rightarrow> string \<Rightarrow> string \<Rightarrow> duration \<Rightarrow> (idempotency_record option \<times> bool) action"
  repo_Complete :: "uuid option \<Rightarrow> string \<Rightarrow> int \<Rightarrow> string \<Rightarrow> string \<Rightarrow> unit action"
  repo_ReleasePending :: "uuid option \<Rightarrow> string \<Rightarrow> unit action"

text \<open>\<open>key = $2 AND\<close> \<open>scopeMatch\<close>: the users are equal or both NULL.\<close>

definition in_scope :: "uuid option \<Rightarrow> string \<Rightarrow> idempotency_record \<Rightarrow> bool" where
  "in_scope u key r \<longleftrightarrow> i_Key r = key \<and> i_UserID r = u"

definition slot :: "db \<Rightarrow> uuid option \<Rightarrow> string \<Rightarrow> idempotency_record option" where
  "slot d u key = find (in_scope u key) (idempotency_keys d)"

definition pending_row :: "uuid option \<Rightarrow> string \<Rightarrow> string \<Rightarrow> time \<Rightarrow> duration \<Rightarrow> idempotency_record" where
  "pending_row u key requestHash t ttl =
     \<lparr>i_Key = key, i_UserID = u, i_RequestHash = requestHash, i_StatusCode = None, i_ResponseBody = None,
      i_ContentType = [], i_Status = IdempotencyStatusPending, i_CreatedAt = t, i_ExpiresAt = t + ttl\<rparr>"

text \<open>The insert reports whether it has added the row (\<open>RowsAffected() == 1\<close>).\<close>

definition idem_claim :: "uuid option \<Rightarrow> string \<Rightarrow> string \<Rightarrow> time \<Rightarrow> duration \<Rightarrow> bool action" where
  "idem_claim u key requestHash t ttl = sql (\<lambda>_ d. Inr (case slot d u key of
     None \<Rightarrow> (True, d\<lparr>idempotency_keys := idempotency_keys d @ [pending_row u key requestHash t ttl]\<rparr>)
   | Some _ \<Rightarrow> (False, d)))"

text \<open>\<open>COALESCE\<close> fills the columns that are NULL while the row is pending.\<close>

definition coalesced :: "idempotency_record \<Rightarrow> idempotency_record" where
  "coalesced r = r\<lparr>i_StatusCode := Some (case i_StatusCode r of None \<Rightarrow> 0 | Some s \<Rightarrow> s),
     i_ResponseBody := Some (case i_ResponseBody r of None \<Rightarrow> [] | Some b \<Rightarrow> b)\<rparr>"

definition idem_getScoped :: "uuid option \<Rightarrow> string \<Rightarrow> idempotency_record action" where
  "idem_getScoped u key = query (\<lambda>d. case slot d u key of None \<Rightarrow> Inl ErrNotFound | Some r \<Rightarrow> Inr (coalesced r))"

definition idem_inspect :: "uuid option \<Rightarrow> string \<Rightarrow> string \<Rightarrow> (idempotency_record option \<times> bool) action" where
  "idem_inspect u key requestHash =
     bindE (idem_getScoped u key) (\<lambda>existing.
     if i_RequestHash existing \<noteq> requestHash then fail ErrIdempotencyMismatch
     else if i_Status existing = IdempotencyStatusPending then fail ErrConflict
     else ret (Some existing, False))"

definition idem_Reserve ::
  "uuid option \<Rightarrow> string \<Rightarrow> string \<Rightarrow> duration \<Rightarrow> (idempotency_record option \<times> bool) action" where
  "idem_Reserve u key requestHash ttl =
     bindE now (\<lambda>t.
     bindE (idem_claim u key requestHash t ttl) (\<lambda>claimed.
     if claimed then ret (None, True) else idem_inspect u key requestHash))"

text \<open>The HTTP statuses stored have three digits, so the \<open>INTEGER\<close> column takes them all.\<close>

definition completed :: "int \<Rightarrow> string \<Rightarrow> string \<Rightarrow> idempotency_record \<Rightarrow> idempotency_record" where
  "completed statusCode body contentType r = r\<lparr>i_Status := IdempotencyStatusCompleted,
     i_StatusCode := Some statusCode, i_ResponseBody := Some body, i_ContentType := contentType\<rparr>"

definition pending_in :: "uuid option \<Rightarrow> string \<Rightarrow> idempotency_record \<Rightarrow> bool" where
  "pending_in u key r \<longleftrightarrow> in_scope u key r \<and> i_Status r = IdempotencyStatusPending"

definition idem_Complete :: "uuid option \<Rightarrow> string \<Rightarrow> int \<Rightarrow> string \<Rightarrow> string \<Rightarrow> unit action" where
  "idem_Complete u key statusCode body contentType = sql (\<lambda>_ d.
     if matches (pending_in u key) (idempotency_keys d) = 0 then Inl ErrNotFound
     else Inr ((), d\<lparr>idempotency_keys :=
       update_where (pending_in u key) (completed statusCode body contentType) (idempotency_keys d)\<rparr>))"

definition idem_ReleasePending :: "uuid option \<Rightarrow> string \<Rightarrow> unit action" where
  "idem_ReleasePending u key = sql (\<lambda>_ d.
     Inr ((), d\<lparr>idempotency_keys := delete_where (pending_in u key) (idempotency_keys d)\<rparr>))"

definition idem_DeleteExpired :: "time \<Rightarrow> int action" where
  "idem_DeleteExpired before = sql (\<lambda>_ d.
     Inr (int (matches (\<lambda>r. i_ExpiresAt r < before) (idempotency_keys d)),
          d\<lparr>idempotency_keys := delete_where (\<lambda>r. i_ExpiresAt r < before) (idempotency_keys d)\<rparr>))"

definition idemRepo :: idempotency_repository where
  "idemRepo = \<lparr>repo_Reserve = idem_Reserve, repo_Complete = idem_Complete, repo_ReleasePending = idem_ReleasePending\<rparr>"

section \<open>The middleware\<close>

definition IdempotencyHeader :: string where
  "IdempotencyHeader = ''Idempotency-Key''"

text \<open>\<open>digest\<close> is the hex form of the SHA-256 of a byte string.\<close>

definition request_body :: "request \<Rightarrow> string" where
  "request_body req = (case rq_Body req of None \<Rightarrow> [] | Some b \<Rightarrow> b)"

definition request_hash :: "(string \<Rightarrow> string) \<Rightarrow> request \<Rightarrow> string" where
  "request_hash digest req = digest (rq_Method req @ '' '' @ rq_Path req @ ''?'' @ request_body req)"

definition mismatch_response :: response where
  "mismatch_response = error_json 409 ''idempotency key reused with a different request body''"

definition in_flight_response :: response where
  "in_flight_response = (error_json 409 ''idempotency key is currently in flight, retry shortly'')
     \<lparr>rs_Headers := [(''Retry-After'', ''1'')]\<rparr>"

definition lookup_failed_response :: response where
  "lookup_failed_response = error_json 500 ''idempotency lookup failed''"

definition replay :: "idempotency_record \<Rightarrow> response" where
  "replay r = \<lparr>rs_Status = (case i_StatusCode r of None \<Rightarrow> 0 | Some s \<Rightarrow> s), rs_ContentType = i_ContentType r,
     rs_Headers = [(''Idempotent-Replay'', ''true'')],
     rs_Body = (case i_ResponseBody r of None \<Rightarrow> [] | Some b \<Rightarrow> b)\<rparr>"

text \<open>From \<open>c.Next()\<close> on: a panic gives the key back, a response is stored, best effort.\<close>

definition run_and_record :: "idempotency_repository \<Rightarrow> uuid option \<Rightarrow> string \<Rightarrow> http \<Rightarrow> http" where
  "run_and_record repo u key next =
     attempt next (\<lambda>r.
     case r of
       Inl panic \<Rightarrow> ignoring (repo_ReleasePending repo u key) (fail panic)
     | Inr resp \<Rightarrow> ignoring (repo_Complete repo u key (rs_Status resp) (rs_Body resp) (rs_ContentType resp)) (ret resp))"

definition answer_reserve_error :: "go_error \<Rightarrow> response" where
  "answer_reserve_error e =
     (if e = ErrIdempotencyMismatch then mismatch_response
      else if e = ErrConflict then in_flight_response
      else lookup_failed_response)"

definition answer_existing :: "idempotency_record option \<Rightarrow> response" where
  "answer_existing existing =
     (case existing of
        Some r \<Rightarrow> if i_Status r = IdempotencyStatusCompleted then replay r else lookup_failed_response
      | None \<Rightarrow> lookup_failed_response)"

definition Idempotency :: "idempotency_repository \<Rightarrow> (string \<Rightarrow> string) \<Rightarrow> handler \<Rightarrow> handler" where
  "Idempotency repo digest next req =
     (let key = rq_Header req IdempotencyHeader in
      if key = [] then next req else
      let u = map_option u_ID (rq_User req) in
      attempt (repo_Reserve repo u key (request_hash digest req) (24 * hour)) (\<lambda>r.
      case r of
        Inl e \<Rightarrow> ret (answer_reserve_error e)
      | Inr (existing, reserved) \<Rightarrow>
          if reserved then run_and_record repo u key (next (req\<lparr>rq_Body := Some (request_body req)\<rparr>))
          else ret (answer_existing existing)))"

section \<open>What the middleware needs of its repository\<close>

text \<open>
  The contract of a reservation store, over the slot that each scope (user, key) has: reserving an
  empty slot fills it with a pending row, a taken slot is reported as it stands, completing a pending
  slot stores the response, releasing it empties it, and no call touches the slot of another scope.
\<close>

locale reservations =
  fixes repo :: idempotency_repository and wf :: "db \<Rightarrow> bool" and slot :: "db \<Rightarrow> uuid option \<Rightarrow> string \<Rightarrow> idempotency_record option"
  assumes reserve_free: "calm w \<Longrightarrow> slot (store w) u k = None \<Longrightarrow>
      \<exists>w' t. repo_Reserve repo u k h ttl w = (Inr (None, True), w') \<and> calm w' \<and>
        slot (store w') u k = Some (pending_row u k h t ttl)"
    and reserve_wf: "repo_Reserve repo u k h ttl w = (x, w') \<Longrightarrow> wf (store w) \<Longrightarrow> wf (store w')"
    and reserve_taken: "calm w \<Longrightarrow> slot (store w) u k = Some r \<Longrightarrow>
      \<exists>w'. repo_Reserve repo u k h ttl w =
        (if i_RequestHash r \<noteq> h then Inl ErrIdempotencyMismatch
         else if i_Status r = IdempotencyStatusPending then Inl ErrConflict
         else Inr (Some (coalesced r), False), w') \<and> store w' = store w"
    and complete_pending: "calm w \<Longrightarrow> slot (store w) u k = Some r \<Longrightarrow> i_Status r = IdempotencyStatusPending \<Longrightarrow>
      \<exists>w'. repo_Complete repo u k s b ct w = (Inr (), w') \<and> slot (store w') u k = Some (completed s b ct r)"
    and release_pending: "calm w \<Longrightarrow> wf (store w) \<Longrightarrow> slot (store w) u k = Some r \<Longrightarrow> i_Status r = IdempotencyStatusPending \<Longrightarrow>
      \<exists>w'. repo_ReleasePending repo u k w = (Inr (), w') \<and> slot (store w') u k = None"
    and reserve_elsewhere: "repo_Reserve repo u k h ttl w = (x, w') \<Longrightarrow> (u', k') \<noteq> (u, k) \<Longrightarrow>
      slot (store w') u' k' = slot (store w) u' k'"
    and complete_elsewhere: "repo_Complete repo u k s b ct w = (y, w') \<Longrightarrow> (u', k') \<noteq> (u, k) \<Longrightarrow>
      slot (store w') u' k' = slot (store w) u' k'"
    and release_elsewhere: "repo_ReleasePending repo u k w = (y, w') \<Longrightarrow> (u', k') \<noteq> (u, k) \<Longrightarrow>
      slot (store w') u' k' = slot (store w) u' k'"
begin

abbreviation slot_of :: "db \<Rightarrow> request \<Rightarrow> idempotency_record option" where
  "slot_of d req \<equiv> slot d (map_option u_ID (rq_User req)) (rq_Header req IdempotencyHeader)"

text \<open>A taken slot answers by itself: the handler does not run and the store stays.\<close>

lemma taken_answers:
  assumes "calm w" and "slot_of (store w) req = Some r" and "rq_Header req IdempotencyHeader \<noteq> []"
  shows "\<exists>w'. Idempotency repo digest next req w =
    (Inr (if i_RequestHash r \<noteq> request_hash digest req then mismatch_response
          else if i_Status r = IdempotencyStatusPending then in_flight_response
          else replay (coalesced r)), w') \<and> store w' = store w"
  using reserve_taken [OF assms(1,2), of "request_hash digest req" "24 * hour"] assms(3)
  by (auto simp: Idempotency_def Let_def attempt_def ret_def answer_reserve_error_def answer_existing_def coalesced_def
      split: idempotency_status.splits) (metis idempotency_status.exhaust)+

text \<open>Whatever happens, the slots of other scopes stay as the handler leaves them.\<close>

lemma others_untouched:
  assumes "Idempotency repo digest next req w = (x, w')"
    and "\<And>req w x w'. next req w = (x, w') \<Longrightarrow> slot (store w') u' k' = slot (store w) u' k'"
    and "(u', k') \<noteq> (map_option u_ID (rq_User req), rq_Header req IdempotencyHeader)"
  shows "slot (store w') u' k' = slot (store w) u' k'"
proof -
  let ?I = "\<lambda>d. slot d u' k' = slot (store w) u' k'"
  have "preserves ?I (next req')" for req' by (rule preservesI) (simp add: assms(2))
  moreover have "preserves ?I (repo_Reserve repo (map_option u_ID (rq_User req)) (rq_Header req IdempotencyHeader) h ttl)" for h ttl
    by (rule preservesI) (metis reserve_elsewhere assms(3))
  moreover have "preserves ?I (repo_Complete repo (map_option u_ID (rq_User req)) (rq_Header req IdempotencyHeader) st b ct)" for st b ct
    by (rule preservesI) (metis complete_elsewhere assms(3))
  moreover have "preserves ?I (repo_ReleasePending repo (map_option u_ID (rq_User req)) (rq_Header req IdempotencyHeader))"
    by (rule preservesI) (metis release_elsewhere assms(3))
  ultimately have p: "preserves ?I (Idempotency repo digest next req)"
    unfolding Idempotency_def run_and_record_def Let_def by (intro store_rules)
  show ?thesis by (rule preservesD [OF p assms(1)]) simp
qed

text \<open>An empty slot runs the handler once; a response fills the slot, a panic empties it again.\<close>

lemma free_runs:
  assumes "calm w" and "wf (store w)" and "slot_of (store w) req = None" and "rq_Header req IdempotencyHeader \<noteq> []"
    and "keeps_oracles (next (req\<lparr>rq_Body := Some (request_body req)\<rparr>))"
    and "\<And>w x w'. next (req\<lparr>rq_Body := Some (request_body req)\<rparr>) w = (x, w') \<Longrightarrow>
      slot_of (store w') req = slot_of (store w) req \<and> wf (store w') = wf (store w)"
  shows "\<exists>w1 x w2 w' t. next (req\<lparr>rq_Body := Some (request_body req)\<rparr>) w1 = (x, w2) \<and>
    Idempotency repo digest next req w = (x, w') \<and>
    (case x of Inl _ \<Rightarrow> slot_of (store w') req = None
     | Inr resp \<Rightarrow> slot_of (store w') req = Some (completed (rs_Status resp) (rs_Body resp) (rs_ContentType resp)
         (pending_row (map_option u_ID (rq_User req)) (rq_Header req IdempotencyHeader) (request_hash digest req) t (24 * hour))))"
proof -
  let ?u = "map_option u_ID (rq_User req)" and ?k = "rq_Header req IdempotencyHeader"
  let ?next = "next (req\<lparr>rq_Body := Some (request_body req)\<rparr>)"
  obtain w1 t where w1: "repo_Reserve repo ?u ?k (request_hash digest req) (24 * hour) w = (Inr (None, True), w1)" "calm w1"
      "slot_of (store w1) req = Some (pending_row ?u ?k (request_hash digest req) t (24 * hour))" (is "_ = Some ?p")
    using reserve_free [OF assms(1,3)] by blast
  obtain x w2 where x: "?next w1 = (x, w2)" by (cases "?next w1")
  have w2: "calm w2" "wf (store w2)" "slot_of (store w2) req = Some ?p"
    using keeps_oracles_calm [OF assms(5) x] w1 assms(6) [OF x] reserve_wf [OF w1(1) assms(2)] by simp_all
  have pending: "i_Status ?p = IdempotencyStatusPending" by (simp add: pending_row_def)
  show ?thesis
  proof (cases x)
    case (Inl p)
    obtain w3 where "repo_ReleasePending repo ?u ?k w2 = (Inr (), w3)" "slot_of (store w3) req = None"
      using release_pending [OF w2 pending] by blast
    then have "Idempotency repo digest next req w = (x, w3)" "slot_of (store w3) req = None"
      using w1(1) assms(4) x Inl
      by (simp_all add: Idempotency_def Let_def attempt_def run_and_record_def ignoring_def fail_def)
    then show ?thesis using x Inl by auto
  next
    case (Inr resp)
    obtain w3 where "repo_Complete repo ?u ?k (rs_Status resp) (rs_Body resp) (rs_ContentType resp) w2 = (Inr (), w3)"
      "slot_of (store w3) req = Some (completed (rs_Status resp) (rs_Body resp) (rs_ContentType resp) ?p)"
      using complete_pending [OF w2(1,3) pending] by blast
    then have "Idempotency repo digest next req w = (x, w3)"
      "slot_of (store w3) req = Some (completed (rs_Status resp) (rs_Body resp) (rs_ContentType resp) ?p)"
      using w1(1) assms(4) x Inr
      by (simp_all add: Idempotency_def Let_def attempt_def run_and_record_def ignoring_def ret_def)
    then show ?thesis using x Inr by auto
  qed
qed

end

section \<open>The PostgreSQL repository keeps the contract\<close>

text \<open>The two partial unique indexes of migration 0004.\<close>

definition idem_unique :: "db \<Rightarrow> bool" where
  "idem_unique d \<longleftrightarrow> distinct_keys (\<lambda>r. (i_UserID r, i_Key r)) (idempotency_keys d)"

lemma slot_None: "slot d u k = None \<longleftrightarrow> (\<forall>r \<in> set (idempotency_keys d). \<not> in_scope u k r)"
  by (auto simp: slot_def find_None_iff)

lemma slot_Some: "slot d u k = Some r \<Longrightarrow> r \<in> set (idempotency_keys d) \<and> in_scope u k r"
  by (auto simp: slot_def find_Some_iff)

lemma slot_row_by: "slot d u k = row_by (\<lambda>r. (i_UserID r, i_Key r)) (u, k) (idempotency_keys d)"
proof -
  have "in_scope u k = (\<lambda>r. (i_UserID r, i_Key r) = (u, k))" by (auto simp: in_scope_def)
  then show ?thesis by (simp add: slot_def row_by_def)
qed

lemma slot_unique: "idem_unique d \<Longrightarrow> r \<in> set (idempotency_keys d) \<Longrightarrow> in_scope u k r \<Longrightarrow> slot d u k = Some r"
  unfolding slot_row_by idem_unique_def by (subst row_by_eq_iff) (simp_all add: in_scope_def)

lemma find_append: "find p (xs @ ys) = (case find p xs of None \<Rightarrow> find p ys | Some x \<Rightarrow> Some x)"
  by (induction xs) auto

lemma find_update_where:
  "(\<And>r. q r \<Longrightarrow> p (f r) = p r) \<Longrightarrow> find p (update_where q f rows) = map_option (\<lambda>r. if q r then f r else r) (find p rows)"
  by (induction rows) auto

lemma find_delete_where: "(\<And>r. p r \<Longrightarrow> \<not> q r) \<Longrightarrow> find p (delete_where q rows) = find p rows"
  by (induction rows) (auto simp: delete_where_def)

lemma in_scope_pending_row [simp]: "in_scope u' k' (pending_row u k h t ttl) \<longleftrightarrow> u' = u \<and> k' = k"
  by (auto simp: in_scope_def pending_row_def)

lemma in_scope_completed [simp]: "in_scope u k (completed s b ct r) = in_scope u k r"
  by (simp add: in_scope_def completed_def)

lemma in_scope_inj: "in_scope u k r \<Longrightarrow> in_scope u' k' r \<Longrightarrow> u = u' \<and> k = k'"
  by (simp add: in_scope_def)

text \<open>What each statement does to the slots.\<close>

lemma slot_claimed:
  "slot d u k = None \<Longrightarrow>
   slot (d\<lparr>idempotency_keys := idempotency_keys d @ [pending_row u k h t ttl]\<rparr>) u' k' =
     (if (u', k') = (u, k) then Some (pending_row u k h t ttl) else slot d u' k')"
  by (auto simp: slot_def find_append split: option.splits)

lemma slot_completed:
  "slot (d\<lparr>idempotency_keys := update_where (pending_in u k) (completed s b ct) (idempotency_keys d)\<rparr>) u' k' =
     map_option (\<lambda>r. if pending_in u k r then completed s b ct r else r) (slot d u' k')"
  by (simp add: slot_def find_update_where)

lemma slot_completed_elsewhere:
  assumes "(u', k') \<noteq> (u, k)"
  shows "slot (d\<lparr>idempotency_keys := update_where (pending_in u k) (completed s b ct) (idempotency_keys d)\<rparr>) u' k' = slot d u' k'"
proof -
  have "\<not> pending_in u k r" if "slot d u' k' = Some r" for r
    using slot_Some [OF that] assms by (auto simp: pending_in_def dest: in_scope_inj)
  then show ?thesis unfolding slot_completed by (cases "slot d u' k'") auto
qed

lemma slot_released_elsewhere:
  "(u', k') \<noteq> (u, k) \<Longrightarrow>
   slot (d\<lparr>idempotency_keys := delete_where (pending_in u k) (idempotency_keys d)\<rparr>) u' k' = slot d u' k'"
  unfolding slot_def by (simp, rule find_delete_where) (auto simp: pending_in_def dest: in_scope_inj)

lemma slot_released:
  "idem_unique d \<Longrightarrow> slot d u k = Some r \<Longrightarrow> i_Status r = IdempotencyStatusPending \<Longrightarrow>
   slot (d\<lparr>idempotency_keys := delete_where (pending_in u k) (idempotency_keys d)\<rparr>) u k = None"
  using slot_unique [of d _ u k] by (auto simp: slot_None pending_in_def)

lemma idem_unique_claimed:
  "idem_unique d \<Longrightarrow> slot d u k = None \<Longrightarrow> idem_unique (d\<lparr>idempotency_keys := idempotency_keys d @ [pending_row u k h t ttl]\<rparr>)"
  by (auto simp: idem_unique_def distinct_keys_append row_by_None slot_None in_scope_def pending_row_def)

lemma pending_in_slot: "slot d u k = Some r \<Longrightarrow> i_Status r = IdempotencyStatusPending \<Longrightarrow> pending_in u k r"
  by (auto simp: pending_in_def dest: slot_Some)

lemma idem_inspect_readonly [store_rules]: "readonly (idem_inspect u k h)"
  unfolding idem_inspect_def idem_getScoped_def by (intro store_rules)

interpretation idem: reservations idemRepo idem_unique slot
proof unfold_locales
  fix w :: "db world" and u k h ttl
  assume w: "calm w" "slot (store w) u k = None"
  show "\<exists>w' t. repo_Reserve idemRepo u k h ttl w = (Inr (None, True), w') \<and> calm w' \<and>
      slot (store w') u k = Some (pending_row u k h t ttl)"
    using w by (auto simp: idemRepo_def idem_Reserve_def idem_claim_def bindE_def now_def sql_calm ret_def slot_claimed)
next
  fix w w' :: "db world" and u k h ttl x
  assume "repo_Reserve idemRepo u k h ttl w = (x, w')" "idem_unique (store w)"
  moreover have "preserves idem_unique (idem_Reserve u k h ttl)"
    unfolding idem_Reserve_def idem_claim_def
    by (intro store_rules preserves_sql readonly_preserves) (auto split: option.splits intro: idem_unique_claimed)
  ultimately show "idem_unique (store w')" by (auto simp: idemRepo_def dest: preservesD)
next
  fix w :: "db world" and u k r h ttl
  assume w: "calm w" "slot (store w) u k = Some r"
  have "i_Status r = IdempotencyStatusCompleted \<or> i_Status r = IdempotencyStatusPending"
    by (cases "i_Status r") simp_all
  then show "\<exists>w'. repo_Reserve idemRepo u k h ttl w =
        (if i_RequestHash r \<noteq> h then Inl ErrIdempotencyMismatch
         else if i_Status r = IdempotencyStatusPending then Inl ErrConflict
         else Inr (Some (coalesced r), False), w') \<and> store w' = store w"
    using w by (auto simp: idemRepo_def idem_Reserve_def idem_claim_def idem_inspect_def idem_getScoped_def
        bindE_def now_def sql_calm query_calm ret_def fail_def coalesced_def)
next
  fix w :: "db world" and u k r s b ct
  assume w: "calm w" "slot (store w) u k = Some r" "i_Status r = IdempotencyStatusPending"
  note p = pending_in_slot [OF w(2,3)]
  have "\<exists>r \<in> set (idempotency_keys (store w)). pending_in u k r" using p slot_Some [OF w(2)] by blast
  then show "\<exists>w'. repo_Complete idemRepo u k s b ct w = (Inr (), w') \<and> slot (store w') u k = Some (completed s b ct r)"
    using w p by (auto simp: idemRepo_def idem_Complete_def sql_calm slot_completed)
next
  fix w :: "db world" and u k r
  assume "calm w" "idem_unique (store w)" "slot (store w) u k = Some r" "i_Status r = IdempotencyStatusPending"
  then show "\<exists>w'. repo_ReleasePending idemRepo u k w = (Inr (), w') \<and> slot (store w') u k = None"
    by (simp add: idemRepo_def idem_ReleasePending_def sql_calm slot_released)
next
  fix w w' :: "db world" and u k h ttl x u' and k' :: string
  assume run: "repo_Reserve idemRepo u k h ttl w = (x, w')" and ne: "(u', k') \<noteq> (u, k)"
  have "preserves (\<lambda>d. slot d u' k' = slot (store w) u' k') (idem_Reserve u k h ttl)"
    unfolding idem_Reserve_def idem_claim_def
    by (intro store_rules preserves_sql readonly_preserves) (use ne in \<open>auto split: option.splits simp: slot_claimed\<close>)
  then show "slot (store w') u' k' = slot (store w) u' k'"
    using run by (auto simp: idemRepo_def dest: preservesD)
next
  fix w w' :: "db world" and u k s b ct y u' and k' :: string
  assume run: "repo_Complete idemRepo u k s b ct w = (y, w')" and ne: "(u', k') \<noteq> (u, k)"
  have "preserves (\<lambda>d. slot d u' k' = slot (store w) u' k') (idem_Complete u k s b ct)"
    unfolding idem_Complete_def
    by (intro preserves_sql) (use ne in \<open>auto simp: slot_completed_elsewhere split: if_splits\<close>)
  then show "slot (store w') u' k' = slot (store w) u' k'"
    using run by (auto simp: idemRepo_def dest: preservesD)
next
  fix w w' :: "db world" and u k y u' and k' :: string
  assume run: "repo_ReleasePending idemRepo u k w = (y, w')" and ne: "(u', k') \<noteq> (u, k)"
  have "preserves (\<lambda>d. slot d u' k' = slot (store w) u' k') (idem_ReleasePending u k)"
    unfolding idem_ReleasePending_def
    by (intro preserves_sql) (use ne in \<open>auto simp: slot_released_elsewhere\<close>)
  then show "slot (store w') u' k' = slot (store w) u' k'"
    using run by (auto simp: idemRepo_def dest: preservesD)
qed

section \<open>Requests in flight together\<close>

text \<open>
  Client \<open>c\<close> sends the request \<open>reqs c\<close> for the handler \<open>next c\<close>. Each statement of the repository is one
  step, a run of a handler another; between them anything may happen that leaves the table
  \<open>idempotency_keys\<close> alone. \<open>effects\<close> records the runs that ended in a response: which client, which
  response. Nothing in the program calls \<open>DeleteExpired\<close>, so no step deletes completed rows.
\<close>

datatype phase =
    Waiting | Clashed | Claimed | Responded response | Panicked
  | Answered response | Aborted

record traffic =
  tw :: "db world"
  phases :: "nat \<Rightarrow> phase"
  effects :: "(nat \<times> response) list"

abbreviation req_user :: "request \<Rightarrow> uuid option" where "req_user req \<equiv> map_option u_ID (rq_User req)"
abbreviation req_key :: "request \<Rightarrow> string" where "req_key req \<equiv> rq_Header req IdempotencyHeader"

inductive traffic_step :: "(string \<Rightarrow> string) \<Rightarrow> (nat \<Rightarrow> request) \<Rightarrow> (nat \<Rightarrow> handler) \<Rightarrow> traffic \<Rightarrow> traffic \<Rightarrow> bool"
  for digest reqs nexts where
  claims: "phases s c = Waiting \<Longrightarrow>
     idem_claim (req_user (reqs c)) (req_key (reqs c)) (request_hash digest (reqs c)) t (24 * hour) (tw s) = (r, w') \<Longrightarrow>
     traffic_step digest reqs nexts s (s\<lparr>tw := w', phases := (phases s)(c :=
       (case r of Inl e \<Rightarrow> Answered (answer_reserve_error e) | Inr True \<Rightarrow> Claimed | Inr False \<Rightarrow> Clashed))\<rparr>)"
| inspects: "phases s c = Clashed \<Longrightarrow>
     idem_inspect (req_user (reqs c)) (req_key (reqs c)) (request_hash digest (reqs c)) (tw s) = (r, w') \<Longrightarrow>
     traffic_step digest reqs nexts s (s\<lparr>tw := w', phases := (phases s)(c :=
       Answered (case r of Inl e \<Rightarrow> answer_reserve_error e | Inr (existing, _) \<Rightarrow> answer_existing existing))\<rparr>)"
| runs: "phases s c = Claimed \<Longrightarrow>
     nexts c ((reqs c)\<lparr>rq_Body := Some (request_body (reqs c))\<rparr>) (tw s) = (r, w') \<Longrightarrow>
     idempotency_keys (store w') = idempotency_keys (store (tw s)) \<Longrightarrow>
     traffic_step digest reqs nexts s (s\<lparr>tw := w',
       phases := (phases s)(c := (case r of Inl _ \<Rightarrow> Panicked | Inr resp \<Rightarrow> Responded resp)),
       effects := effects s @ (case r of Inl _ \<Rightarrow> [] | Inr resp \<Rightarrow> [(c, resp)])\<rparr>)"
| releases: "phases s c = Panicked \<Longrightarrow>
     idem_ReleasePending (req_user (reqs c)) (req_key (reqs c)) (tw s) = (r, w') \<Longrightarrow>
     traffic_step digest reqs nexts s (s\<lparr>tw := w', phases := (phases s)(c := Aborted)\<rparr>)"
| completes: "phases s c = Responded resp \<Longrightarrow>
     idem_Complete (req_user (reqs c)) (req_key (reqs c)) (rs_Status resp) (rs_Body resp) (rs_ContentType resp) (tw s) = (r, w') \<Longrightarrow>
     traffic_step digest reqs nexts s (s\<lparr>tw := w', phases := (phases s)(c := Answered resp)\<rparr>)"
| meanwhile: "idempotency_keys (store w') = idempotency_keys (store (tw s)) \<Longrightarrow>
     traffic_step digest reqs nexts s (s\<lparr>tw := w'\<rparr>)"

text \<open>
  The invariant, per scope: who is between claiming and settling owns the pending row, alone; a scope
  with an effect has a row, and once that row is completed it holds the response of the effect.
\<close>

definition owns :: "phase \<Rightarrow> bool" where
  "owns p \<longleftrightarrow> (case p of Claimed \<Rightarrow> True | Responded _ \<Rightarrow> True | Panicked \<Rightarrow> True | _ \<Rightarrow> False)"

abbreviation scope_of :: "request \<Rightarrow> uuid option \<times> string" where "scope_of req \<equiv> (req_user req, req_key req)"

definition slot_fits :: "(nat \<Rightarrow> request) \<Rightarrow> (nat \<times> response) list \<Rightarrow> (uuid option \<times> string) \<Rightarrow> idempotency_record option \<Rightarrow> bool" where
  "slot_fits reqs effs sc ro \<longleftrightarrow>
     (\<forall>(c, resp) \<in> set effs. scope_of (reqs c) = sc \<longrightarrow>
        (\<exists>r. ro = Some r \<and> (i_Status r = IdempotencyStatusCompleted \<longrightarrow>
            i_StatusCode r = Some (rs_Status resp) \<and> i_ResponseBody r = Some (rs_Body resp) \<and>
            i_ContentType r = rs_ContentType resp)))"

definition traffic_inv :: "(nat \<Rightarrow> request) \<Rightarrow> traffic \<Rightarrow> bool" where
  "traffic_inv reqs s \<longleftrightarrow>
     idem_unique (store (tw s)) \<and>
     distinct_keys (\<lambda>(c, _). scope_of (reqs c)) (effects s) \<and>
     (\<forall>u k. slot_fits reqs (effects s) (u, k) (slot (store (tw s)) u k)) \<and>
     (\<forall>c. owns (phases s c) \<longrightarrow> (\<exists>r. slot (store (tw s)) (req_user (reqs c)) (req_key (reqs c)) = Some r \<and>
        i_Status r = IdempotencyStatusPending)) \<and>
     (\<forall>c c'. owns (phases s c) \<and> owns (phases s c') \<and> scope_of (reqs c) = scope_of (reqs c') \<longrightarrow> c = c') \<and>
     (\<forall>c. phases s c = Claimed \<or> phases s c = Panicked \<longrightarrow>
        (\<forall>(c', _) \<in> set (effects s). scope_of (reqs c') \<noteq> scope_of (reqs c))) \<and>
     (\<forall>c resp. phases s c = Responded resp \<longrightarrow> (c, resp) \<in> set (effects s))"

text \<open>Nobody who is not an owner matters, and effects do not change: the invariant survives.\<close>

lemma traffic_inv_quiet:
  assumes "traffic_inv reqs s" and "\<And>u k. slot (store w') u k = slot (store (tw s)) u k" and "idem_unique (store w')"
    and "\<And>c. ph c = phases s c \<or> \<not> owns (ph c)"
  shows "traffic_inv reqs (s\<lparr>tw := w', phases := ph\<rparr>)"
proof -
  have "owns (ph c) \<Longrightarrow> ph c = phases s c" for c using assms(4) by blast
  moreover have "owns (Responded resp)" "owns Claimed" "owns Panicked" for resp by (simp_all add: owns_def)
  ultimately show ?thesis
    using assms(1) unfolding traffic_inv_def by (simp add: assms(2,3))
qed

lemma traffic_inv_owner:
  assumes "traffic_inv reqs s" and "owns (phases s c)" and "owns (phases s c')" and "scope_of (reqs c) = scope_of (reqs c')"
  shows "c = c'"
  using assms unfolding traffic_inv_def by blast

lemma traffic_invI:
  assumes "idem_unique (store (tw s))" and "distinct_keys (\<lambda>(c, _). scope_of (reqs c)) (effects s)"
    and "\<And>u k. slot_fits reqs (effects s) (u, k) (slot (store (tw s)) u k)"
    and "\<And>c. owns (phases s c) \<Longrightarrow> \<exists>r. slot (store (tw s)) (req_user (reqs c)) (req_key (reqs c)) = Some r \<and>
        i_Status r = IdempotencyStatusPending"
    and "\<And>c c'. owns (phases s c) \<Longrightarrow> owns (phases s c') \<Longrightarrow> scope_of (reqs c) = scope_of (reqs c') \<Longrightarrow> c = c'"
    and "\<And>c c' resp. phases s c = Claimed \<or> phases s c = Panicked \<Longrightarrow> (c', resp) \<in> set (effects s) \<Longrightarrow>
        scope_of (reqs c') \<noteq> scope_of (reqs c)"
    and "\<And>c resp. phases s c = Responded resp \<Longrightarrow> (c, resp) \<in> set (effects s)"
  shows "traffic_inv reqs s"
  unfolding traffic_inv_def by (intro conjI allI impI ballI) (use assms in blast)+

lemma traffic_inv_claims:
  assumes inv: "traffic_inv reqs s" and free: "slot (store (tw s)) (req_user (reqs c)) (req_key (reqs c)) = None"
    and w': "store w' = (store (tw s))\<lparr>idempotency_keys := idempotency_keys (store (tw s)) @
        [pending_row (req_user (reqs c)) (req_key (reqs c)) h t ttl]\<rparr>"
  shows "traffic_inv reqs (s\<lparr>tw := w', phases := (phases s)(c := Claimed)\<rparr>)"
proof -
  have slots: "slot (store w') u k = (if (u, k) = scope_of (reqs c) then Some (pending_row u k h t ttl)
      else slot (store (tw s)) u k)" for u k
    using slot_claimed [OF free] by (auto simp: w')
  have noeff: "\<forall>(c', resp) \<in> set (effects s). scope_of (reqs c') \<noteq> scope_of (reqs c)"
    using inv free by (fastforce simp: traffic_inv_def slot_fits_def)
  have noown: "owns (phases s c') \<Longrightarrow> scope_of (reqs c') \<noteq> scope_of (reqs c)" for c'
    using inv free by (fastforce simp: traffic_inv_def)
  let ?s = "s\<lparr>tw := w', phases := (phases s)(c := Claimed)\<rparr>"
  have ph: "phases ?s c' = (if c' = c then Claimed else phases s c')" for c' by simp
  show ?thesis
  proof (rule traffic_invI)
    show "idem_unique (store (tw ?s))"
      using inv idem_unique_claimed [OF _ free] by (simp add: traffic_inv_def w')
    show "distinct_keys (\<lambda>(c, _). scope_of (reqs c)) (effects ?s)" using inv by (simp add: traffic_inv_def)
    show "slot_fits reqs (effects ?s) (u, k) (slot (store (tw ?s)) u k)" for u k
      using inv noeff by (auto simp: traffic_inv_def slot_fits_def slots)
    show "\<exists>r. slot (store (tw ?s)) (req_user (reqs c')) (req_key (reqs c')) = Some r \<and> i_Status r = IdempotencyStatusPending"
      if "owns (phases ?s c')" for c'
      using that inv noown [of c'] unfolding ph by (cases "c' = c") (auto simp: traffic_inv_def slots pending_row_def)
    show "c1 = c2" if "owns (phases ?s c1)" "owns (phases ?s c2)" "scope_of (reqs c1) = scope_of (reqs c2)" for c1 c2
    proof (cases "c1 = c \<or> c2 = c")
      case True
      then have "\<not> (c1 \<noteq> c)" "\<not> (c2 \<noteq> c)"
        using that noown [of c1] noown [of c2] unfolding ph by (auto split: if_splits)
      then show ?thesis by simp
    next
      case False
      then show ?thesis using traffic_inv_owner [OF inv _ _ that(3)] that(1,2) by simp
    qed
    show "scope_of (reqs c2) \<noteq> scope_of (reqs c1)"
      if "phases ?s c1 = Claimed \<or> phases ?s c1 = Panicked" "(c2, resp) \<in> set (effects ?s)" for c1 c2 resp
    proof (cases "c1 = c")
      case True
      then show ?thesis using noeff that(2) by auto
    next
      case False
      then show ?thesis using inv that unfolding ph traffic_inv_def by auto
    qed
    show "(c', resp) \<in> set (effects ?s)" if "phases ?s c' = Responded resp" for c' resp
      using inv that unfolding ph traffic_inv_def by (auto split: if_splits)
  qed
qed

lemma traffic_inv_runs:
  assumes inv: "traffic_inv reqs s" and c: "phases s c = Claimed"
    and keys: "idempotency_keys (store w') = idempotency_keys (store (tw s))"
  shows "traffic_inv reqs (s\<lparr>tw := w',
       phases := (phases s)(c := (case r of Inl _ \<Rightarrow> Panicked | Inr resp \<Rightarrow> Responded resp)),
       effects := effects s @ (case r of Inl _ \<Rightarrow> [] | Inr resp \<Rightarrow> [(c, resp)])\<rparr>)"
proof -
  have slots: "slot (store w') u k = slot (store (tw s)) u k" for u k
    by (simp add: slot_def keys)
  have un: "idem_unique (store w')" using inv by (simp add: traffic_inv_def idem_unique_def keys)
  have noeff: "\<forall>(c', resp) \<in> set (effects s). scope_of (reqs c') \<noteq> scope_of (reqs c)"
    using inv c by (auto simp: traffic_inv_def)
  have own: "owns (phases s c)" by (simp add: c owns_def)
  then obtain p where p: "slot (store (tw s)) (req_user (reqs c)) (req_key (reqs c)) = Some p"
      "i_Status p = IdempotencyStatusPending"
    using inv by (auto simp: traffic_inv_def)
  note single = traffic_inv_owner [OF inv own]
  show ?thesis
  proof (cases r)
    case (Inl e)
    have "owns Panicked" by (simp add: owns_def)
    with inv noeff p own Inl single show ?thesis
      unfolding traffic_inv_def by (simp add: slots un) metis
  next
    case (Inr resp)
    have "owns (Responded resp)" by (simp add: owns_def)
    moreover have "distinct_keys (\<lambda>(c, _). scope_of (reqs c)) (effects s @ [(c, resp)])"
      using inv noeff by (auto simp: traffic_inv_def distinct_keys_append row_by_None)
    moreover have "slot_fits reqs (effects s @ [(c, resp)]) (u, k) (slot (store (tw s)) u k)" for u k
      using inv p by (auto simp: traffic_inv_def slot_fits_def)
    moreover have "scope_of (reqs c) \<noteq> scope_of (reqs c')" if "phases s c' = Claimed \<or> phases s c' = Panicked" "c' \<noteq> c" for c'
      using single [of c'] that by (auto simp: owns_def)
    ultimately show ?thesis
      using inv noeff p own Inr single
      unfolding traffic_inv_def by (simp add: slots un) metis
  qed
qed

lemma traffic_inv_releases:
  assumes inv: "traffic_inv reqs s" and c: "phases s c = Panicked"
    and w': "store w' = (store (tw s))\<lparr>idempotency_keys :=
      delete_where (pending_in (req_user (reqs c)) (req_key (reqs c))) (idempotency_keys (store (tw s)))\<rparr>"
  shows "traffic_inv reqs (s\<lparr>tw := w', phases := (phases s)(c := Aborted)\<rparr>)"
proof -
  have slots: "slot (store w') u k = slot (store (tw s)) u k" if "(u, k) \<noteq> scope_of (reqs c)" for u k
    using slot_released_elsewhere that by (simp add: w')
  have noeff: "\<forall>(c', resp) \<in> set (effects s). scope_of (reqs c') \<noteq> scope_of (reqs c)"
    using inv c by (auto simp: traffic_inv_def)
  have noown: "owns (phases s c') \<Longrightarrow> c' \<noteq> c \<Longrightarrow> scope_of (reqs c') \<noteq> scope_of (reqs c)" for c'
    using traffic_inv_owner [OF inv, of c' c] c by (auto simp: owns_def)
  have un: "idem_unique (store w')"
    using inv by (auto simp: traffic_inv_def idem_unique_def w' intro: distinct_keys_delete)
  have fits: "slot_fits reqs (effects s) (u, k) (slot (store w') u k)" for u k
    using inv noeff slots [of u k] by (cases "(u, k) = scope_of (reqs c)") (auto simp: traffic_inv_def slot_fits_def)
  have pend: "\<exists>r. slot (store w') (req_user (reqs c')) (req_key (reqs c')) = Some r \<and> i_Status r = IdempotencyStatusPending"
    if "owns (if c' = c then Aborted else phases s c')" for c'
    using inv noown [of c'] slots [of "req_user (reqs c')" "req_key (reqs c')"] that
    by (cases "c' = c") (auto simp: traffic_inv_def owns_def)
  have "\<not> owns Aborted" by (simp add: owns_def)
  then show ?thesis
    using inv un fits pend unfolding traffic_inv_def by simp
qed

lemma traffic_inv_completes:
  assumes inv: "traffic_inv reqs s" and c: "phases s c = Responded resp"
    and w': "store w' = (store (tw s))\<lparr>idempotency_keys := update_where (pending_in (req_user (reqs c)) (req_key (reqs c)))
        (completed (rs_Status resp) (rs_Body resp) (rs_ContentType resp)) (idempotency_keys (store (tw s)))\<rparr>"
  shows "traffic_inv reqs (s\<lparr>tw := w', phases := (phases s)(c := Answered resp)\<rparr>)"
proof -
  have slots: "slot (store w') u k = slot (store (tw s)) u k" if "(u, k) \<noteq> scope_of (reqs c)" for u k
    using slot_completed_elsewhere that by (simp add: w')
  have own: "owns (phases s c)" and eff: "(c, resp) \<in> set (effects s)"
    using inv c by (auto simp: traffic_inv_def owns_def)
  obtain p where p: "slot (store (tw s)) (req_user (reqs c)) (req_key (reqs c)) = Some p" "i_Status p = IdempotencyStatusPending"
    using inv own by (auto simp: traffic_inv_def)
  have new: "slot (store w') (req_user (reqs c)) (req_key (reqs c)) =
      Some (completed (rs_Status resp) (rs_Body resp) (rs_ContentType resp) p)"
    using p pending_in_slot [OF p] by (simp add: w' slot_completed)
  have "distinct_keys (\<lambda>(c, _). scope_of (reqs c)) (effects s)" using inv by (simp add: traffic_inv_def)
  then have only: "resp' = resp" if "(c', resp') \<in> set (effects s)" "scope_of (reqs c') = scope_of (reqs c)" for c' resp'
    using distinct_keys_inj [of "\<lambda>(c, _). scope_of (reqs c)", OF _ that(1) eff] that(2) by auto
  have noown: "owns (phases s c') \<Longrightarrow> c' \<noteq> c \<Longrightarrow> scope_of (reqs c') \<noteq> scope_of (reqs c)" for c'
    using traffic_inv_owner [OF inv _ own, of c'] by auto
  have un: "idem_unique (store w')"
    using inv by (auto simp: traffic_inv_def idem_unique_def w' distinct_keys_update completed_def)
  have fits: "slot_fits reqs (effects s) (u, k) (slot (store w') u k)" for u k
  proof (cases "(u, k) = scope_of (reqs c)")
    case True
    then show ?thesis using new only by (fastforce simp: slot_fits_def completed_def)
  next
    case False
    then show ?thesis using inv slots [OF False] by (simp add: traffic_inv_def)
  qed
  have pend: "\<exists>r. slot (store w') (req_user (reqs c')) (req_key (reqs c')) = Some r \<and> i_Status r = IdempotencyStatusPending"
    if "owns (if c' = c then Answered resp else phases s c')" for c'
    using inv noown [of c'] slots [of "req_user (reqs c')" "req_key (reqs c')"] that
    by (cases "c' = c") (auto simp: traffic_inv_def owns_def)
  have "\<not> owns (Answered resp)" by (simp add: owns_def)
  then show ?thesis
    using inv un fits pend unfolding traffic_inv_def by simp
qed

lemma sql_ends:
  assumes "sql f w = (r, w')"
  shows "(store w' = store w \<and> (\<exists>e. r = Inl e)) \<or> (\<exists>x d. r = Inr x \<and> f (clock w (readings w)) (store w) = Inr (x, d) \<and> store w' = d)"
  using assms by (auto simp: sql_def Let_def split: if_splits sum.splits prod.splits)

lemma traffic_inv_preserved:
  assumes "traffic_step digest reqs nexts s s'" and inv: "traffic_inv reqs s"
  shows "traffic_inv reqs s'"
  using assms(1)
proof cases
  case (claims c t r w')
  let ?u = "req_user (reqs c)" and ?k = "req_key (reqs c)"
  from claims(3) consider (won) "slot (store (tw s)) ?u ?k = None" "r = Inr True"
      "store w' = (store (tw s))\<lparr>idempotency_keys := idempotency_keys (store (tw s)) @
        [pending_row ?u ?k (request_hash digest (reqs c)) t (24 * hour)]\<rparr>"
    | (lost) "r \<noteq> Inr True" "store w' = store (tw s)"
    unfolding idem_claim_def by (auto dest!: sql_ends split: option.splits)
  then show ?thesis
  proof cases
    case won
    then show ?thesis using traffic_inv_claims [OF inv won(1,3)] claims(1) by simp
  next
    case lost
    then show ?thesis
      unfolding claims(1) using inv
      by (intro traffic_inv_quiet) (auto simp: traffic_inv_def owns_def split: sum.splits bool.splits)
  qed
next
  case (inspects c r w')
  have "store w' = store (tw s)" using readonlyD [OF idem_inspect_readonly inspects(3)] .
  then show ?thesis
    unfolding inspects(1) using inv by (intro traffic_inv_quiet) (auto simp: traffic_inv_def owns_def)
next
  case (runs c r w')
  then show ?thesis using traffic_inv_runs [OF inv runs(2,4)] by simp
next
  case (releases c r w')
  show ?thesis
  proof (cases "store w' = store (tw s)")
    case True
    then show ?thesis
      unfolding releases(1) using inv by (intro traffic_inv_quiet) (auto simp: traffic_inv_def owns_def)
  next
    case False
    then show ?thesis
      unfolding releases(1) using releases(3)
      by (intro traffic_inv_releases [OF inv releases(2)]) (auto simp: idem_ReleasePending_def dest!: sql_ends)
  qed
next
  case (completes c resp r w')
  show ?thesis
  proof (cases "store w' = store (tw s)")
    case True
    then show ?thesis
      unfolding completes(1) using inv by (intro traffic_inv_quiet) (auto simp: traffic_inv_def owns_def)
  next
    case False
    then show ?thesis
      unfolding completes(1) using completes(3)
      by (intro traffic_inv_completes [OF inv completes(2)]) (auto simp: idem_Complete_def dest!: sql_ends split: if_splits)
  qed
next
  case (meanwhile w')
  have "traffic_inv reqs (s\<lparr>tw := w', phases := phases s\<rparr>)"
    using inv meanwhile(2) by (intro traffic_inv_quiet) (auto simp: traffic_inv_def slot_def idem_unique_def)
  then show ?thesis by (simp add: meanwhile(1))
qed

lemma traffic_inv_reachable:
  assumes "rtranclp (traffic_step digest reqs nexts) s s'" and "traffic_inv reqs s"
  shows "traffic_inv reqs s'"
  using assms by (induction rule: rtranclp_induct) (auto intro: traffic_inv_preserved)

definition traffic_start :: "traffic \<Rightarrow> bool" where
  "traffic_start s \<longleftrightarrow> idem_unique (store (tw s)) \<and> effects s = [] \<and> (\<forall>c. phases s c = Waiting)"

lemma traffic_inv_start: "traffic_start s \<Longrightarrow> traffic_inv reqs s"
  by (simp add: traffic_start_def traffic_inv_def slot_fits_def owns_def distinct_keys_def)

section \<open>An example\<close>

definition demo_caller :: user where
  "demo_caller = \<lparr>u_ID = 7, u_Username = ''alice'', u_PasswordHash = [], u_IsBlacklisted = False,
     u_BlacklistReason = [], u_IsAdmin = False, u_MustRotatePassword = False, u_AnonymizedAt = None,
     u_FailedAttempts = 0, u_LockedUntil = None, u_LastLoginAt = None, u_CreatedAt = 0, u_UpdatedAt = 0\<rparr>"

definition demo_request :: "string \<Rightarrow> request" where
  "demo_request body = \<lparr>rq_Method = ''POST'', rq_Path = ''/api/bookings'', rq_RawQuery = [],
     rq_Header = (\<lambda>h. if h = IdempotencyHeader then ''k1'' else []), rq_Body = Some body, rq_User = Some demo_caller\<rparr>"

definition demo_digest :: "string \<Rightarrow> string" where
  "demo_digest s = s"

text \<open>A handler whose effect is visible: it adds a resource row and answers 201.\<close>

definition demo_handler :: handler where
  "demo_handler req = bindE (sql (\<lambda>t d. Inr ((), d\<lparr>resources := resources d @
     [\<lparr>r_ID = length (resources d), r_Name = [], r_Description = [], r_Capacity = 1, r_CreatedAt = t\<rparr>]\<rparr>)))
     (\<lambda>_. ret \<lparr>rs_Status = 201, rs_ContentType = ''application/json; charset=utf-8'', rs_Headers = [], rs_Body = ''{}''\<rparr>)"

lemma demo_handler_keeps:
  "keeps_oracles (demo_handler req)"
  "demo_handler req w = (x, w') \<Longrightarrow> idempotency_keys (store w') = idempotency_keys (store w)"
  by (auto simp: demo_handler_def intro!: oracle_rules)
    (auto simp: bindE_def ret_def sql_def Let_def split: if_splits)

lemma demo_first_run:
  "\<exists>resp w1. Idempotency idemRepo demo_digest demo_handler (demo_request ''{}'') (demo_world empty_db 0) = (Inr resp, w1) \<and>
     rs_Status resp = 201 \<and> calm w1 \<and> length (resources (store w1)) = 1"
  by (simp add: Idempotency_def idemRepo_def idem_Reserve_def idem_claim_def run_and_record_def idem_Complete_def
      demo_handler_def demo_request_def demo_caller_def slot_def in_scope_def pending_in_def pending_row_def
      request_hash_def request_body_def IdempotencyHeader_def run_defs demo_world_def empty_db_def calm_def)

section \<open>Properties\<close>

text \<open>
  C23. A retry gets the first answer. In a world without outages, a request with a fresh key runs its
  handler once; if that answers, every later request of the same user with the same key, method, path
  and body is answered with the same status, content type and body, without running anything and
  without changing the store, and one with a different digest is refused with 409. If the handler
  panics, the key is free again.
\<close>

theorem retry_gets_the_first_answer:
  assumes "calm w" and "idem_unique (store w)" and "req_key req \<noteq> []"
    and "slot (store w) (req_user req) (req_key req) = None"
    and "\<And>req'. keeps_oracles (next req')"
    and "\<And>req' w x w'. next req' w = (x, w') \<Longrightarrow> idempotency_keys (store w') = idempotency_keys (store w)"
    and "Idempotency idemRepo digest next req w = (x, w1)"
    and "calm w2" and "idempotency_keys (store w2) = idempotency_keys (store w1)"
    and "scope_of req2 = scope_of req"
  shows "(\<exists>wa wb. next (req\<lparr>rq_Body := Some (request_body req)\<rparr>) wa = (x, wb)) \<and>
    (case x of
       Inl _ \<Rightarrow> slot (store w1) (req_user req) (req_key req) = None
     | Inr resp \<Rightarrow> \<exists>w3. Idempotency idemRepo digest next' req2 w2 =
         (Inr (if request_hash digest req2 = request_hash digest req
               then \<lparr>rs_Status = rs_Status resp, rs_ContentType = rs_ContentType resp,
                     rs_Headers = [(''Idempotent-Replay'', ''true'')], rs_Body = rs_Body resp\<rparr>
               else mismatch_response), w3) \<and> store w3 = store w2)"
proof -
  have keeps: "slot (store w') (req_user req) (req_key req) = slot (store w) (req_user req) (req_key req) \<and>
      idem_unique (store w') = idem_unique (store w)"
    if "next (req\<lparr>rq_Body := Some (request_body req)\<rparr>) w = (y, w')" for w w' y
    using assms(6) [OF that] by (simp add: slot_def idem_unique_def)
  obtain wa wb t where ran: "next (req\<lparr>rq_Body := Some (request_body req)\<rparr>) wa = (x, wb)"
    and after: "case x of Inl _ \<Rightarrow> slot (store w1) (req_user req) (req_key req) = None
     | Inr resp \<Rightarrow> slot (store w1) (req_user req) (req_key req) =
         Some (completed (rs_Status resp) (rs_Body resp) (rs_ContentType resp)
           (pending_row (req_user req) (req_key req) (request_hash digest req) t (24 * hour)))"
  proof -
    have "\<exists>wa y wb w' t. next (req\<lparr>rq_Body := Some (request_body req)\<rparr>) wa = (y, wb) \<and>
      Idempotency idemRepo digest next req w = (y, w') \<and>
      (case y of Inl _ \<Rightarrow> slot (store w') (req_user req) (req_key req) = None
       | Inr resp \<Rightarrow> slot (store w') (req_user req) (req_key req) =
         Some (completed (rs_Status resp) (rs_Body resp) (rs_ContentType resp)
           (pending_row (req_user req) (req_key req) (request_hash digest req) t (24 * hour))))"
      by (rule idem.free_runs [OF assms(1,2,4,3,5)]) (rule keeps)
    then show ?thesis using that assms(7) by auto
  qed
  show ?thesis
  proof (cases x)
    case (Inl e)
    then show ?thesis using ran after by auto
  next
    case (Inr resp)
    then have "slot (store w2) (req_user req2) (req_key req2) = Some (completed (rs_Status resp) (rs_Body resp)
        (rs_ContentType resp) (pending_row (req_user req) (req_key req) (request_hash digest req) t (24 * hour)))"
      using after assms(9,10) by (simp add: slot_def)
    from idem.taken_answers [OF assms(8) this, of digest next'] show ?thesis
      using ran Inr assms(3,10)
      by (auto simp: completed_def pending_row_def replay_def coalesced_def)
  qed
qed

theorem retry_gets_the_first_answer_witness:
  "\<exists>resp w1 resp2 w2. Idempotency idemRepo demo_digest demo_handler (demo_request ''{}'') (demo_world empty_db 0) = (Inr resp, w1) \<and>
     Idempotency idemRepo demo_digest demo_handler (demo_request ''{}'') w1 = (Inr resp2, w2) \<and>
     rs_Status resp2 = 201 \<and> rs_Body resp2 = rs_Body resp \<and> length (resources (store w2)) = 1"
proof -
  obtain resp w1 where run: "Idempotency idemRepo demo_digest demo_handler (demo_request ''{}'') (demo_world empty_db 0) = (Inr resp, w1)"
    and w1: "rs_Status resp = 201" "calm w1" "length (resources (store w1)) = 1"
    using demo_first_run by (elim exE conjE) (rule that)
  let ?again = "\<lparr>rs_Status = rs_Status resp, rs_ContentType = rs_ContentType resp,
      rs_Headers = [(''Idempotent-Replay'', ''true'')], rs_Body = rs_Body resp\<rparr>"
  have fresh: "slot empty_db u k = None" "idem_unique empty_db" for u k
    by (simp_all add: slot_def idem_unique_def distinct_keys_def empty_db_def)
  have "\<exists>w3. Idempotency idemRepo demo_digest demo_handler (demo_request ''{}'') w1 = (Inr ?again, w3) \<and> store w3 = store w1"
    using retry_gets_the_first_answer [where next' = demo_handler, OF calm_demo _ _ _ demo_handler_keeps run w1(2) refl refl] fresh
    by (simp add: demo_request_def IdempotencyHeader_def demo_world_def)
  then show ?thesis using run w1 by (elim exE) (auto intro!: exI [of _ resp])
qed

text \<open>
  C24. At most once, also in a crowd. In every interleaving of any number of requests, with whatever
  statements failing and handlers panicking: for one user and key at most one run of a handler ended in
  a response, and whoever is answered by a replay is answered with the stored form of exactly that
  response.
\<close>

theorem at_most_one_effect_per_key:
  assumes "traffic_start s" and "rtranclp (traffic_step digest reqs nexts) s s'"
    and "(c1, resp1) \<in> set (effects s')" and "(c2, resp2) \<in> set (effects s')"
    and "scope_of (reqs c1) = scope_of (reqs c2)"
  shows "(c1, resp1) = (c2, resp2) \<and>
    (\<exists>r. slot (store (tw s')) (req_user (reqs c1)) (req_key (reqs c1)) = Some r \<and>
       (i_Status r = IdempotencyStatusCompleted \<longrightarrow> replay (coalesced r) =
          \<lparr>rs_Status = rs_Status resp1, rs_ContentType = rs_ContentType resp1,
           rs_Headers = [(''Idempotent-Replay'', ''true'')], rs_Body = rs_Body resp1\<rparr>))"
proof -
  have inv: "traffic_inv reqs s'" by (rule traffic_inv_reachable [OF assms(2) traffic_inv_start [OF assms(1)]])
  then have "distinct_keys (\<lambda>(c, _). scope_of (reqs c)) (effects s')" by (simp add: traffic_inv_def)
  then have "(c1, resp1) = (c2, resp2)"
    by (rule distinct_keys_inj [OF _ assms(3,4)]) (use assms(5) in simp)
  moreover have "slot_fits reqs (effects s') (scope_of (reqs c1)) (slot (store (tw s')) (req_user (reqs c1)) (req_key (reqs c1)))"
    using inv by (simp add: traffic_inv_def)
  ultimately show ?thesis
    using assms(3) by (fastforce simp: slot_fits_def replay_def coalesced_def)
qed

definition demo_traffic :: traffic where
  "demo_traffic = \<lparr>tw = demo_world empty_db 0, phases = (\<lambda>_. Waiting), effects = []\<rparr>"

lemma demo_traffic_runs:
  "\<exists>s' resp. rtranclp (traffic_step demo_digest (\<lambda>_. demo_request ''{}'') (\<lambda>_. demo_handler)) demo_traffic s' \<and> effects s' = [(0, resp)]"
proof -
  let ?step = "traffic_step demo_digest (\<lambda>_. demo_request ''{}'') (\<lambda>_. demo_handler)"
  let ?r = "demo_request ''{}''"
  obtain w1 where w1: "idem_claim (req_user ?r) (req_key ?r) (request_hash demo_digest ?r) 0 (24 * hour) (tw demo_traffic) = (Inr True, w1)"
      "calm w1"
    by (simp add: idem_claim_def sql_def Let_def demo_traffic_def slot_def demo_world_def empty_db_def calm_def)
  obtain resp w2 where w2: "demo_handler (?r\<lparr>rq_Body := Some (request_body ?r)\<rparr>) w1 = (Inr resp, w2)"
    using w1(2) by (simp add: demo_handler_def bindE_def sql_calm ret_def)
  define a where "a = demo_traffic\<lparr>tw := w1, phases := (phases demo_traffic)(0 := Claimed)\<rparr>"
  have "?step demo_traffic a"
    unfolding a_def using traffic_step.claims [of demo_traffic 0 "\<lambda>_. ?r", OF _ w1(1)] by (simp add: demo_traffic_def)
  moreover have "?step a (a\<lparr>tw := w2, phases := (phases a)(0 := Responded resp), effects := [(0, resp)]\<rparr>)"
    using traffic_step.runs [of a 0 "\<lambda>_. demo_handler" "\<lambda>_. ?r" "Inr resp" w2 demo_digest] w2 demo_handler_keeps(2)
    by (simp add: a_def demo_traffic_def)
  ultimately have "rtranclp ?step demo_traffic (a\<lparr>tw := w2, phases := (phases a)(0 := Responded resp), effects := [(0, resp)]\<rparr>)"
    by (meson rtranclp.rtrancl_into_rtrancl rtranclp.rtrancl_refl)
  then show ?thesis by (intro exI conjI) auto
qed

theorem at_most_one_effect_per_key_witness:
  "\<exists>s' resp r. rtranclp (traffic_step demo_digest (\<lambda>_. demo_request ''{}'') (\<lambda>_. demo_handler)) demo_traffic s' \<and>
     effects s' = [(0, resp)] \<and> slot (store (tw s')) (Some 7) ''k1'' = Some r"
proof -
  obtain s' resp where s': "rtranclp (traffic_step demo_digest (\<lambda>_. demo_request ''{}'') (\<lambda>_. demo_handler)) demo_traffic s'"
      "effects s' = [(0, resp)]"
    using demo_traffic_runs by blast
  have "traffic_start demo_traffic"
    by (simp add: traffic_start_def demo_traffic_def demo_world_def empty_db_def idem_unique_def distinct_keys_def)
  then show ?thesis
    using at_most_one_effect_per_key [OF _ s'(1), of 0 resp 0 resp] s'
    by (auto simp: demo_request_def demo_caller_def IdempotencyHeader_def)
qed

text \<open>
  Keys are private. A request, whatever its fate, leaves the slot of every other user (and of every
  other key) as it was: no client can take, replay or block a key that belongs to another user.
\<close>

lemma keys_are_private:
  assumes "Idempotency idemRepo digest next req w = (x, w')"
    and "\<And>req' w x w'. next req' w = (x, w') \<Longrightarrow> idempotency_keys (store w') = idempotency_keys (store w)"
    and "u \<noteq> req_user req \<or> k \<noteq> req_key req"
  shows "slot (store w') u k = slot (store w) u k"
  by (rule idem.others_untouched [OF assms(1)]) (use assms(2,3) in \<open>auto simp: slot_def\<close>)

text \<open>
  An unfinished key stays shut for good. Once a request has run its handler and its response could
  not be stored, the row stays pending, and every retry is answered with 409 and changes nothing, at
  any later time: the expiry the row carries is never looked at.
\<close>

lemma unfinished_key_stays_shut:
  assumes "calm w" and "req_key req \<noteq> []"
    and "slot (store w) (req_user req) (req_key req) = Some r" and "i_Status r = IdempotencyStatusPending"
    and "i_RequestHash r = request_hash digest req" and "i_ExpiresAt r < clock w (readings w)"
  shows "\<exists>w'. Idempotency idemRepo digest next req w = (Inr in_flight_response, w') \<and> store w' = store w"
  using idem.taken_answers [OF assms(1,3,2), of digest "next"] assms(4,5) by simp

end
