(* ===== verification/Pdf_Reader.thy ===== *)
theory Pdf_Reader
  imports Prelude
begin

text \<open>
  A reader of simple PDF files, written from the file format and not from the program: it finds the
  cross-reference table from the end of the file, follows the references from the trailer to the page,
  cuts the content stream out by its declared length and runs the text operators. Theory Rendering
  proves that it recovers the texts that \<open>RenderSimplePDF\<close> was given.
\<close>

section \<open>Words and numbers\<close>

abbreviation (input) nl :: string where "nl \<equiv> [CHR 0x0A]"

fun expect :: "string \<Rightarrow> string \<Rightarrow> string option" where
  "expect [] s = Some s"
| "expect (c # p) [] = None"
| "expect (c # p) (d # s) = (if c = d then expect p s else None)"

text \<open>What stands before the first occurrence of a word, and what follows it.\<close>

fun split_at :: "string \<Rightarrow> string \<Rightarrow> (string \<times> string) option" where
  "split_at p [] = None"
| "split_at p (c # cs) =
     (case expect p (c # cs) of
        Some r \<Rightarrow> Some ([], r)
      | None \<Rightarrow> map_option (\<lambda>(a, r). (c # a, r)) (split_at p cs))"

definition digit :: "char \<Rightarrow> bool" where
  "digit c \<longleftrightarrow> 48 \<le> (of_char c :: nat) \<and> of_char c \<le> (57::nat)"

definition number :: "string \<Rightarrow> nat" where
  "number s = foldl (\<lambda>n c. 10 * n + (of_char c - 48)) 0 s"

definition read_nat :: "string \<Rightarrow> (nat \<times> string) option" where
  "read_nat s = (if takeWhile digit s = [] then None else Some (number (takeWhile digit s), dropWhile digit s))"

definition read_int :: "string \<Rightarrow> (int \<times> string) option" where
  "read_int s =
     (case expect ''-'' s of
        Some r \<Rightarrow> map_option (\<lambda>(n, r). (- int n, r)) (read_nat r)
      | None \<Rightarrow> map_option (\<lambda>(n, r). (int n, r)) (read_nat s))"

section \<open>The cross-reference table\<close>

text \<open>The number between \<open>startxref\<close> and \<open>%%EOF\<close>, looked for from the end.\<close>

definition read_startxref :: "string \<Rightarrow> nat option" where
  "read_startxref file =
     Option.bind (expect (rev (nl @ ''%%EOF'' @ nl)) (rev file)) (\<lambda>r.
     Option.bind (expect (rev (nl @ ''startxref'' @ nl)) (dropWhile digit r)) (\<lambda>_.
     if takeWhile digit r = [] then None else Some (number (rev (takeWhile digit r)))))"

text \<open>Entries of exactly twenty bytes, all of objects in use.\<close>

fun read_entries :: "nat \<Rightarrow> string \<Rightarrow> (nat list \<times> string) option" where
  "read_entries 0 s = Some ([], s)"
| "read_entries (Suc n) s =
     (if length (take 10 s) = 10 \<and> list_all digit (take 10 s)
      then Option.bind (expect ('' 00000 n '' @ nl) (drop 10 s)) (\<lambda>r.
           map_option (\<lambda>(offs, r). (number (take 10 s) # offs, r)) (read_entries n r))
      else None)"

definition read_ref :: "string \<Rightarrow> nat option" where
  "read_ref s = Option.bind (read_nat s) (\<lambda>(i, s). map_option (\<lambda>_. i) (expect '' 0 R'' s))"

definition dict_nat :: "string \<Rightarrow> string \<Rightarrow> nat option" where
  "dict_nat key dict = Option.bind (split_at key dict) (\<lambda>(_, s). map_option fst (read_nat s))"

definition dict_ref :: "string \<Rightarrow> string \<Rightarrow> nat option" where
  "dict_ref key dict = Option.bind (split_at key dict) (\<lambda>(_, s). read_ref s)"

text \<open>The offsets of the objects and the number of the root object; the two sizes have to agree.\<close>

definition read_xref :: "string \<Rightarrow> (nat list \<times> nat) option" where
  "read_xref s =
     Option.bind (expect (''xref'' @ nl @ ''0 '') s) (\<lambda>s.
     Option.bind (read_nat s) (\<lambda>(n, s).
     Option.bind (expect (nl @ ''0000000000 65535 f '' @ nl) s) (\<lambda>s.
     Option.bind (read_entries (n - 1) s) (\<lambda>(offs, s).
     Option.bind (expect (''trailer'' @ nl @ ''<<'') s) (\<lambda>s.
     Option.bind (split_at (''>>'' @ nl @ ''startxref'' @ nl) s) (\<lambda>(dict, _).
     Option.bind (dict_nat ''/Size '' dict) (\<lambda>size.
     Option.bind (dict_ref ''/Root '' dict) (\<lambda>root.
     if n \<noteq> 0 \<and> size = n then Some (offs, root) else None))))))))"

section \<open>Objects\<close>

text \<open>Object \<open>i\<close> is where its entry says, under its own number.\<close>

definition read_object :: "string \<Rightarrow> nat list \<Rightarrow> nat \<Rightarrow> string option" where
  "read_object file offs i =
     (if i = 0 \<or> length offs < i then None
      else Option.bind (read_nat (drop (offs ! (i - 1)) file)) (\<lambda>(n, s).
           if n = i then expect ('' 0 obj'' @ nl) s else None))"

definition read_dict :: "string \<Rightarrow> nat list \<Rightarrow> string \<Rightarrow> nat \<Rightarrow> string option" where
  "read_dict file offs type i =
     Option.bind (read_object file offs i) (\<lambda>s.
     Option.bind (expect ''<<'' s) (\<lambda>s.
     Option.bind (split_at (''>>'' @ nl @ ''endobj'' @ nl) s) (\<lambda>(dict, _).
     Option.bind (split_at (''/Type /'' @ type @ '' '') dict) (\<lambda>_. Some dict))))"

text \<open>A stream has exactly the declared length: \<open>endstream\<close> follows it.\<close>

definition read_stream :: "string \<Rightarrow> string option" where
  "read_stream s =
     Option.bind (expect ''<<'' s) (\<lambda>s.
     Option.bind (split_at (''>>'' @ nl @ ''stream'' @ nl) s) (\<lambda>(dict, s).
     Option.bind (dict_nat ''/Length '' dict) (\<lambda>n.
     Option.bind (expect (nl @ ''endstream'' @ nl @ ''endobj'' @ nl) (drop n s)) (\<lambda>_. Some (take n s)))))"

section \<open>The page\<close>

text \<open>
  A literal string: called after the opening parenthesis with the nesting depth, \<open>read_literal\<close>
  returns the text up to the matching one and what follows it.
\<close>

fun read_literal :: "nat \<Rightarrow> string \<Rightarrow> (string \<times> string) option" where
  "read_literal d [] = None"
| "read_literal d (c # cs) =
     (if c = CHR 0x5C then
        (case cs of [] \<Rightarrow> None | e # es \<Rightarrow> map_option (\<lambda>(s, r). (e # s, r)) (read_literal d es))
      else if c = CHR ''('' then map_option (\<lambda>(s, r). (c # s, r)) (read_literal (Suc d) cs)
      else if c = CHR '')'' then
        (case d of 0 \<Rightarrow> Some ([], cs) | Suc d' \<Rightarrow> map_option (\<lambda>(s, r). (c # s, r)) (read_literal d' cs))
      else map_option (\<lambda>(s, r). (c # s, r)) (read_literal d cs))"

text \<open>The operators of a text object: set the font size, move, show a string, end.\<close>

datatype pdf_op = Tf nat | Td int int | Tj string | ET

definition read_op :: "string \<Rightarrow> (pdf_op \<times> string) option" where
  "read_op s =
     (case expect (''ET'' @ nl) s of Some r \<Rightarrow> Some (ET, r) | None \<Rightarrow>
     (case expect ''('' s of
        Some r \<Rightarrow> Option.bind (read_literal 0 r) (\<lambda>(t, r). map_option (\<lambda>r. (Tj t, r)) (expect ('' Tj'' @ nl) r))
      | None \<Rightarrow>
     (case expect ''/F1 '' s of
        Some r \<Rightarrow> Option.bind (read_nat r) (\<lambda>(n, r). map_option (\<lambda>r. (Tf n, r)) (expect ('' Tf'' @ nl) r))
      | None \<Rightarrow>
          Option.bind (read_int s) (\<lambda>(x, r).
          Option.bind (expect '' '' r) (\<lambda>r.
          Option.bind (read_int r) (\<lambda>(y, r). map_option (\<lambda>r. (Td x y, r)) (expect ('' Td'' @ nl) r)))))))"

function read_ops :: "string \<Rightarrow> pdf_op list option" where
  "read_ops s =
     (case read_op s of
        None \<Rightarrow> None
      | Some (oper, r) \<Rightarrow>
          if oper = ET then (if r = [] then Some [] else None)
          else if length r < length s then map_option ((#) oper) (read_ops r)
          else None)"
  by pat_completeness auto
termination by (relation "measure length") auto

declare read_ops.simps [simp del]

text \<open>
  What appears on the page: font size, position in points from the lower left corner, text. \<open>Td\<close>
  moves relative to the start of the current line.
\<close>

type_synonym shown = "nat \<times> int \<times> int \<times> string"

fun show_ops :: "nat \<Rightarrow> int \<Rightarrow> int \<Rightarrow> pdf_op list \<Rightarrow> shown list" where
  "show_ops f x y (Tf n # ops) = show_ops n x y ops"
| "show_ops f x y (Td dx dy # ops) = show_ops f (x + dx) (y + dy) ops"
| "show_ops f x y (Tj t # ops) = (f, x, y, t) # show_ops f x y ops"
| "show_ops f x y _ = []"

definition read_content :: "string \<Rightarrow> shown list option" where
  "read_content s = Option.bind (expect (''BT'' @ nl) s) (\<lambda>s. map_option (show_ops 0 0 0) (read_ops s))"

text \<open>
  The file: header, cross-reference table, catalog, page tree, page, its font and its content.
\<close>

definition read_pdf :: "string \<Rightarrow> shown list option" where
  "read_pdf file =
     Option.bind (expect ''%PDF-1.'' file) (\<lambda>_.
     Option.bind (read_startxref file) (\<lambda>x.
     Option.bind (read_xref (drop x file)) (\<lambda>(offs, root).
     Option.bind (read_dict file offs ''Catalog'' root) (\<lambda>cat.
     Option.bind (dict_ref ''/Pages '' cat) (\<lambda>p.
     Option.bind (read_dict file offs ''Pages'' p) (\<lambda>pages.
     Option.bind (dict_ref ''/Kids ['' pages) (\<lambda>k.
     Option.bind (read_dict file offs ''Page'' k) (\<lambda>page.
     Option.bind (dict_ref ''/F1 '' page) (\<lambda>f.
     Option.bind (read_dict file offs ''Font'' f) (\<lambda>_.
     Option.bind (dict_ref ''/Contents '' page) (\<lambda>c.
     Option.bind (read_object file offs c) (\<lambda>s.
     Option.bind (read_stream s) read_content))))))))))))"

section \<open>Reading what was written\<close>

lemma expect_append [simp]: "expect p (p @ s) = Some s"
  by (induction p) simp_all

lemma split_at_skip: "split_at (c # p) (ds @ s) = map_option (\<lambda>(a, r). (ds @ a, r)) (split_at (c # p) s)"
  if "c \<notin> set ds"
  using that by (induction ds) (auto simp: option.map_comp comp_def case_prod_unfold option.map_ident)

lemma nat_digits_nonempty [simp]: "nat_digits n \<noteq> []"
  by (subst nat_digits.simps) simp

lemma digit_char_of [simp]: "(m :: nat) < 10 \<Longrightarrow> digit (char_of (48 + m))"
  by (simp add: digit_def)

lemma nat_digits_digits: "list_all digit (nat_digits n)"
proof (induction n rule: nat_digits.induct)
  case (1 n)
  then show ?case by (cases "n < 10") (simp_all add: nat_digits.simps [of n])
qed

lemma number_snoc: "number (s @ [c]) = 10 * number s + (of_char c - 48)"
  by (simp add: number_def)

lemma number_nat_digits [simp]: "number (nat_digits n) = n"
proof (induction n rule: nat_digits.induct)
  case (1 n)
  then show ?case
    by (cases "n < 10") (simp_all add: nat_digits.simps [of n] number_snoc, simp add: number_def)
qed

lemma number_zeros: "number (replicate k (CHR ''0'') @ s) = number s"
  by (induction k) (simp_all add: number_def)

lemma takeWhile_digits: "list_all digit ds \<Longrightarrow> (s = [] \<or> \<not> digit (hd s)) \<Longrightarrow> takeWhile digit (ds @ s) = ds \<and> dropWhile digit (ds @ s) = s"
  by (cases s) (auto simp: list_all_iff takeWhile_append2 dropWhile_append2)

lemma read_nat_digits [simp]: "s = [] \<or> \<not> digit (hd s) \<Longrightarrow> read_nat (nat_digits n @ s) = Some (n, s)"
  using takeWhile_digits [OF nat_digits_digits, of s n] by (simp add: read_nat_def)

end
