(* ===== verification/Rendering.thy ===== *)
theory Rendering
  imports Effects Pdf_Reader
begin

text \<open>
  The pure half of \<open>service/document.go\<close>: the hand-written PDF of a confirmation, byte for byte, and
  the drawing instructions of the PNG check-in pass (rasterising them is \<open>image/png\<close> and a font
  package, a parameter of theory Documents); with \<open>time.Format(time.RFC3339)\<close> for UTC instants.
\<close>

section \<open>Dates\<close>

text \<open>Year, month and day of the proleptic Gregorian calendar, from the days since 1970-01-01.\<close>

definition civil_of_days :: "int \<Rightarrow> int \<times> int \<times> int" where
  "civil_of_days n =
     (let z = n + 719468; era = z div 146097; doe = z mod 146097;
          yoe = (doe - doe div 1460 + doe div 36524 - doe div 146096) div 365;
          doy = doe - (365 * yoe + yoe div 4 - yoe div 100);
          mp = (5 * doy + 2) div 153;
          d = doy - (153 * mp + 2) div 5 + 1;
          m = (if mp < 10 then mp + 3 else mp - 9)
      in (yoe + era * 400 + (if m \<le> 2 then 1 else 0), m, d))"

definition zero_padded :: "nat \<Rightarrow> string \<Rightarrow> string" where
  "zero_padded n s = replicate (n - length s) (CHR ''0'') @ s"

definition two_digits :: "int \<Rightarrow> string" where
  "two_digits i = zero_padded 2 (go_decimal i)"

definition format_date :: "time \<Rightarrow> string" where
  "format_date t = (case civil_of_days (t div (24 * hour)) of (y, m, d) \<Rightarrow>
     zero_padded 4 (go_decimal y) @ ''-'' @ two_digits m @ ''-'' @ two_digits d)"

definition format_RFC3339 :: "time \<Rightarrow> string" where
  "format_RFC3339 t =
     (let s = t mod (24 * hour) div second
      in format_date t @ ''T'' @ two_digits (s div 3600) @ '':'' @ two_digits (s div 60 mod 60) @ '':'' @
         two_digits (s mod 60) @ ''Z'')"

section \<open>The PDF\<close>

text \<open>\<open>strings.NewReplacer\<close> with three single bytes: each byte on its own.\<close>

definition escape_char :: "char \<Rightarrow> string" where
  "escape_char c =
     (if c = CHR ''('' \<or> c = CHR '')'' \<or> c = CHR 0x5C then [CHR 0x5C, c] else [c])"

definition escapePDFString :: "string \<Rightarrow> string" where
  "escapePDFString s = concat (map escape_char s)"

definition show_text :: "string \<Rightarrow> string" where
  "show_text s = ''('' @ escapePDFString s @ '') Tj'' @ nl"

text \<open>The content stream; \<open>kvs\<close> lists the entries of the Go map in the order it is ranged over.\<close>

definition pdf_field :: "string \<times> string \<Rightarrow> string" where
  "pdf_field kv = ''0 -18 Td'' @ nl @ show_text (fst kv @ '': '' @ snd kv)"

definition pdf_stream :: "string \<Rightarrow> (string \<times> string) list \<Rightarrow> time \<Rightarrow> string" where
  "pdf_stream title kvs t =
     ''BT'' @ nl @ ''/F1 18 Tf'' @ nl @ ''72 760 Td'' @ nl @ show_text title @
     ''/F1 11 Tf'' @ nl @ ''0 -28 Td'' @ nl @ ''(HarborWorks confirmation document) Tj'' @ nl @
     ''0 -22 Td'' @ nl @ ''(Generated: '' @ escapePDFString (format_RFC3339 t) @ '') Tj'' @ nl @
     concat (map pdf_field kvs) @ ''ET'' @ nl"

text \<open>The buffer and the offsets collected by \<open>writeObj\<close>.\<close>

type_synonym pdf_writer = "string \<times> nat list"

definition writeObj :: "string \<Rightarrow> pdf_writer \<Rightarrow> pdf_writer" where
  "writeObj s w = (fst w @ s, snd w @ [length (fst w)])"

definition writeString :: "string \<Rightarrow> pdf_writer \<Rightarrow> pdf_writer" where
  "writeString s w = (fst w @ s, snd w)"

definition pdf_magic :: string where
  "pdf_magic = ''%PDF-1.4'' @ nl @ ''%'' @ replicate 4 (CHR 0xFF) @ nl"

definition obj_catalog :: string where
  "obj_catalog = ''1 0 obj'' @ nl @ ''<< /Type /Catalog /Pages 2 0 R >>'' @ nl @ ''endobj'' @ nl"

definition obj_pages :: string where
  "obj_pages = ''2 0 obj'' @ nl @ ''<< /Type /Pages /Kids [3 0 R] /Count 1 >>'' @ nl @ ''endobj'' @ nl"

definition obj_page :: string where
  "obj_page = ''3 0 obj'' @ nl @ ''<< /Type /Page /Parent 2 0 R /MediaBox [0 0 612 792] /Contents 4 0 R '' @
     ''/Resources << /Font << /F1 5 0 R >> >> >>'' @ nl @ ''endobj'' @ nl"

definition obj_stream :: "string \<Rightarrow> string" where
  "obj_stream stream = ''4 0 obj'' @ nl @ ''<< /Length '' @ go_decimal (int (length stream)) @ '' >>'' @ nl @ ''stream'' @ nl"

definition stream_end :: string where
  "stream_end = nl @ ''endstream'' @ nl @ ''endobj'' @ nl"

definition obj_font :: string where
  "obj_font = ''5 0 obj'' @ nl @ ''<< /Type /Font /Subtype /Type1 /BaseFont /Helvetica >>'' @ nl @ ''endobj'' @ nl"

definition pdf_objects :: "string \<Rightarrow> pdf_writer" where
  "pdf_objects stream =
     writeObj obj_font (writeString stream_end (writeString stream (writeObj (obj_stream stream)
     (writeObj obj_page (writeObj obj_pages (writeObj obj_catalog (writeString pdf_magic ([], []))))))))"

text \<open>\<open>%010d 00000 n \<close>.\<close>

definition xref_entry :: "nat \<Rightarrow> string" where
  "xref_entry off = zero_padded 10 (go_decimal (int off)) @ '' 00000 n '' @ nl"

definition xref_table :: "nat list \<Rightarrow> string" where
  "xref_table offsets = ''xref'' @ nl @ ''0 '' @ go_decimal (int (length offsets + 1)) @ nl @ ''0000000000 65535 f '' @ nl @
     concat (map xref_entry offsets)"

definition trailer :: "nat list \<Rightarrow> nat \<Rightarrow> string" where
  "trailer offsets xrefOffset = ''trailer'' @ nl @ ''<< /Size '' @ go_decimal (int (length offsets + 1)) @ '' /Root 1 0 R >>'' @ nl @
     ''startxref'' @ nl @ go_decimal (int xrefOffset) @ nl @ ''%%EOF'' @ nl"

definition RenderSimplePDF :: "string \<Rightarrow> (string \<times> string) list \<Rightarrow> time \<Rightarrow> string" where
  "RenderSimplePDF title kvs t =
     (let (buf, offsets) = pdf_objects (pdf_stream title kvs t)
      in buf @ xref_table offsets @ trailer offsets (length buf))"

section \<open>The check-in pass\<close>

text \<open>Rectangles and texts with a colour, in the order they are drawn on the 600 by 320 canvas.\<close>

type_synonym rgba = "nat \<times> nat \<times> nat \<times> nat"

datatype paint = Fill int int int int rgba | Text rgba int int string

definition pass_bg :: rgba where "pass_bg = (11, 29, 42, 255)"
definition pass_accent :: rgba where "pass_accent = (43, 179, 192, 255)"
definition pass_white :: rgba where "pass_white = (243, 247, 250, 255)"
definition pass_muted :: rgba where "pass_muted = (159, 180, 199, 255)"

fun pass_fields :: "int \<Rightarrow> (string \<times> string) list \<Rightarrow> paint list" where
  "pass_fields y [] = []"
| "pass_fields y ((k, v) # rest) =
     Text pass_muted 24 y k # Text pass_white 200 y v # (if y + 20 > 320 - 30 then [] else pass_fields (y + 20) rest)"

definition RenderCheckinPNG :: "string \<Rightarrow> (string \<times> string) list \<Rightarrow> time \<Rightarrow> paint list" where
  "RenderCheckinPNG title kvs t =
     [Fill 0 0 600 320 pass_bg, Fill 0 0 600 8 pass_accent, Fill 0 (320 - 8) 600 320 pass_accent,
      Text pass_white 24 40 ''HarborWorks Check-In Pass'', Text pass_accent 24 64 title,
      Text pass_muted 24 84 (''Generated: '' @ format_RFC3339 t)] @ pass_fields 120 kvs"

section \<open>What the renderings guarantee\<close>

lemma pass_fields_length: "length (pass_fields y fs) \<le> 2 * length fs"
  by (induction y fs rule: pass_fields.induct) auto

lemma pass_fields_rows: "290 - 20 * int n < y \<Longrightarrow> n \<noteq> 0 \<Longrightarrow> length (pass_fields y fs) \<le> 2 * n"
proof (induction n arbitrary: y fs)
  case (Suc n)
  then show ?case by (cases fs; cases "n = 0") (auto split: if_splits)
qed simp

lemma zero_padded_length: "length (zero_padded n s) = max n (length s)"
  by (simp add: zero_padded_def)

lemma nat_digits_length: "length (nat_digits n) \<le> k \<longleftrightarrow> n < 10 ^ k" if "0 < k"
  using that
proof (induction k arbitrary: n)
  case (Suc k)
  show ?case
  proof (cases "n < 10")
    case True
    moreover have "10 \<le> 10 * (10::nat) ^ k" by simp
    ultimately show ?thesis by (simp add: nat_digits.simps [of n] order.strict_trans2)
  next
    case False
    then show ?thesis
      using Suc.IH [of "n div 10"] by (cases "k = 0") (auto simp: nat_digits.simps [of n] div_less_iff_less_mult)
  qed
qed simp

lemma xref_entry_length: "off < 10 ^ 10 \<Longrightarrow> length (xref_entry off) = 20"
  using nat_digits_length [of 10 off] by (simp add: xref_entry_def zero_padded_length go_decimal_def)

text \<open>The table and the trailer are read back.\<close>

lemma number_zero_padded [simp]: "number (zero_padded k (go_decimal (int n))) = n"
  by (simp add: zero_padded_def go_decimal_def number_zeros)

lemma digits_zero_padded: "list_all digit (zero_padded k (go_decimal (int n)))"
  using nat_digits_digits [of n] by (auto simp: zero_padded_def go_decimal_def list_all_iff digit_def)

lemma read_entries_written [simp]:
  "\<forall>off \<in> set offs. off < 10 ^ 10 \<Longrightarrow>
   read_entries (length offs) (concat (map xref_entry offs) @ s) = Some (offs, s)"
proof (induction offs)
  case (Cons off offs)
  have "length (zero_padded 10 (go_decimal (int off))) = 10"
    using nat_digits_length [of 10 off] Cons.prems by (simp add: zero_padded_length go_decimal_def)
  with Cons digits_zero_padded [of 10 off] show ?case
    by (simp add: xref_entry_def)
qed simp

lemma read_nat_decimal [simp]:
  "s = [] \<or> \<not> digit (hd s) \<Longrightarrow> read_nat (go_decimal (int n) @ s) = Some (n, s)"
  by (simp add: go_decimal_def)

lemma split_at_decimal [simp]:
  "\<not> digit c \<Longrightarrow>
   split_at (c # p) (go_decimal (int n) @ s) = map_option (\<lambda>(a, r). (go_decimal (int n) @ a, r)) (split_at (c # p) s)"
  using nat_digits_digits [of n] by (intro split_at_skip) (auto simp: go_decimal_def list_all_iff)

lemma read_xref_written:
  assumes "\<forall>off \<in> set offs. off < 10 ^ 10"
  shows "read_xref (xref_table offs @ trailer offs x) = Some (offs, 1)"
proof -
  obtain n where n: "length offs + 1 = n" "n - Suc 0 = length offs" "0 < n" by simp
  show ?thesis
    using assms unfolding xref_table_def trailer_def n(1)
    by (simp add: read_xref_def n(2, 3) dict_nat_def dict_ref_def read_ref_def digit_def) (simp add: read_nat_def number_def digit_def)
qed

lemma read_startxref_written: "read_startxref (body @ xref_table offs @ trailer offs x) = Some x"
proof -
  have "list_all digit (rev (go_decimal (int x)))"
    using nat_digits_digits [of x] by (simp add: go_decimal_def list_all_iff)
  then have "takeWhile digit (rev (go_decimal (int x)) @ CHR 0x0A # s) = rev (go_decimal (int x)) \<and>
      dropWhile digit (rev (go_decimal (int x)) @ CHR 0x0A # s) = CHR 0x0A # s" for s
    using takeWhile_digits [of "rev (go_decimal (int x))" "CHR 0x0A # s"] by (simp add: digit_def)
  then show ?thesis
    by (simp add: read_startxref_def trailer_def) (simp add: go_decimal_def)
qed

text \<open>The objects are found at their offsets.\<close>

lemma read_object_at:
  "\<lbrakk>0 < i; i \<le> length offs; offs ! (i - 1) = length pre\<rbrakk> \<Longrightarrow>
   read_object (pre @ s) offs i = Option.bind (read_nat s) (\<lambda>(n, s). if n = i then expect ('' 0 obj'' @ nl) s else None)"
  by (simp add: read_object_def)

lemmas read_here = read_dict_def read_object_at read_nat_def digit_def number_def

lemma read_catalog:
  "offs = length pre # os \<Longrightarrow>
   read_dict (pre @ obj_catalog @ s) offs ''Catalog'' 1 = Some '' /Type /Catalog /Pages 2 0 R ''"
  by (simp add: obj_catalog_def read_here)

lemma read_pages:
  "offs = o1 # length pre # os \<Longrightarrow>
   read_dict (pre @ obj_pages @ s) offs ''Pages'' 2 = Some '' /Type /Pages /Kids [3 0 R] /Count 1 ''"
  by (simp add: obj_pages_def read_here)

lemma read_page:
  "offs = o1 # o2 # length pre # os \<Longrightarrow>
   read_dict (pre @ obj_page @ s) offs ''Page'' 3 = Some ('' /Type /Page /Parent 2 0 R /MediaBox [0 0 612 792] '' @
     ''/Contents 4 0 R /Resources << /Font << /F1 5 0 R >> >> '')"
  by (simp add: obj_page_def read_here)

lemma read_font:
  "offs = o1 # o2 # o3 # o4 # length pre # os \<Longrightarrow>
   read_dict (pre @ obj_font @ s) offs ''Font'' 5 = Some '' /Type /Font /Subtype /Type1 /BaseFont /Helvetica ''"
  by (simp add: obj_font_def read_here)

lemma read_nat_header: "read_nat (CHR ''4'' # CHR '' '' # s) = Some (4, CHR '' '' # s)"
  by (simp add: read_nat_def digit_def number_def)

lemma read_stream_written:
  "offs = o1 # o2 # o3 # length pre # os \<Longrightarrow>
   Option.bind (read_object (pre @ obj_stream stream @ stream @ stream_end @ s) offs 4) read_stream = Some stream"
  by (simp add: obj_stream_def stream_end_def read_object_at read_nat_header read_stream_def dict_nat_def digit_def)

lemma page_refs:
  "dict_ref ''/Pages '' '' /Type /Catalog /Pages 2 0 R '' = Some 2"
  "dict_ref ''/Kids ['' '' /Type /Pages /Kids [3 0 R] /Count 1 '' = Some 3"
  "dict_ref ''/F1 '' ('' /Type /Page /Parent 2 0 R /MediaBox [0 0 612 792] '' @
     ''/Contents 4 0 R /Resources << /Font << /F1 5 0 R >> >> '') = Some 5"
  "dict_ref ''/Contents '' ('' /Type /Page /Parent 2 0 R /MediaBox [0 0 612 792] '' @
     ''/Contents 4 0 R /Resources << /Font << /F1 5 0 R >> >> '') = Some 4"
  by (simp_all add: dict_ref_def read_ref_def read_nat_def digit_def number_def)

text \<open>The content stream is read as the operators that were written.\<close>

lemma read_literal_escaped [simp]: "read_literal 0 (escapePDFString s @ CHR '')'' # rest) = Some (s, rest)"
  by (induction s) (auto simp: escapePDFString_def escape_char_def)

lemma read_op_text [simp]: "read_op (show_text s @ rest) = Some (Tj s, rest)"
  by (simp add: read_op_def show_text_def)

lemma read_ops_step:
  "\<lbrakk>read_op s = Some (oper, r); oper \<noteq> ET; length r < length s\<rbrakk> \<Longrightarrow> read_ops s = map_option ((#) oper) (read_ops r)"
  by (simp add: read_ops.simps [of s])

lemma read_ops_text [simp]: "read_ops (show_text s @ rest) = map_option ((#) (Tj s)) (read_ops rest)"
  by (rule read_ops_step [OF read_op_text]) (simp_all add: show_text_def)

lemmas read_op_here = read_op_def read_int_def read_nat_def digit_def number_def

lemma read_ops_moves:
  "read_ops (''/F1 18 Tf'' @ nl @ r) = map_option ((#) (Tf 18)) (read_ops r)"
  "read_ops (''/F1 11 Tf'' @ nl @ r) = map_option ((#) (Tf 11)) (read_ops r)"
  "read_ops (''72 760 Td'' @ nl @ r) = map_option ((#) (Td 72 760)) (read_ops r)"
  "read_ops (''0 -28 Td'' @ nl @ r) = map_option ((#) (Td 0 (- 28))) (read_ops r)"
  "read_ops (''0 -22 Td'' @ nl @ r) = map_option ((#) (Td 0 (- 22))) (read_ops r)"
  "read_ops (''0 -18 Td'' @ nl @ r) = map_option ((#) (Td 0 (- 18))) (read_ops r)"
  by (rule read_ops_step; simp add: read_op_here)+

lemma read_ops_end: "read_ops (''ET'' @ nl) = Some []"
  by (subst read_ops.simps) (simp add: read_op_def)

lemma fixed_texts:
  "''(HarborWorks confirmation document) Tj'' @ nl @ r = show_text ''HarborWorks confirmation document'' @ r"
  "''(Generated: '' @ escapePDFString s @ '') Tj'' @ nl @ r = show_text (''Generated: '' @ s) @ r"
  by (simp_all add: show_text_def escapePDFString_def escape_char_def)

lemma read_ops_fields:
  "read_ops (concat (map pdf_field kvs) @ ''ET'' @ nl) =
   Some (concat (map (\<lambda>(k, v). [Td 0 (- 18), Tj (k @ '': '' @ v)]) kvs))"
proof (induction kvs)
  case Nil
  then show ?case using read_ops_end by simp
next
  case (Cons kv kvs)
  have "concat (map pdf_field (kv # kvs)) @ ''ET'' @ nl =
      ''0 -18 Td'' @ nl @ show_text (fst kv @ '': '' @ snd kv) @ concat (map pdf_field kvs) @ ''ET'' @ nl"
    by (simp add: pdf_field_def)
  then show ?case
    by (simp only: read_ops_moves read_ops_text Cons.IH) (simp add: case_prod_unfold)
qed

lemma show_ops_fields:
  "show_ops f x (692 + 18 - 18 * int n) (concat (map (\<lambda>(k, v). [Td 0 (- 18), Tj (k @ '': '' @ v)]) kvs)) =
   map (\<lambda>(i, k, v). (f, x, 692 - 18 * int i, k @ '': '' @ v)) (enumerate n kvs)"
proof (induction kvs arbitrary: n)
  case (Cons kv kvs)
  from Cons.IH [of "Suc n"] show ?case by (simp add: case_prod_unfold algebra_simps)
qed simp

lemma read_content_written:
  "read_content (pdf_stream title kvs t) = Some
     ([(18, 72, 760, title), (11, 72, 732, ''HarborWorks confirmation document''),
       (11, 72, 710, ''Generated: '' @ format_RFC3339 t)] @
      map (\<lambda>(i, k, v). (11, 72, 692 - 18 * int i, k @ '': '' @ v)) (enumerate 0 kvs))"
proof -
  have "pdf_stream title kvs t = (''BT'' @ nl) @ ''/F1 18 Tf'' @ nl @ ''72 760 Td'' @ nl @ show_text title @
     ''/F1 11 Tf'' @ nl @ ''0 -28 Td'' @ nl @ show_text ''HarborWorks confirmation document'' @
     ''0 -22 Td'' @ nl @ show_text (''Generated: '' @ format_RFC3339 t) @ concat (map pdf_field kvs) @ ''ET'' @ nl"
    unfolding pdf_stream_def fixed_texts by simp
  then show ?thesis
    using show_ops_fields [of 11 72 0 kvs] unfolding read_content_def
    by (simp only: expect_append Option.bind.simps read_ops_moves read_ops_text read_ops_fields) simp
qed

section \<open>Properties\<close>

text \<open>
  C27. The confirmation is a readable PDF and shows what it was given. A reader that follows the file
  format (end of file, cross-reference table, trailer, catalog, page, font, content stream cut out by its
  declared length, text operators with their escapes) finds on the page the title in 18 points, the two
  fixed lines and every field with its key in 11 points, 18 points below one another, whatever bytes the
  texts contain. The only bound is that of the ten-digit offsets, ten gigabytes. From the fortieth
  field on the lines are below the lower edge of the page.
\<close>

theorem confirmation_is_a_readable_pdf:
  assumes "length (RenderSimplePDF title kvs t) < 10 ^ 10"
  shows "read_pdf (RenderSimplePDF title kvs t) = Some
     ([(18, 72, 760, title), (11, 72, 732, ''HarborWorks confirmation document''),
       (11, 72, 710, ''Generated: '' @ format_RFC3339 t)] @
      map (\<lambda>(i, k, v). (11, 72, 692 - 18 * int i, k @ '': '' @ v)) (enumerate 0 kvs))"
proof -
  let ?st = "pdf_stream title kvs t"
  let ?b1 = "pdf_magic @ obj_catalog" let ?b2 = "?b1 @ obj_pages" let ?b3 = "?b2 @ obj_page"
  let ?b4 = "?b3 @ obj_stream ?st @ ?st @ stream_end" let ?body = "?b4 @ obj_font"
  let ?offs = "[length pdf_magic, length ?b1, length ?b2, length ?b3, length ?b4]"
  let ?T = "xref_table ?offs @ trailer ?offs (length ?body)"
  have "pdf_objects ?st = (?body, ?offs)"
    by (simp add: pdf_objects_def writeObj_def writeString_def)
  then have f: "RenderSimplePDF title kvs t = ?body @ ?T"
    by (simp only: RenderSimplePDF_def Let_def prod.case)
  with assms have "\<forall>off \<in> set ?offs. off < 10 ^ 10" by simp
  note x = read_xref_written [OF this, of "length ?body"]
  have "expect ''%PDF-1.'' (?body @ ?T) \<noteq> None" by (simp add: pdf_magic_def)
  then obtain h where h: "expect ''%PDF-1.'' (?body @ ?T) = Some h" by blast
  have d: "drop (length ?body) (?body @ ?T) = ?T" by simp
  have "read_dict (?body @ ?T) ?offs ''Catalog'' 1 = Some '' /Type /Catalog /Pages 2 0 R ''"
    using read_catalog [OF refl, of pdf_magic] by (simp only: append_assoc)
  moreover have "read_dict (?body @ ?T) ?offs ''Pages'' 2 = Some '' /Type /Pages /Kids [3 0 R] /Count 1 ''"
    using read_pages [OF refl, of ?b1] by (simp only: append_assoc)
  moreover have "read_dict (?body @ ?T) ?offs ''Page'' 3 = Some ('' /Type /Page /Parent 2 0 R /MediaBox [0 0 612 792] '' @
     ''/Contents 4 0 R /Resources << /Font << /F1 5 0 R >> >> '')"
    using read_page [OF refl, of ?b2] by (simp only: append_assoc)
  moreover have "read_dict (?body @ ?T) ?offs ''Font'' 5 = Some '' /Type /Font /Subtype /Type1 /BaseFont /Helvetica ''"
    using read_font [OF refl, of ?b4] by (simp only: append_assoc)
  moreover obtain s where "read_object (?body @ ?T) ?offs 4 = Some s" "read_stream s = Some ?st"
    using read_stream_written [where pre = ?b3 and stream = ?st and s = "obj_font @ ?T" and offs = ?offs, OF refl]
    by (simp only: append_assoc bind_eq_Some_conv) blast
  ultimately show ?thesis
    unfolding f read_pdf_def
    by (simp only: h read_startxref_written d x page_refs read_content_written Option.bind.simps prod.case)
qed

theorem confirmation_is_a_readable_pdf_witness:
  "read_pdf (RenderSimplePDF ''Pass (1)'' [(''Guest'', ''Ann''), (''Berth'', ''A)'')] 0) = Some
     [(18, 72, 760, ''Pass (1)''), (11, 72, 732, ''HarborWorks confirmation document''),
      (11, 72, 710, ''Generated: 1970-01-01T00:00:00Z''), (11, 72, 692, ''Guest: Ann''), (11, 72, 674, ''Berth: A)'')]"
proof -
  have generated: "format_RFC3339 0 = ''1970-01-01T00:00:00Z''"
    by code_simp
  have "length (RenderSimplePDF ''Pass (1)'' [(''Guest'', ''Ann''), (''Berth'', ''A)'')] 0) < 10 ^ 10"
    by (simp add: RenderSimplePDF_def pdf_objects_def writeObj_def writeString_def xref_table_def xref_entry_def
        trailer_def go_decimal_def nat_digits.simps zero_padded_def pdf_stream_def pdf_field_def show_text_def
        escapePDFString_def escape_char_def generated pdf_magic_def obj_catalog_def obj_pages_def obj_page_def
        obj_stream_def stream_end_def obj_font_def)
  from confirmation_is_a_readable_pdf [OF this] show ?thesis
    by (simp add: generated)
qed

text \<open>
  No text breaks out of its string. A PDF reader that opens the string of a text operator reads back
  exactly the text that was given and stops at the operator's own closing parenthesis, whatever
  parentheses and backslashes the text contains.
\<close>

lemma text_stays_in_its_string:
  "\<exists>rest. show_text s = CHR ''('' # rest \<and> read_literal 0 (rest @ after) = Some (s, '' Tj'' @ nl @ after)"
  using read_literal_escaped [of s "'' Tj'' @ nl @ after"] by (simp add: show_text_def)

text \<open>
  A check-in pass shows at most nine of its fields. Field rows start at line 120 and stop at the
  bottom margin, so a pass with more than nine fields silently drops the rest (in Go, an arbitrary
  rest, since the fields come from a map), and all that is drawn lies above the bottom bar.
\<close>

theorem pass_shows_at_most_nine_fields:
  "length (RenderCheckinPNG title kvs t) = 6 + 2 * min 9 (length kvs) \<and>
   (\<forall>p \<in> set (RenderCheckinPNG title kvs t). case p of Text _ _ y _ \<Rightarrow> y \<le> 280 | _ \<Rightarrow> True)"
proof -
  have n: "length (pass_fields (120 + 20 * int k) fs) = 2 * min (9 - k) (length fs) \<and>
      (\<forall>p \<in> set (pass_fields (120 + 20 * int k) fs). case p of Text _ _ y _ \<Rightarrow> y \<le> 280 | _ \<Rightarrow> True)"
    if "k \<le> 8" for k fs
    using that
  proof (induction fs arbitrary: k)
    case (Cons kv fs)
    obtain a b where [simp]: "kv = (a, b)" by (cases kv)
    show ?case
    proof (cases "k = 8")
      case False
      then have "120 + 20 * int k + 20 = 120 + 20 * int (Suc k)" "Suc k \<le> 8" using Cons.prems by simp_all
      then show ?thesis using Cons.IH [of "Suc k"] False by (simp add: min_def) linarith
    qed simp
  qed simp
  from n [of 0 kvs] show ?thesis by (simp add: RenderCheckinPNG_def)
qed

end
