(* ===== verification/Documents.thy ===== *)
theory Documents
  imports Schema Rendering
begin

text \<open>
  \<open>repository/document.go\<close> and the database half of \<open>service/document.go\<close>: documents with a chain of
  revisions, of which the last is the current one. The row of a document has no revisions of its own
  (\<open>d_Revisions\<close> is empty in the table), they are rows of \<open>document_revisions\<close>.
\<close>

section \<open>The repository\<close>

text \<open>Tables \<open>documents\<close> and \<open>document_revisions\<close>.\<close>

definition document_insertable :: "db \<Rightarrow> document \<Rightarrow> bool" where
  "document_insertable d x \<longleftrightarrow> fresh_key d_ID (documents d) (d_ID x) \<and>
     references u_ID (users d) (d_OwnerUserID x) \<and> int4 (d_CurrentRevision x)"

definition revision_insertable :: "db \<Rightarrow> document_revision \<Rightarrow> bool" where
  "revision_insertable d r \<longleftrightarrow> fresh_key rev_ID (revisions d) (rev_ID r) \<and>
     references d_ID (documents d) (rev_DocumentID r) \<and> int4 (rev_Revision r) \<and>
     fresh_key (\<lambda>r. (rev_DocumentID r, rev_Revision r)) (revisions d) (rev_DocumentID r, rev_Revision r)"

definition insert_document :: "document \<Rightarrow> unit action" where
  "insert_document x = sql (\<lambda>_ d. if document_insertable d x
     then Inr ((), d\<lparr>documents := documents d @ [x\<lparr>d_Revisions := []\<rparr>]\<rparr>) else Inl DBError)"

definition insert_revision :: "document_revision \<Rightarrow> unit action" where
  "insert_revision r = sql (\<lambda>_ d. if revision_insertable d r
     then Inr ((), d\<lparr>revisions := revisions d @ [r]\<rparr>) else Inl DBError)"

definition new_revision :: "uuid \<Rightarrow> uuid \<Rightarrow> int \<Rightarrow> string \<Rightarrow> string \<Rightarrow> time \<Rightarrow> document_revision" where
  "new_revision i docID n content contentType t =
     \<lparr>rev_ID = i, rev_DocumentID = docID, rev_Revision = n, rev_Content = content, rev_ContentType = contentType,
      rev_Superseded = False, rev_SupersededAt = None, rev_SupersededBy = None, rev_CreatedAt = t\<rparr>"

definition documents_Create :: "document \<Rightarrow> document action" where
  "documents_Create x =
     bindE (if d_ID x = uuid_nil then new_uuid else ret (d_ID x)) (\<lambda>i.
     bindE now (\<lambda>t.
     let x' = x\<lparr>d_ID := i, d_CreatedAt := t, d_UpdatedAt := t, d_CurrentRevision := 0\<rparr> in
     bindE (insert_document x') (\<lambda>_. ret x')))"

definition documents_Get :: "uuid \<Rightarrow> document action" where
  "documents_Get i = query (\<lambda>d. case row_by d_ID i (documents d) of None \<Rightarrow> Inl ErrNotFound | Some x \<Rightarrow> Inr x)"

text \<open>The history leaves the contents out.\<close>

definition documents_GetWithRevisions :: "uuid \<Rightarrow> document action" where
  "documents_GetWithRevisions i =
     bindE (documents_Get i) (\<lambda>x.
     bindE (query (\<lambda>d. Inr (map (\<lambda>r. r\<lparr>rev_Content := []\<rparr>)
       (order_desc rev_Revision (filter (\<lambda>r. rev_DocumentID r = i) (revisions d)))))) (\<lambda>revs.
     ret (x\<lparr>d_Revisions := revs\<rparr>)))"

definition documents_GetCurrentRevision :: "uuid \<Rightarrow> document_revision action" where
  "documents_GetCurrentRevision docID = query (\<lambda>d.
     case order_desc rev_Revision (filter (\<lambda>r. rev_DocumentID r = docID) (revisions d)) of
       [] \<Rightarrow> Inl ErrNotFound | r # _ \<Rightarrow> Inr r)"

definition documents_GetRevision :: "uuid \<Rightarrow> int \<Rightarrow> document_revision action" where
  "documents_GetRevision docID n = query (\<lambda>d.
     case row_by (\<lambda>r. (rev_DocumentID r, rev_Revision r)) (docID, n) (revisions d) of
       None \<Rightarrow> Inl ErrNotFound | Some r \<Rightarrow> Inr r)"

definition supersede :: "uuid \<Rightarrow> int \<Rightarrow> uuid \<Rightarrow> time \<Rightarrow> unit action" where
  "supersede docID current newID t = sql (\<lambda>_ d. Inr ((), d\<lparr>revisions :=
     update_where (\<lambda>r. rev_DocumentID r = docID \<and> rev_Revision r = current)
       (\<lambda>r. r\<lparr>rev_Superseded := True, rev_SupersededAt := Some t, rev_SupersededBy := Some newID\<rparr>) (revisions d)\<rparr>))"

definition bump_revision :: "uuid \<Rightarrow> int \<Rightarrow> time \<Rightarrow> unit action" where
  "bump_revision docID n t = sql (\<lambda>_ d. Inr ((), d\<lparr>documents :=
     update_where (\<lambda>x. d_ID x = docID) (\<lambda>x. x\<lparr>d_CurrentRevision := n, d_UpdatedAt := t\<rparr>) (documents d)\<rparr>))"

definition documents_AppendRevision :: "uuid \<Rightarrow> string \<Rightarrow> string \<Rightarrow> document_revision action" where
  "documents_AppendRevision docID content contentType = transaction (
     bindE (query (\<lambda>d. case row_by d_ID docID (documents d) of
         None \<Rightarrow> Inl ErrNotFound | Some x \<Rightarrow> Inr (d_CurrentRevision x))) (\<lambda>current.
     let n = current + 1 in
     bindE new_uuid (\<lambda>newID.
     bindE now (\<lambda>t.
     bindE (supersede docID current newID t) (\<lambda>_.
     bindE (insert_revision (new_revision newID docID n content contentType t)) (\<lambda>_.
     bindE (bump_revision docID n t) (\<lambda>_.
     ret (new_revision newID docID n content contentType t))))))))"

definition documents_ListByOwner :: "uuid \<Rightarrow> document list action" where
  "documents_ListByOwner u = query (\<lambda>d.
     Inr (order_desc d_CreatedAt (filter (\<lambda>x. d_OwnerUserID x = u) (documents d))))"

definition CreateDocumentWithFirstRevision :: "document \<Rightarrow> string \<Rightarrow> string \<Rightarrow> document action" where
  "CreateDocumentWithFirstRevision x content contentType =
     bindE (if d_ID x = uuid_nil then new_uuid else ret (d_ID x)) (\<lambda>i.
     bindE now (\<lambda>t.
     let x' = x\<lparr>d_ID := i, d_CreatedAt := t, d_UpdatedAt := t, d_CurrentRevision := 1\<rparr> in
     transaction (
       bindE (insert_document x') (\<lambda>_.
       bindE new_uuid (\<lambda>r.
       bindE (insert_revision (new_revision r i 1 content contentType t)) (\<lambda>_.
       ret x'))))))"

section \<open>The service\<close>

definition same_subject :: "string \<Rightarrow> uuid \<Rightarrow> document_type \<Rightarrow> document \<Rightarrow> bool" where
  "same_subject relatedType relatedID dt x \<longleftrightarrow>
     d_RelatedType x = relatedType \<and> d_RelatedID x = relatedID \<and> d_DocType x = dt"

definition findExisting :: "uuid \<Rightarrow> string \<Rightarrow> uuid \<Rightarrow> document_type \<Rightarrow> document action" where
  "findExisting owner relatedType relatedID dt =
     bindE (documents_ListByOwner owner) (\<lambda>docs.
     case find (same_subject relatedType relatedID dt) docs of None \<Rightarrow> fail ErrNotFound | Some x \<Rightarrow> ret x)"

definition new_document :: "uuid \<Rightarrow> string \<Rightarrow> uuid \<Rightarrow> document_type \<Rightarrow> string \<Rightarrow> document" where
  "new_document owner relatedType relatedID dt title =
     \<lparr>d_ID = uuid_nil, d_OwnerUserID = owner, d_DocType = dt, d_RelatedType = relatedType, d_RelatedID = relatedID,
      d_CurrentRevision = 0, d_Title = title, d_CreatedAt = zero_time, d_UpdatedAt = zero_time, d_Revisions = []\<rparr>"

definition upsertDocument ::
  "uuid \<Rightarrow> string \<Rightarrow> uuid \<Rightarrow> document_type \<Rightarrow> string \<Rightarrow> string \<Rightarrow> string \<Rightarrow> (document \<times> document_revision) action" where
  "upsertDocument owner relatedType relatedID dt title content contentType =
     attempt (findExisting owner relatedType relatedID dt) (\<lambda>r.
     case r of
       Inr existing \<Rightarrow>
         bindE (documents_AppendRevision (d_ID existing) content contentType) (\<lambda>rev.
         ret (existing\<lparr>d_CurrentRevision := rev_Revision rev\<rparr>, rev))
     | Inl e \<Rightarrow>
         if e \<noteq> ErrNotFound then fail e else
         bindE (documents_Create (new_document owner relatedType relatedID dt title)) (\<lambda>x.
         bindE (documents_AppendRevision (d_ID x) content contentType) (\<lambda>rev. ret (x, rev))))"

definition GenerateConfirmation ::
  "uuid \<Rightarrow> string \<Rightarrow> uuid \<Rightarrow> string \<Rightarrow> (string \<times> string) list \<Rightarrow> (document \<times> document_revision) action" where
  "GenerateConfirmation owner relatedType relatedID title kvs =
     bindE now (\<lambda>t.
     upsertDocument owner relatedType relatedID DocConfirmationPDF title (RenderSimplePDF title kvs t) ''application/pdf'')"

text \<open>\<open>rasterise\<close> draws the instructions and encodes the image as PNG.\<close>

definition GenerateCheckinPass ::
  "(paint list \<Rightarrow> go_error + string) \<Rightarrow> uuid \<Rightarrow> string \<Rightarrow> uuid \<Rightarrow> string \<Rightarrow> (string \<times> string) list \<Rightarrow>
   (document \<times> document_revision) action" where
  "GenerateCheckinPass rasterise owner relatedType relatedID title kvs =
     bindE now (\<lambda>t.
     case rasterise (RenderCheckinPNG title kvs t) of
       Inl e \<Rightarrow> fail e
     | Inr png \<Rightarrow> upsertDocument owner relatedType relatedID DocCheckinPassPNG title png ''image/png'')"

definition DocumentService_Get :: "uuid \<Rightarrow> document action" where
  "DocumentService_Get i = documents_GetWithRevisions i"

definition DocumentService_GetCurrent :: "uuid \<Rightarrow> document_revision action" where
  "DocumentService_GetCurrent i = documents_GetCurrentRevision i"

definition DocumentService_GetRevision :: "uuid \<Rightarrow> int \<Rightarrow> document_revision action" where
  "DocumentService_GetRevision i n = documents_GetRevision i n"

definition DocumentService_ListByOwner :: "uuid \<Rightarrow> document list action" where
  "DocumentService_ListByOwner u = documents_ListByOwner u"

section \<open>The chain of revisions\<close>

text \<open>
  Per document: the revision numbers are those from 1 to its current revision, each once, and exactly
  the current one is not superseded. (A document whose first revision could not be written has
  revision 0 and no rows.)
\<close>

definition numbers_of :: "uuid \<Rightarrow> document_revision list \<Rightarrow> int set" where
  "numbers_of i rows = rev_Revision ` {r \<in> set rows. rev_DocumentID r = i}"

definition chain_ok :: "document_revision list \<Rightarrow> document \<Rightarrow> bool" where
  "chain_ok rows x \<longleftrightarrow> 0 \<le> d_CurrentRevision x \<and> numbers_of (d_ID x) rows = {1..d_CurrentRevision x} \<and>
     (\<forall>r \<in> set rows. rev_DocumentID r = d_ID x \<longrightarrow> (rev_Superseded r \<longleftrightarrow> rev_Revision r < d_CurrentRevision x))"

definition documents_inv :: "db \<Rightarrow> bool" where
  "documents_inv d \<longleftrightarrow>
     distinct_keys d_ID (documents d) \<and> distinct_keys (\<lambda>r. (rev_DocumentID r, rev_Revision r)) (revisions d) \<and>
     (\<forall>r \<in> set (revisions d). rev_DocumentID r \<in> d_ID ` set (documents d)) \<and>
     (\<forall>x \<in> set (documents d). chain_ok (revisions d) x)"

lemma numbers_of_append: "numbers_of i (rows @ [r]) = numbers_of i rows \<union> (if rev_DocumentID r = i then {rev_Revision r} else {})"
  by (auto simp: numbers_of_def)

lemma numbers_of_keys: "numbers_of i rows = {n. (i, n) \<in> (\<lambda>r. (rev_DocumentID r, rev_Revision r)) ` set rows}"
  by (auto simp: numbers_of_def image_iff)

lemma numbers_of_update:
  "(\<And>r. p r \<Longrightarrow> (rev_DocumentID (f r), rev_Revision (f r)) = (rev_DocumentID r, rev_Revision r)) \<Longrightarrow>
   numbers_of i (update_where p f rows) = numbers_of i rows"
  unfolding numbers_of_keys by (subst keys_update) simp_all

lemma documents_inv_new:
  assumes "documents_inv d" and "document_insertable d x" and "d_CurrentRevision x = 0"
  shows "documents_inv (d\<lparr>documents := documents d @ [x\<lparr>d_Revisions := []\<rparr>]\<rparr>)"
proof -
  have "rev_DocumentID r \<noteq> d_ID x" if "r \<in> set (revisions d)" for r
    using assms that unfolding documents_inv_def document_insertable_def fresh_key_def by metis
  then have "chain_ok (revisions d) (x\<lparr>d_Revisions := []\<rparr>)"
    using assms(3) by (auto simp: chain_ok_def numbers_of_def)
  then show ?thesis
    using assms(1,2) by (auto simp: documents_inv_def document_insertable_def fresh_key_iff distinct_keys_append)
qed

text \<open>What a committed \<open>AppendRevision\<close> has done to the two tables.\<close>

definition appended :: "uuid \<Rightarrow> int \<Rightarrow> document_revision \<Rightarrow> db \<Rightarrow> db" where
  "appended docID current r d = d\<lparr>
     revisions := update_where (\<lambda>r. rev_DocumentID r = docID \<and> rev_Revision r = current)
         (\<lambda>r'. r'\<lparr>rev_Superseded := True, rev_SupersededAt := Some (rev_CreatedAt r), rev_SupersededBy := Some (rev_ID r)\<rparr>)
         (revisions d) @ [r],
     documents := update_where (\<lambda>x. d_ID x = docID)
         (\<lambda>x. x\<lparr>d_CurrentRevision := current + 1, d_UpdatedAt := rev_CreatedAt r\<rparr>) (documents d)\<rparr>"

lemma AppendRevision_returns:
  assumes "documents_AppendRevision docID content contentType w = (Inr r, w')"
  shows "\<exists>x i t. row_by d_ID docID (documents (store w)) = Some x \<and>
     r = new_revision i docID (d_CurrentRevision x + 1) content contentType t \<and>
     store w' = appended docID (d_CurrentRevision x) r (store w) \<and>
     (docID, d_CurrentRevision x + 1) \<notin> (\<lambda>r. (rev_DocumentID r, rev_Revision r)) ` set (revisions (store w))"
proof -
  obtain w1 w2 where w1: "store w1 = store w" and st: "store w' = store w2"
    and body: "bindE (query (\<lambda>d. case row_by d_ID docID (documents d) of
         None \<Rightarrow> Inl ErrNotFound | Some x \<Rightarrow> Inr (d_CurrentRevision x))) (\<lambda>current.
     let n = current + 1 in
     bindE new_uuid (\<lambda>newID.
     bindE now (\<lambda>t.
     bindE (supersede docID current newID t) (\<lambda>_.
     bindE (insert_revision (new_revision newID docID n content contentType t)) (\<lambda>_.
     bindE (bump_revision docID n t) (\<lambda>_.
     ret (new_revision newID docID n content contentType t))))))) w1 = (Inr r, w2)"
    using assms unfolding documents_AppendRevision_def by (elim transaction_runs)
  from body show ?thesis
    using w1 st
    by (auto simp: Let_def returns supersede_def insert_revision_def bump_revision_def appended_def new_revision_def
        revision_insertable_def fresh_key_def set_update_where image_iff split: option.splits if_splits)
qed

lemma chain_ok_cong:
  "d_ID x' = d_ID x \<Longrightarrow> d_CurrentRevision x' = d_CurrentRevision x \<Longrightarrow> chain_ok rows x' = chain_ok rows x"
  by (simp add: chain_ok_def)

lemma documents_inv_appended:
  assumes inv: "documents_inv d" and row: "row_by d_ID docID (documents d) = Some x"
    and r: "r = new_revision i docID (d_CurrentRevision x + 1) content contentType t"
    and new: "(docID, d_CurrentRevision x + 1) \<notin> (\<lambda>r. (rev_DocumentID r, rev_Revision r)) ` set (revisions d)"
  shows "documents_inv (appended docID (d_CurrentRevision x) r d)" (is "documents_inv ?d")
proof -
  let ?key = "\<lambda>r. (rev_DocumentID r, rev_Revision r)"
  have x: "x \<in> set (documents d)" "d_ID x = docID" using row_by_Some [OF row] by simp_all
  have chain: "\<And>y. y \<in> set (documents d) \<Longrightarrow> chain_ok (revisions d) y" using inv by (simp add: documents_inv_def)
  have rr: "rev_DocumentID r = docID" "rev_Revision r = d_CurrentRevision x + 1" "\<not> rev_Superseded r"
    by (simp_all add: r new_revision_def)
  have only: "y = x" if "y \<in> set (documents d)" "d_ID y = docID" for y
    using inv x that by (auto simp: documents_inv_def dest: distinct_keys_inj)
  have num: "numbers_of j (revisions ?d) = numbers_of j (revisions d) \<union> (if j = docID then {d_CurrentRevision x + 1} else {})" for j
    using rr by (auto simp: appended_def numbers_of_append numbers_of_update)
  have "chain_ok (revisions ?d) (if d_ID y = docID then y\<lparr>d_CurrentRevision := d_CurrentRevision x + 1, d_UpdatedAt := rev_CreatedAt r\<rparr> else y)"
    if y: "y \<in> set (documents d)" for y
  proof (cases "d_ID y = docID")
    case True
    then have "y = x" using only y by simp
    moreover have "{1..d_CurrentRevision x} \<union> {d_CurrentRevision x + 1} = {1..d_CurrentRevision x + 1}"
      using chain [OF x(1)] by (auto simp: chain_ok_def)
    moreover have "rev_Revision r' \<le> d_CurrentRevision x" if "r' \<in> set (revisions d)" "rev_DocumentID r' = docID" for r'
      using chain [OF x(1)] x(2) that by (auto simp: chain_ok_def numbers_of_def)
    ultimately show ?thesis
      using chain [OF x(1)] x(2) rr num [of docID]
      by (fastforce simp: chain_ok_def appended_def set_update_where)
  next
    case False
    then show ?thesis
      using chain [OF y] num [of "d_ID y"] rr by (force simp: chain_ok_def appended_def set_update_where)
  qed
  then have "\<forall>y \<in> set (documents ?d). chain_ok (revisions ?d) y"
    by (simp add: appended_def ball_update_where)
  moreover have "distinct_keys ?key (revisions ?d)"
  proof -
    have "distinct_keys ?key (update_where p f (revisions d))" and "?key ` set (update_where p f (revisions d)) = ?key ` set (revisions d)"
      if "\<And>r. ?key (f r) = ?key r" for p f
      using inv that by (simp_all add: documents_inv_def distinct_keys_update keys_update)
    then show ?thesis
      using new rr by (auto simp: appended_def distinct_keys_append row_by_None image_iff set_update_where)
  qed
  moreover have "distinct_keys d_ID (documents ?d)" "d_ID ` set (documents ?d) = d_ID ` set (documents d)"
    using inv by (simp_all add: documents_inv_def appended_def distinct_keys_update keys_update)
  moreover have "rev_DocumentID r' \<in> d_ID ` set (documents d)" if "r' \<in> set (revisions ?d)" for r'
    using that inv x rr by (auto simp: appended_def documents_inv_def set_update_where)
  ultimately show ?thesis unfolding documents_inv_def by simp
qed

lemma AppendRevision_preserves [store_rules]: "preserves documents_inv (documents_AppendRevision i c ct)"
proof (rule all_or_nothing_preserves)
  show "all_or_nothing (documents_AppendRevision i c ct)"
    unfolding documents_AppendRevision_def by (rule all_or_nothing_transaction)
  show "documents_inv (store w')" if "documents_AppendRevision i c ct w = (Inr r, w')" "documents_inv (store w)" for w r w'
    using AppendRevision_returns [OF that(1)] documents_inv_appended [OF that(2)] by auto
qed

lemma documents_Create_preserves [store_rules]: "preserves documents_inv (documents_Create x)"
  unfolding documents_Create_def insert_document_def Let_def
  by (intro store_rules preserves_sql) (auto split: if_splits intro: documents_inv_new)

lemma document_reads [store_rules]:
  "readonly (documents_ListByOwner u)" "readonly (findExisting u rt ri dt)"
  unfolding documents_ListByOwner_def findExisting_def by (intro store_rules)+

lemma upsert_preserves [store_rules]: "preserves documents_inv (upsertDocument u rt ri dt title c ct)"
  unfolding upsertDocument_def by (intro store_rules readonly_preserves)

text \<open>Creating a document with its first revision is creating it empty and appending.\<close>

lemma documents_inv_first:
  assumes inv: "documents_inv d" and ins: "document_insertable d x" "d_CurrentRevision x = 1" "d_UpdatedAt x = t"
    and r: "r = new_revision i (d_ID x) 1 c ct t"
  shows "documents_inv (d\<lparr>documents := documents d @ [x\<lparr>d_Revisions := []\<rparr>], revisions := revisions d @ [r]\<rparr>)"
proof -
  define x0 where "x0 = x\<lparr>d_CurrentRevision := 0\<rparr>"
  define d0 where "d0 = d\<lparr>documents := documents d @ [x0\<lparr>d_Revisions := []\<rparr>]\<rparr>"
  have fresh: "d_ID y \<noteq> d_ID x" if "y \<in> set (documents d)" for y
    using ins that unfolding document_insertable_def fresh_key_def by (metis imageI)
  have norev: "rev_DocumentID q \<noteq> d_ID x" if "q \<in> set (revisions d)" for q
    using inv fresh that unfolding documents_inv_def by (metis imageE)
  have inv0: "documents_inv d0"
    unfolding d0_def by (rule documents_inv_new [OF inv]) (use ins in \<open>simp_all add: x0_def document_insertable_def int4_def\<close>)
  have "row_by d_ID (d_ID x) (documents d) = None" using fresh by (auto simp: row_by_None)
  then have row: "row_by d_ID (d_ID x) (documents d0) = Some (x0\<lparr>d_Revisions := []\<rparr>)"
    by (simp add: d0_def row_by_append) (simp add: row_by_def x0_def)
  have "documents_inv (appended (d_ID x) 0 r d0)"
  proof -
    have "(d_ID x, 1) \<notin> (\<lambda>q. (rev_DocumentID q, rev_Revision q)) ` set (revisions d)"
      using norev by (auto simp: image_iff) metis
    then show ?thesis
      using documents_inv_appended [OF inv0 row, of r i c ct t] r by (simp add: x0_def d0_def)
  qed
  moreover have "appended (d_ID x) 0 r d0 = d\<lparr>documents := documents d @ [x\<lparr>d_Revisions := []\<rparr>], revisions := revisions d @ [r]\<rparr>"
    using fresh norev ins r
    by (cases x) (simp add: appended_def d0_def x0_def new_revision_def update_where_none update_where_append)
  ultimately show ?thesis by simp
qed

lemma CreateDocumentWithFirstRevision_preserves:
  "preserves documents_inv (CreateDocumentWithFirstRevision x c ct)"
proof (rule all_or_nothing_preserves)
  show "all_or_nothing (CreateDocumentWithFirstRevision x c ct)"
    unfolding CreateDocumentWithFirstRevision_def Let_def by (intro store_rules)
next
  fix w y w'
  assume run: "CreateDocumentWithFirstRevision x c ct w = (Inr y, w')" and inv: "documents_inv (store w)"
  let ?key = "if d_ID x = uuid_nil then new_uuid else ret (d_ID x)"
  obtain i w1 where i: "?key w = (Inr i, w1)" and rest: "bindE now (\<lambda>t.
       let x' = x\<lparr>d_ID := i, d_CreatedAt := t, d_UpdatedAt := t, d_CurrentRevision := 1\<rparr> in
       transaction (bindE (insert_document x') (\<lambda>_. bindE new_uuid (\<lambda>r.
         bindE (insert_revision (new_revision r i 1 c ct t)) (\<lambda>_. ret x'))))) w1 = (Inr y, w')"
    using run unfolding CreateDocumentWithFirstRevision_def by (subst (asm) bindE_returns) blast
  have "readonly ?key" by (intro store_rules)
  then have w1: "store w1 = store w" using i by (rule readonlyD)
  define t where "t = clock w1 (readings w1)"
  define x' where "x' = x\<lparr>d_ID := i, d_CreatedAt := t, d_UpdatedAt := t, d_CurrentRevision := 1\<rparr>"
  have "transaction (bindE (insert_document x') (\<lambda>_. bindE new_uuid (\<lambda>r.
         bindE (insert_revision (new_revision r i 1 c ct t)) (\<lambda>_. ret x')))) (w1\<lparr>readings := Suc (readings w1)\<rparr>) = (Inr y, w')"
    using rest by (simp add: Let_def bindE_returns now_returns x'_def t_def)
  then obtain w2 w3 where w2: "store w2 = store w1" and st: "store w' = store w3"
    and body: "bindE (insert_document x') (\<lambda>_. bindE new_uuid (\<lambda>r.
         bindE (insert_revision (new_revision r i 1 c ct t)) (\<lambda>_. ret x'))) w2 = (Inr y, w3)"
    by (elim transaction_runs) simp
  then show "documents_inv (store w')"
    using documents_inv_first [OF inv, of x' t _ _ c ct] w1
    by (auto simp: returns insert_document_def insert_revision_def x'_def split: if_splits)
qed

section \<open>The current revision\<close>

lemma order_desc_hd:
  assumes "order_desc key rows = r # rest"
  shows "r \<in> set rows \<and> (\<forall>r' \<in> set rows. key r' \<le> key r)"
proof -
  have s: "sorted (map (\<lambda>r. - key r) (r # rest))" and "set rows = set (r # rest)"
    using assms sorted_sort_key [of "\<lambda>r. - key r" rows] set_order_desc [of key rows] by (simp_all add: order_desc_def)
  then show ?thesis by auto
qed

text \<open>On a sound chain the lookup by order finds the row with the number of the document.\<close>

lemma GetCurrentRevision_chain:
  assumes "documents_inv d" and "x \<in> set (documents d)" and "r \<in> set (revisions d)"
    and "rev_DocumentID r = d_ID x" and "rev_Revision r = d_CurrentRevision x" and "calm w" and "store w = d"
  shows "fst (documents_GetCurrentRevision (d_ID x) w) = Inr r"
proof -
  let ?rows = "filter (\<lambda>r. rev_DocumentID r = d_ID x) (revisions d)"
  have "r \<in> set (order_desc rev_Revision ?rows)" using assms(3,4) by simp
  then obtain q rest where q: "order_desc rev_Revision ?rows = q # rest" by (cases "order_desc rev_Revision ?rows") auto
  have chain: "chain_ok (revisions d) x" using assms(1,2) by (simp add: documents_inv_def)
  have q': "q \<in> set (revisions d)" "rev_DocumentID q = d_ID x" "rev_Revision r \<le> rev_Revision q"
    using order_desc_hd [OF q] assms(3,4) by auto
  then have "rev_Revision q \<in> numbers_of (d_ID x) (revisions d)" by (auto simp: numbers_of_def)
  then have "rev_Revision q = rev_Revision r" using chain q'(3) assms(5) by (simp add: chain_ok_def)
  then have "q = r"
    using assms(1,3,4) q' by (auto simp: documents_inv_def dest: distinct_keys_inj [where key = "\<lambda>r. (rev_DocumentID r, rev_Revision r)"])
  then show ?thesis
    using q assms(6,7) by (simp add: documents_GetCurrentRevision_def query_calm)
qed

text \<open>What a generation did: it appended to a document of the right subject.\<close>

lemma findExisting_returns:
  "findExisting u rt ri dt w = (Inr x, w') \<Longrightarrow>
     x \<in> set (documents (store w)) \<and> d_OwnerUserID x = u \<and> same_subject rt ri dt x \<and> store w' = store w"
  by (auto simp: findExisting_def documents_ListByOwner_def returns split: option.splits dest!: find_Some_set)

lemma findExisting_missing:
  "findExisting u rt ri dt w = (Inl ErrNotFound, w') \<Longrightarrow>
     (\<forall>x \<in> set (documents (store w)). d_OwnerUserID x = u \<longrightarrow> \<not> same_subject rt ri dt x)"
  by (auto simp: findExisting_def documents_ListByOwner_def bindE_fails fail_returns ret_returns query_def sql_def
      Let_def find_None_iff split: option.splits if_splits)

lemma documents_Create_returns:
  assumes "documents_Create x w = (Inr y, w')"
  shows "document_insertable (store w) y \<and> d_CurrentRevision y = 0 \<and>
    store w' = (store w)\<lparr>documents := documents (store w) @ [y\<lparr>d_Revisions := []\<rparr>]\<rparr> \<and>
    d_OwnerUserID y = d_OwnerUserID x \<and> d_RelatedType y = d_RelatedType x \<and> d_RelatedID y = d_RelatedID x \<and>
    d_DocType y = d_DocType x"
proof -
  let ?key = "if d_ID x = uuid_nil then new_uuid else ret (d_ID x)"
  obtain i w1 where i: "?key w = (Inr i, w1)" and rest: "bindE now (\<lambda>t.
       let x' = x\<lparr>d_ID := i, d_CreatedAt := t, d_UpdatedAt := t, d_CurrentRevision := 0\<rparr> in
       bindE (insert_document x') (\<lambda>_. ret x')) w1 = (Inr y, w')"
    using assms unfolding documents_Create_def by (subst (asm) bindE_returns) blast
  have "readonly ?key" by (intro store_rules)
  then have "store w1 = store w" using i by (rule readonlyD)
  then show ?thesis
    using rest by (auto simp: Let_def insert_document_def returns split: if_splits)
qed

text \<open>The document an upsert appends to, as it was before the append.\<close>

lemma upsert_returns:
  assumes "upsertDocument u rt ri dt title c ct w = (Inr (x, rv), w')" and inv: "documents_inv (store w)"
  shows "\<exists>d x0 i t. documents_inv d \<and> revisions d = revisions (store w) \<and> x0 \<in> set (documents d) \<and> d_ID x0 = d_ID x \<and>
    d_OwnerUserID x0 = u \<and> same_subject rt ri dt x0 \<and>
    rv = new_revision i (d_ID x) (d_CurrentRevision x0 + 1) c ct t \<and>
    store w' = appended (d_ID x) (d_CurrentRevision x0) rv d \<and>
    (if \<exists>y \<in> set (documents (store w)). d_OwnerUserID y = u \<and> same_subject rt ri dt y
     then d = store w \<and> d_CurrentRevision x = rev_Revision rv
     else d_CurrentRevision x0 = 0 \<and> d_CurrentRevision x = 0)"
proof -
  obtain r w1 where f: "findExisting u rt ri dt w = (r, w1)" by (cases "findExisting u rt ri dt w")
  have w1: "store w1 = store w" using readonlyD [OF document_reads(2) f] .
  show ?thesis
  proof (cases r)
    case (Inr e)
    note e = findExisting_returns [OF f [unfolded Inr]]
    have a: "documents_AppendRevision (d_ID e) c ct w1 = (Inr rv, w')" "x = e\<lparr>d_CurrentRevision := rev_Revision rv\<rparr>"
      using assms(1) f Inr by (auto simp: upsertDocument_def attempt_def bindE_returns ret_returns)
    have "row_by d_ID (d_ID e) (documents (store w)) = Some e"
      using e inv by (simp add: documents_inv_def row_by_eq_iff)
    then show ?thesis
      using AppendRevision_returns [OF a(1)] w1 a(2) e inv by (intro exI [of _ "store w"] exI [of _ e]) auto
  next
    case (Inl er)
    then have nf: "er = ErrNotFound" using assms(1) f by (auto simp: upsertDocument_def attempt_def fail_def split: if_splits)
    note none = findExisting_missing [OF f [unfolded Inl nf]]
    obtain w2 where cr: "documents_Create (new_document u rt ri dt title) w1 = (Inr x, w2)"
      and a: "documents_AppendRevision (d_ID x) c ct w2 = (Inr rv, w')"
      using assms(1) f Inl nf by (auto simp: upsertDocument_def attempt_def bindE_returns ret_returns)
    note y = documents_Create_returns [OF cr]
    have "row_by d_ID (d_ID x) (documents (store w2)) = Some (x\<lparr>d_Revisions := []\<rparr>)"
      using y w1 by (simp add: row_by_append document_insertable_def fresh_key_iff) (simp add: row_by_def)
    moreover have "documents_inv (store w2)"
      using documents_inv_new [of "store w1" x] y w1 inv by simp
    ultimately show ?thesis
      using AppendRevision_returns [OF a] y w1 none
      by (intro exI [of _ "store w2"] exI [of _ "x\<lparr>d_Revisions := []\<rparr>"]) (auto simp: new_document_def same_subject_def)
  qed
qed

section \<open>Properties\<close>

datatype document_call =
    CallConfirmation uuid string uuid string "(string \<times> string) list"
  | CallPass uuid string uuid string "(string \<times> string) list"

fun serve_document :: "(paint list \<Rightarrow> go_error + string) \<Rightarrow> document_call \<Rightarrow> (document \<times> document_revision) action" where
  "serve_document rasterise (CallConfirmation u rt ri title kvs) = GenerateConfirmation u rt ri title kvs"
| "serve_document rasterise (CallPass u rt ri title kvs) = GenerateCheckinPass rasterise u rt ri title kvs"

lemma serve_document_preserves: "preserves documents_inv (serve_document rasterise call)"
  by (cases call) (auto simp: GenerateConfirmation_def GenerateCheckinPass_def intro!: store_rules)

text \<open>
  C25. Documents keep their chain. After any sequence of generations, whatever statements fail, every
  document has exactly the revisions 1 to its current one, each once, and of these exactly the current
  one is not superseded.
\<close>

theorem documents_keep_their_chain:
  assumes "documents (store w) = []" and "revisions (store w) = []"
    and "for_each (serve_document rasterise) calls w = (r, w')" and "x \<in> set (documents (store w'))"
  shows "rev_Revision ` {q \<in> set (revisions (store w')). rev_DocumentID q = d_ID x} = {1..d_CurrentRevision x} \<and>
    distinct_keys (\<lambda>q. (rev_DocumentID q, rev_Revision q)) (revisions (store w')) \<and>
    (\<forall>q \<in> set (revisions (store w')). rev_DocumentID q = d_ID x \<longrightarrow>
       (\<not> rev_Superseded q \<longleftrightarrow> rev_Revision q = d_CurrentRevision x))"
proof -
  have "documents_inv (store w)" using assms(1,2) by (simp add: documents_inv_def distinct_keys_def)
  then have inv: "documents_inv (store w')"
    using preservesD [OF preserves_for_each assms(3)] serve_document_preserves by blast
  then have chain: "chain_ok (revisions (store w')) x" using assms(4) by (simp add: documents_inv_def)
  have "rev_Revision q \<le> d_CurrentRevision x" if "q \<in> set (revisions (store w'))" "rev_DocumentID q = d_ID x" for q
    using chain that by (auto simp: chain_ok_def numbers_of_def)
  then show ?thesis using chain inv by (force simp: chain_ok_def numbers_of_def documents_inv_def)
qed

definition demo_owner :: user where
  "demo_owner = \<lparr>u_ID = 7, u_Username = ''alice'', u_PasswordHash = [], u_IsBlacklisted = False,
     u_BlacklistReason = [], u_IsAdmin = False, u_MustRotatePassword = False, u_AnonymizedAt = None,
     u_FailedAttempts = 0, u_LockedUntil = None, u_LastLoginAt = None, u_CreatedAt = 0, u_UpdatedAt = 0\<rparr>"

definition library :: "db world" where
  "library = demo_world (empty_db\<lparr>users := [demo_owner]\<rparr>) 0"

lemmas document_code = upsertDocument_def findExisting_def documents_ListByOwner_def documents_Create_def
  insert_document_def document_insertable_def documents_AppendRevision_def supersede_def insert_revision_def
  revision_insertable_def bump_revision_def new_revision_def new_document_def fresh_key_def references_def int4_def
  row_by_def order_desc_def library_def demo_owner_def demo_world_def empty_db_def GenerateConfirmation_def

lemma demo_generate:
  "\<exists>x rv w. upsertDocument 7 ''booking'' 5 DocConfirmationPDF ''T'' ''bytes'' ''application/pdf'' library = (Inr (x, rv), w) \<and>
     d_ID x = 1000 \<and> rev_Revision rv = 1 \<and> calm w"
  by (simp add: document_code run_defs calm_def)

theorem documents_keep_their_chain_witness:
  "\<exists>w x. for_each (serve_document (\<lambda>_. Inl OtherError)) [CallConfirmation 7 ''booking'' 5 ''T'' []] library = (Inr (), w) \<and>
     documents (store w) = [x] \<and> rev_Revision ` {q \<in> set (revisions (store w)). rev_DocumentID q = d_ID x} = {1..1}"
proof -
  have "\<exists>w x. for_each (serve_document (\<lambda>_. Inl OtherError)) [CallConfirmation 7 ''booking'' 5 ''T'' []] library = (Inr (), w) \<and>
     documents (store w) = [x] \<and> d_CurrentRevision x = 1"
    by (simp add: document_code run_defs)
  then obtain w x where w: "for_each (serve_document (\<lambda>_. Inl OtherError)) [CallConfirmation 7 ''booking'' 5 ''T'' []] library = (Inr (), w)"
    "documents (store w) = [x]" "d_CurrentRevision x = 1"
    by (elim exE conjE) (rule that)
  then show ?thesis
    using documents_keep_their_chain [OF _ _ w(1), of x]
    by (intro exI [of _ w] exI [of _ x]) (simp add: library_def empty_db_def)
qed

text \<open>
  C26. What was generated is what is served. After a successful generation the current revision of the
  returned document is the new one, with the content just rendered; its number is one more than that of
  the document before (1 if there was none), and every earlier revision of every document is still
  there with its content. The document that is returned carries the new number when it existed
  before, but revision 0 when it was just created.
\<close>

theorem generated_content_is_current:
  assumes "documents_inv (store w)" and "upsertDocument u rt ri dt title c ct w = (Inr (x, rv), w')"
    and "calm w2" and "store w2 = store w'"
  shows "fst (DocumentService_GetCurrent (d_ID x) w2) = Inr rv \<and> rev_Content rv = c \<and> rev_ContentType rv = ct \<and>
    (\<forall>q \<in> set (revisions (store w)). \<exists>q' \<in> set (revisions (store w')). rev_ID q' = rev_ID q \<and>
       rev_DocumentID q' = rev_DocumentID q \<and> rev_Revision q' = rev_Revision q \<and> rev_Content q' = rev_Content q) \<and>
    d_CurrentRevision x =
      (if \<exists>y \<in> set (documents (store w)). d_OwnerUserID y = u \<and> same_subject rt ri dt y then rev_Revision rv else 0) \<and>
    (\<not> (\<exists>y \<in> set (documents (store w)). d_OwnerUserID y = u \<and> same_subject rt ri dt y) \<longrightarrow> rev_Revision rv = 1)"
proof -
  obtain d x0 i t where d: "documents_inv d" "revisions d = revisions (store w)" "x0 \<in> set (documents d)" "d_ID x0 = d_ID x"
    and rv: "rv = new_revision i (d_ID x) (d_CurrentRevision x0 + 1) c ct t"
    and st: "store w' = appended (d_ID x) (d_CurrentRevision x0) rv d"
    and cases: "if \<exists>y \<in> set (documents (store w)). d_OwnerUserID y = u \<and> same_subject rt ri dt y
     then d = store w \<and> d_CurrentRevision x = rev_Revision rv
     else d_CurrentRevision x0 = 0 \<and> d_CurrentRevision x = 0"
    using upsert_returns [OF assms(2,1)] by blast
  let ?x = "x0\<lparr>d_CurrentRevision := d_CurrentRevision x0 + 1, d_UpdatedAt := rev_CreatedAt rv\<rparr>"
  have mem: "rv \<in> set (revisions (store w'))" "?x \<in> set (documents (store w'))"
    using d(3,4) by (auto simp: st appended_def set_update_where)
  have "documents_inv (store w')" using preservesD [OF upsert_preserves assms(2,1)] .
  then have "fst (documents_GetCurrentRevision (d_ID ?x) w2) = Inr rv"
    using mem rv d(4) assms(3,4) by (intro GetCurrentRevision_chain) (simp_all add: new_revision_def)
  moreover have "\<exists>q' \<in> set (revisions (store w')). rev_ID q' = rev_ID q \<and>
       rev_DocumentID q' = rev_DocumentID q \<and> rev_Revision q' = rev_Revision q \<and> rev_Content q' = rev_Content q"
    if "q \<in> set (revisions (store w))" for q
    using that d(2) by (auto simp: st appended_def bex_update_where intro!: bexI [of _ q])
  ultimately show ?thesis
    using d(4) rv cases by (auto simp: DocumentService_GetCurrent_def new_revision_def split: if_splits)
qed

theorem generated_content_is_current_witness:
  "\<exists>x rv w. upsertDocument 7 ''booking'' 5 DocConfirmationPDF ''T'' ''bytes'' ''application/pdf'' library = (Inr (x, rv), w) \<and>
     fst (DocumentService_GetCurrent (d_ID x) w) = Inr rv \<and> rev_Content rv = ''bytes'' \<and> rev_Revision rv = 1 \<and> d_CurrentRevision x = 0"
proof -
  obtain x rv w where w: "upsertDocument 7 ''booking'' 5 DocConfirmationPDF ''T'' ''bytes'' ''application/pdf'' library = (Inr (x, rv), w)"
    "calm w"
    using demo_generate by blast
  have "documents_inv (store library)" by (simp add: library_def empty_db_def documents_inv_def distinct_keys_def)
  from generated_content_is_current [OF this w(1,2) refl] show ?thesis
    using w(1) by (intro exI [of _ x] exI [of _ rv] exI [of _ w]) (simp add: library_def empty_db_def)
qed

end
