(* ===== verification/Analytics.thy ===== *)
theory Analytics
  imports Bookings Rendering
begin

text \<open>
  Events, hourly counts, reports and anomaly detection: \<open>repository/analytics.go\<close> and
  \<open>service/analytics.go\<close>. SHA-256 in hexadecimal and the text form of a UUID come from packages the
  code only calls; they are the fields \<open>as_digest\<close> and \<open>as_uuid_text\<close> of the service.

  \<open>GROUP BY\<close> yields its groups in an order of the database's choice; here it is that of the last
  occurrence of each key, and no property depends on it. Averages and ratios are exact rationals where Go
  and PostgreSQL use double precision: a ratio within a rounding error of the threshold may fall on
  the other side in the program.
\<close>

section \<open>Grouping\<close>

definition group_counts :: "('r \<Rightarrow> 'k) \<Rightarrow> 'r list \<Rightarrow> ('k \<times> nat) list" where
  "group_counts key rows = map (\<lambda>k. (k, matches (\<lambda>r. key r = k) rows)) (remdups (map key rows))"

lemma sum_group_counts: "sum_list (map snd (group_counts key rows)) = length rows"
proof -
  have cover: "distinct ks \<Longrightarrow> sum_list (map (\<lambda>k. matches (\<lambda>r. key r = k) rs) ks) =
        length (filter (\<lambda>r. key r \<in> set ks) rs)" for ks rs
  proof (induction rs)
    case (Cons r rs)
    have "sum_list (map (\<lambda>k. (if key r = k then 1 else 0) + matches (\<lambda>r. key r = k) rs) ks) =
      (if key r \<in> set ks then 1 else 0) + sum_list (map (\<lambda>k. matches (\<lambda>r. key r = k) rs) ks)"
      using Cons.prems by (induction ks) auto
    then show ?case using Cons by simp
  qed simp
  show ?thesis
    unfolding group_counts_def using cover [of "remdups (map key rows)" rows] by (simp add: comp_def)
qed

lemma group_counts_positive: "(k, n) \<in> set (group_counts key rows) \<Longrightarrow> 0 < n"
  by (cases n) (auto simp: group_counts_def dest: sym)

lemma distinct_group_counts: "distinct (map fst (group_counts key rows))"
  by (simp add: group_counts_def comp_def)

lemma group_counts_lookup:
  "sum_list (map (\<lambda>(k', n). if k' = k then n else 0) (group_counts key rows)) = matches (\<lambda>r. key r = k) rows"
proof -
  have "distinct ks \<Longrightarrow> sum_list (map (\<lambda>k'. if k' = k then f k' else (0::nat)) ks) =
          (if k \<in> set ks then f k else 0)" for ks and f :: "'a \<Rightarrow> nat"
    by (induction ks) auto
  moreover have "k \<notin> key ` set rows \<Longrightarrow> matches (\<lambda>r. key r = k) rows = 0"
    by auto
  ultimately show ?thesis by (simp add: group_counts_def comp_def)
qed

section \<open>The repository\<close>

definition analytics_RecordEvent :: "analytics_event \<Rightarrow> analytics_event action" where
  "analytics_RecordEvent e =
     bindE (if e_CreatedAt e = zero_time then now else ret (e_CreatedAt e)) (\<lambda>t.
     bindE (sql (\<lambda>_ d.
       let e' = e\<lparr>e_CreatedAt := t, e_ID := next_serial (analytics_events d)\<rparr>
       in if event_insertable e' then Inr (e', d\<lparr>analytics_events := analytics_events d @ [e']\<rparr>)
          else Inl DBError)) ret)"

type_synonym hour_key = "time \<times> string \<times> string \<times> uuid"

definition hourly_key :: "analytics_hourly \<Rightarrow> hour_key" where
  "hourly_key h = (h_BucketStart h, h_EventType h, h_TargetType h, h_TargetID h)"

definition event_key :: "analytics_event \<Rightarrow> hour_key" where
  "event_key e = (hour_start (e_CreatedAt e), e_EventType e, e_TargetType e, e_TargetID e)"

definition upsert_hourly :: "analytics_hourly \<Rightarrow> analytics_hourly list \<Rightarrow> analytics_hourly list" where
  "upsert_hourly h rows =
     (if fresh_key hourly_key rows (hourly_key h) then rows @ [h]
      else update_where (\<lambda>r. hourly_key r = hourly_key h) (\<lambda>r. r\<lparr>h_Count := h_Count r + h_Count h\<rparr>) rows)"

definition analytics_UpsertHourly :: "analytics_hourly \<Rightarrow> unit action" where
  "analytics_UpsertHourly h =
     sql (\<lambda>_ d. Inr ((), d\<lparr>analytics_hourly_rows := upsert_hourly h (analytics_hourly_rows d)\<rparr>))"

definition newer_than :: "time \<Rightarrow> analytics_event list \<Rightarrow> analytics_event list" where
  "newer_than since es = filter (\<lambda>e. e_CreatedAt e > since) es"

definition hourly_groups :: "time \<Rightarrow> analytics_event list \<Rightarrow> analytics_hourly list" where
  "hourly_groups since es =
     map (\<lambda>((b, et, tt, ti), n). \<lparr>h_BucketStart = b, h_EventType = et, h_TargetType = tt, h_TargetID = ti,
                                   h_Count = int n\<rparr>)
       (group_counts event_key (newer_than since es))"

definition analytics_AggregateRecent :: "time \<Rightarrow> int action" where
  "analytics_AggregateRecent since =
     bindE (query (\<lambda>d. Inr (hourly_groups since (analytics_events d)))) (\<lambda>hs.
     bindE (for_each_or_return analytics_UpsertHourly hs) (\<lambda>_.
     ret (sum_list (map h_Count hs))))"

definition clamp :: "int \<Rightarrow> int \<Rightarrow> int \<Rightarrow> int" where
  "clamp highest fallback limit = (if limit \<le> 0 \<or> limit > highest then fallback else limit)"

definition analytics_TopSessions :: "time \<Rightarrow> int \<Rightarrow> top_session list action" where
  "analytics_TopSessions since limit = query (\<lambda>d. Inr (take (nat (clamp 100 10 limit)) (order_desc ts_Score
     (map (\<lambda>((tt, ti), n). \<lparr>ts_TargetType = tt, ts_TargetID = ti, ts_Score = int n\<rparr>)
       (group_counts (\<lambda>e. (e_TargetType e, e_TargetID e))
         (filter (\<lambda>e. e_CreatedAt e \<ge> since) (analytics_events d)))))))"

text \<open>
  \<open>-time.Duration(days) * 24 * time.Hour\<close> is a product of signed 64-bit words.
\<close>

definition days_back :: "int \<Rightarrow> duration" where
  "days_back days = sint (- word_of_int days * 24 * word_of_int hour :: 64 word)"

definition analytics_Trend :: "string \<Rightarrow> int \<Rightarrow> trend_bucket list action" where
  "analytics_Trend et days =
     bindE now (\<lambda>t.
     query (\<lambda>d. Inr (order_asc tb_BucketStart
       (map (\<lambda>(b, n). \<lparr>tb_BucketStart = b, tb_Count = int n\<rparr>)
         (group_counts (\<lambda>e. day_start (e_CreatedAt e))
           (filter (\<lambda>e. e_CreatedAt e \<ge> t + days_back (if days \<le> 0 then 7 else days) \<and> e_EventType e = et)
             (analytics_events d)))))))"

definition in_window :: "string \<Rightarrow> time \<Rightarrow> time \<Rightarrow> analytics_event \<Rightarrow> bool" where
  "in_window et from till e \<longleftrightarrow> e_EventType e = et \<and> e_CreatedAt e \<ge> from \<and> e_CreatedAt e < till"

definition analytics_HourlyCount :: "string \<Rightarrow> time \<Rightarrow> int action" where
  "analytics_HourlyCount et hourStart =
     query (\<lambda>d. Inr (int (matches (in_window et hourStart (hourStart + hour)) (analytics_events d))))"

text \<open>\<open>AVG\<close> of no rows is \<open>NULL\<close>, which \<open>COALESCE\<close> makes 0.\<close>

definition average :: "nat list \<Rightarrow> rat" where
  "average ns = (if ns = [] then 0 else of_nat (sum_list ns) / of_nat (length ns))"

definition baseline_of :: "string \<Rightarrow> time \<Rightarrow> analytics_event list \<Rightarrow> rat" where
  "baseline_of et hourStart es = average (map snd (group_counts (\<lambda>e. hour_start (e_CreatedAt e))
     (filter (in_window et (hourStart - 7 * 24 * hour) hourStart) es)))"

definition analytics_BaselineHourlyAverage :: "string \<Rightarrow> time \<Rightarrow> rat action" where
  "analytics_BaselineHourlyAverage et hourStart = query (\<lambda>d. Inr (baseline_of et hourStart (analytics_events d)))"

definition analytics_InsertAnomaly :: "anomaly_alert \<Rightarrow> anomaly_alert action" where
  "analytics_InsertAnomaly a =
     bindE (if al_ID a = uuid_nil then new_uuid else ret (al_ID a)) (\<lambda>i.
     bindE (if al_DetectedAt a = zero_time then now else ret (al_DetectedAt a)) (\<lambda>t.
     let a' = a\<lparr>al_ID := i, al_DetectedAt := t\<rparr> in
     bindE (sql (\<lambda>_ d. if fresh_key al_ID (anomaly_alerts d) i
                       then Inr ((), d\<lparr>anomaly_alerts := anomaly_alerts d @ [a']\<rparr>) else Inl DBError)) (\<lambda>_.
     ret a')))"

definition analytics_ListAnomalies :: "int \<Rightarrow> anomaly_alert list action" where
  "analytics_ListAnomalies limit =
     query (\<lambda>d. Inr (take (nat (clamp 200 50 limit)) (order_desc al_DetectedAt (anomaly_alerts d))))"

definition analytics_AnonymiseUserEvents :: "string \<Rightarrow> unit action" where
  "analytics_AnonymiseUserEvents anon = sql (\<lambda>_ d. Inr ((), d\<lparr>analytics_events :=
     update_where (\<lambda>e. e_UserAnon e = Some anon) (\<lambda>e. e\<lparr>e_UserAnon := None\<rparr>) (analytics_events d)\<rparr>))"

section \<open>The service\<close>

record analytics_service =
  as_digest :: "string \<Rightarrow> string"
  as_uuid_text :: "uuid \<Rightarrow> string"
  as_anonSalt :: string
  as_anomalyX :: rat

definition NewAnalyticsService :: "(string \<Rightarrow> string) \<Rightarrow> (uuid \<Rightarrow> string) \<Rightarrow> string \<Rightarrow> analytics_service" where
  "NewAnalyticsService digest uuid_text salt =
     \<lparr>as_digest = digest, as_uuid_text = uuid_text, as_anonSalt = salt, as_anomalyX = 3\<rparr>"

definition Anon :: "analytics_service \<Rightarrow> uuid \<Rightarrow> string" where
  "Anon s u = (if u = uuid_nil then [] else as_digest s (as_anonSalt s @ '':'' @ as_uuid_text s u))"

definition AnalyticsService_Track ::
    "analytics_service \<Rightarrow> string \<Rightarrow> string \<Rightarrow> uuid \<Rightarrow> uuid \<Rightarrow> analytics_event action" where
  "AnalyticsService_Track s et tt ti u = analytics_RecordEvent
     \<lparr>e_ID = 0, e_EventType = et, e_TargetType = tt, e_TargetID = ti, e_UserAnon = Some (Anon s u),
      e_CreatedAt = zero_time\<rparr>"

definition AnalyticsService_TopSessions :: "int \<Rightarrow> int \<Rightarrow> top_session list action" where
  "AnalyticsService_TopSessions days limit =
     bindE now (\<lambda>t. analytics_TopSessions (t + days_back (if days \<le> 0 then 7 else days)) limit)"

definition AnalyticsService_Trends :: "string \<Rightarrow> (int \<Rightarrow> trend_bucket list option) action" where
  "AnalyticsService_Trends et =
     bindE (analytics_Trend et 7) (\<lambda>b7.
     bindE (analytics_Trend et 30) (\<lambda>b30.
     bindE (analytics_Trend et 90) (\<lambda>b90.
     ret [7 \<mapsto> b7, 30 \<mapsto> b30, 90 \<mapsto> b90])))"

definition AnalyticsService_Anomalies :: "int \<Rightarrow> anomaly_alert list action" where
  "AnalyticsService_Anomalies limit = analytics_ListAnomalies limit"

definition AnalyticsService_RunAggregation :: "unit action" where
  "AnalyticsService_RunAggregation =
     bindE now (\<lambda>t. bindE (analytics_AggregateRecent (t - 2 * hour)) (\<lambda>_. ret ()))"

text \<open>The verb \<open>%.2f\<close>: two decimals, the nearest ones, of two equally near the even one.\<close>

definition hundredths :: "rat \<Rightarrow> int" where
  "hundredths q =
     (let f = \<lfloor>q * 100\<rfloor>; part = q * 100 - of_int f
      in if part > 1 / 2 \<or> (part = 1 / 2 \<and> odd f) then f + 1 else f)"

definition two_decimals :: "rat \<Rightarrow> string" where
  "two_decimals q =
     (let n = nat \<bar>hundredths q\<bar>
      in (if q < 0 then ''-'' else []) @ nat_digits (n div 100) @ ''.'' @ nat_digits (n div 10 mod 10) @ nat_digits (n mod 10))"

definition anomaly_of :: "string \<Rightarrow> time \<Rightarrow> int \<Rightarrow> rat \<Rightarrow> anomaly_alert" where
  "anomaly_of et hourStart observed baseline =
     \<lparr>al_ID = uuid_nil, al_DetectedAt = zero_time, al_EventType = et, al_Observed = observed,
      al_Baseline = baseline, al_Ratio = of_int observed / baseline,
      al_Detail = ''hour='' @ format_RFC3339 hourStart @ '' observed='' @ go_decimal observed @
                  '' baseline='' @ two_decimals baseline\<rparr>"

definition detect_one :: "analytics_service \<Rightarrow> time \<Rightarrow> string \<Rightarrow> unit action" where
  "detect_one s hourStart et =
     bindE (analytics_HourlyCount et hourStart) (\<lambda>observed.
     bindE (analytics_BaselineHourlyAverage et hourStart) (\<lambda>baseline.
     if baseline < 1 \<or> observed = 0 then ret ()
     else if of_int observed / baseline > as_anomalyX s
     then ignoring (analytics_InsertAnomaly (anomaly_of et hourStart observed baseline)) (ret ())
     else ret ()))"

definition event_types :: "string list" where
  "event_types = [''view'', ''favorite'', ''comment'', ''download'']"

definition AnalyticsService_RunAnomalyDetection :: "analytics_service \<Rightarrow> unit action" where
  "AnalyticsService_RunAnomalyDetection s =
     bindE now (\<lambda>t. for_each_or_return (detect_one s (hour_start t - hour)) event_types)"

definition AnalyticsService_AnonymiseUserEvents :: "analytics_service \<Rightarrow> uuid \<Rightarrow> unit action" where
  "AnalyticsService_AnonymiseUserEvents s u = analytics_AnonymiseUserEvents (Anon s u)"

section \<open>What the methods do to the store\<close>

lemmas analytics_reads = analytics_TopSessions_def analytics_Trend_def analytics_HourlyCount_def
  analytics_BaselineHourlyAverage_def analytics_ListAnomalies_def

lemma analytics_reads_readonly [store_rules]:
  "readonly (analytics_TopSessions t n)" "readonly (analytics_Trend et n)" "readonly (analytics_HourlyCount et t)"
  "readonly (analytics_BaselineHourlyAverage et t)" "readonly (analytics_ListAnomalies n)"
  unfolding analytics_reads by (intro store_rules)+

section \<open>Aggregation\<close>

definition hourly_total :: "hour_key \<Rightarrow> db \<Rightarrow> int" where
  "hourly_total k d = sum_where (\<lambda>r. hourly_key r = k) h_Count (analytics_hourly_rows d)"

definition events_in :: "hour_key \<Rightarrow> time \<Rightarrow> db \<Rightarrow> int" where
  "events_in k since d = int (matches (\<lambda>e. event_key e = k) (newer_than since (analytics_events d)))"

lemma hourly_key_count [simp]: "hourly_key (r\<lparr>h_Count := n\<rparr>) = hourly_key r"
  by (simp add: hourly_key_def)

lemma upsert_distinct: "distinct_keys hourly_key rows \<Longrightarrow> distinct_keys hourly_key (upsert_hourly h rows)"
  by (auto simp: upsert_hourly_def distinct_keys_append fresh_key_iff distinct_keys_update)

lemma upsert_total:
  assumes "distinct_keys hourly_key rows"
  shows "sum_where (\<lambda>r. hourly_key r = k) h_Count (upsert_hourly h rows) =
    sum_where (\<lambda>r. hourly_key r = k) h_Count rows + (if hourly_key h = k then h_Count h else 0)"
proof (cases "fresh_key hourly_key rows (hourly_key h)")
  case False
  have "distinct_keys hourly_key rows \<Longrightarrow>
    sum_where (\<lambda>r. hourly_key r = k) h_Count
      (update_where (\<lambda>r. hourly_key r = hourly_key h) (\<lambda>r. r\<lparr>h_Count := h_Count r + h_Count h\<rparr>) rows) =
    sum_where (\<lambda>r. hourly_key r = k) h_Count rows +
      (if hourly_key h = k \<and> hourly_key h \<in> hourly_key ` set rows then h_Count h else 0)"
  proof (induction rows)
    case (Cons r rows)
    then have rest: "distinct_keys hourly_key rows" and new: "hourly_key r \<notin> hourly_key ` set rows"
      by (auto simp: distinct_keys_Cons image_iff)
    show ?case using Cons.IH [OF rest] new by auto
  qed simp
  with False assms show ?thesis by (simp add: upsert_hourly_def fresh_key_def)
qed (simp add: upsert_hourly_def)

definition upsert_all :: "analytics_hourly list \<Rightarrow> analytics_hourly list \<Rightarrow> analytics_hourly list" where
  "upsert_all hs rows = fold upsert_hourly hs rows"

lemma upsert_all_distinct: "distinct_keys hourly_key rows \<Longrightarrow> distinct_keys hourly_key (upsert_all hs rows)"
  unfolding upsert_all_def by (induction hs arbitrary: rows) (auto intro: upsert_distinct)

lemma upsert_all_total:
  "distinct_keys hourly_key rows \<Longrightarrow>
   sum_where (\<lambda>r. hourly_key r = k) h_Count (upsert_all hs rows) =
     sum_where (\<lambda>r. hourly_key r = k) h_Count rows + (\<Sum>h\<leftarrow>hs. if hourly_key h = k then h_Count h else 0)"
  unfolding upsert_all_def
  by (induction hs arbitrary: rows) (simp_all add: upsert_total upsert_distinct)

lemma upserts_return:
  "for_each_or_return analytics_UpsertHourly hs w = (Inr u, w') \<Longrightarrow>
   store w' = store w\<lparr>analytics_hourly_rows := upsert_all hs (analytics_hourly_rows (store w))\<rparr>"
  by (induction hs arbitrary: w)
    (auto simp: upsert_all_def analytics_UpsertHourly_def returns)

lemma groups_total:
  "(\<Sum>h\<leftarrow>hourly_groups since es. if hourly_key h = k then h_Count h else 0) =
     int (matches (\<lambda>e. event_key e = k) (newer_than since es))"
proof -
  have "(\<Sum>h\<leftarrow>map (\<lambda>((b, et, tt, ti), n). \<lparr>h_BucketStart = b, h_EventType = et, h_TargetType = tt,
          h_TargetID = ti, h_Count = int n\<rparr>) ps. if hourly_key h = k then h_Count h else 0) =
        int (\<Sum>(k', n)\<leftarrow>ps. if k' = k then n else 0)" for ps
    by (induction ps) (auto simp: hourly_key_def)
  then show ?thesis unfolding hourly_groups_def by (simp add: group_counts_lookup)
qed

lemma aggregation_step:
  assumes "AnalyticsService_RunAggregation w = (Inr (), w')" and "distinct_keys hourly_key (analytics_hourly_rows (store w))"
  shows "hourly_total k (store w') = hourly_total k (store w) + events_in k (clock w (readings w) - 2 * hour) (store w)"
    and "distinct_keys hourly_key (analytics_hourly_rows (store w'))"
    and "\<exists>rows. store w' = store w\<lparr>analytics_hourly_rows := rows\<rparr>"
proof -
  have s: "store w' = store w\<lparr>analytics_hourly_rows :=
      upsert_all (hourly_groups (clock w (readings w) - 2 * hour) (analytics_events (store w))) (analytics_hourly_rows (store w))\<rparr>"
    using assms(1)
    by (auto simp: AnalyticsService_RunAggregation_def analytics_AggregateRecent_def returns dest!: upserts_return)
  show "hourly_total k (store w') = hourly_total k (store w) + events_in k (clock w (readings w) - 2 * hour) (store w)"
    by (simp add: s hourly_total_def events_in_def upsert_all_total [OF assms(2)] groups_total)
  show "distinct_keys hourly_key (analytics_hourly_rows (store w'))"
    by (simp add: s upsert_all_distinct assms(2))
  show "\<exists>rows. store w' = store w\<lparr>analytics_hourly_rows := rows\<rparr>"
    using s by blast
qed

lemma upserts_run:
  "calm w \<Longrightarrow> \<exists>w'. for_each_or_return analytics_UpsertHourly hs w = (Inr (), w') \<and> calm w' \<and> clock w' = clock w"
proof (induction hs arbitrary: w)
  case (Cons h hs)
  let ?w1 = "w\<lparr>store := store w\<lparr>analytics_hourly_rows := upsert_hourly h (analytics_hourly_rows (store w))\<rparr>,
                readings := Suc (readings w), stmts := Suc (stmts w)\<rparr>"
  have "analytics_UpsertHourly h w = (Inr (), ?w1)"
    using Cons.prems by (simp add: analytics_UpsertHourly_def sql_calm)
  moreover obtain w' where "for_each_or_return analytics_UpsertHourly hs ?w1 = (Inr (), w')" "calm w'" "clock w' = clock ?w1"
    using Cons.IH [of ?w1] Cons.prems by auto
  ultimately show ?case by (simp add: bindE_run)
qed (simp add: ret_def)

lemma aggregation_runs:
  assumes "calm w"
  shows "\<exists>w'. AnalyticsService_RunAggregation w = (Inr (), w') \<and> calm w' \<and> clock w' = clock w"
proof -
  define w0 where "w0 = w\<lparr>readings := Suc (Suc (readings w)), stmts := Suc (stmts w)\<rparr>"
  define hs where "hs = hourly_groups (clock w (readings w) - 2 * hour) (analytics_events (store w))"
  have "calm w0" "clock w0 = clock w" using assms by (simp_all add: w0_def)
  then obtain w' where w': "for_each_or_return analytics_UpsertHourly hs w0 = (Inr (), w')" "calm w'" "clock w' = clock w"
    using upserts_run by metis
  have "AnalyticsService_RunAggregation w = (Inr (), w')"
    using assms w'(1)
    by (simp add: AnalyticsService_RunAggregation_def analytics_AggregateRecent_def calm_run hs_def w0_def)
  with w' show ?thesis by blast
qed

text \<open>
  C28. Every aggregation run counts its window again. A run adds to every hourly bucket the number of its
  events that are younger than two hours, whatever an earlier run has counted already, so of two runs in
  a row the second adds the events of its window once more; nothing else in the store changes.
\<close>

theorem every_run_counts_its_window:
  assumes "distinct_keys hourly_key (analytics_hourly_rows (store w))"
    and "AnalyticsService_RunAggregation w = (Inr (), w1)"
    and "AnalyticsService_RunAggregation w1 = (Inr (), w2)"
  shows "hourly_total k (store w1) = hourly_total k (store w) + events_in k (clock w (readings w) - 2 * hour) (store w) \<and>
    hourly_total k (store w2) = hourly_total k (store w) + events_in k (clock w (readings w) - 2 * hour) (store w)
           + events_in k (clock w1 (readings w1) - 2 * hour) (store w) \<and>
    (\<exists>rows. store w2 = store w\<lparr>analytics_hourly_rows := rows\<rparr>)"
proof (intro conjI)
  note first = aggregation_step [OF assms(2,1)]
  note second_run = aggregation_step [OF assms(3) first(2)]
  obtain rows where rows: "store w1 = store w\<lparr>analytics_hourly_rows := rows\<rparr>" using first(3) by blast
  show "hourly_total k (store w1) = hourly_total k (store w) + events_in k (clock w (readings w) - 2 * hour) (store w)"
    by (rule first(1))
  show "hourly_total k (store w2) = hourly_total k (store w) + events_in k (clock w (readings w) - 2 * hour) (store w)
           + events_in k (clock w1 (readings w1) - 2 * hour) (store w)"
    using second_run(1) [of k] first(1) [of k] by (simp add: rows events_in_def)
  show "\<exists>rows. store w2 = store w\<lparr>analytics_hourly_rows := rows\<rparr>"
    using second_run(3) rows by auto
qed

definition demo_event :: analytics_event where
  "demo_event = \<lparr>e_ID = 1, e_EventType = ''view'', e_TargetType = ''resource'', e_TargetID = 9,
     e_UserAnon = Some ''a7'', e_CreatedAt = 10 * hour + minute\<rparr>"

definition event_world :: "analytics_event list \<Rightarrow> time \<Rightarrow> db world" where
  "event_world es t = demo_world (empty_db\<lparr>analytics_events := es\<rparr>) t"

theorem every_run_counts_its_window_witness:
  "\<exists>w1 w2. AnalyticsService_RunAggregation (event_world [demo_event] (11 * hour)) = (Inr (), w1) \<and>
     AnalyticsService_RunAggregation w1 = (Inr (), w2) \<and>
     hourly_total (event_key demo_event) (store w1) = 1 \<and> hourly_total (event_key demo_event) (store w2) = 2"
proof -
  let ?w = "event_world [demo_event] (11 * hour)"
  have "calm ?w" and ck: "clock ?w = (\<lambda>_. 11 * hour)" and es: "analytics_events (store ?w) = [demo_event]"
    and new: "analytics_hourly_rows (store ?w) = []"
    by (simp_all add: event_world_def empty_db_def demo_world_def calm_def)
  then obtain w1 where w1: "AnalyticsService_RunAggregation ?w = (Inr (), w1)" "calm w1" "clock w1 = clock ?w"
    using aggregation_runs by blast
  then obtain w2 where w2: "AnalyticsService_RunAggregation w1 = (Inr (), w2)"
    using aggregation_runs by blast
  have "distinct_keys hourly_key (analytics_hourly_rows (store ?w))"
    unfolding new distinct_keys_def by simp
  note runs = every_run_counts_its_window [OF this w1(1) w2]
  have "hourly_total (event_key demo_event) (store ?w) = 0"
    unfolding hourly_total_def new by simp
  moreover have "events_in (event_key demo_event) (9 * hour) (store ?w) = 1"
    unfolding events_in_def es by (simp add: newer_than_def demo_event_def)
  ultimately show ?thesis
    using runs [of "event_key demo_event"] w1(1) w2 unfolding w1(3) ck by auto
qed

section \<open>The baseline\<close>

lemma average_ge_1:
  assumes "\<And>n. n \<in> set ns \<Longrightarrow> 0 < n" and "ns \<noteq> []"
  shows "1 \<le> average ns"
proof -
  have "length ns \<le> sum_list ns"
    using assms(1) by (induction ns) (force simp: Suc_le_eq)+
  then show ?thesis using assms(2) by (simp add: average_def)
qed

text \<open>
  Quiet hours do not count in the baseline. It is the number of events of the trailing week divided by
  the number of hours that had one, not by 168; so it is 0 when the week had no event and at least 1
  otherwise, and the test \<open>baseline < 1\<close> only ever asks whether there was an event at all.
\<close>

lemma baseline_skips_quiet_hours:
  fixes es :: "analytics_event list" and t :: time and et :: string
  defines "week \<equiv> filter (in_window et (t - 7 * 24 * hour) t) es"
  shows "baseline_of et t es = (if week = [] then 0
      else of_nat (length week) / of_nat (card ((\<lambda>e. hour_start (e_CreatedAt e)) ` set week))) \<and>
    (baseline_of et t es < 1 \<longleftrightarrow> week = [])"
proof (intro conjI)
  let ?g = "group_counts (\<lambda>e. hour_start (e_CreatedAt e)) week"
  have b: "baseline_of et t es = average (map snd ?g)"
    by (simp only: baseline_of_def week_def)
  have len: "length ?g = card ((\<lambda>e. hour_start (e_CreatedAt e)) ` set week)"
    by (simp add: group_counts_def length_remdups_card_conv)
  have nil: "?g = [] \<longleftrightarrow> week = []"
    by (simp add: group_counts_def)
  show "baseline_of et t es = (if week = [] then 0
      else of_nat (length week) / of_nat (card ((\<lambda>e. hour_start (e_CreatedAt e)) ` set week)))"
    using nil by (simp add: b average_def sum_group_counts flip: len)
  show "baseline_of et t es < 1 \<longleftrightarrow> week = []"
  proof (cases "week = []")
    case False
    then have "1 \<le> average (map snd ?g)"
      by (intro average_ge_1) (auto simp: nil dest: group_counts_positive)
    with False show ?thesis by (simp add: b)
  qed (simp add: b average_def group_counts_def)
qed

section \<open>Anomalies\<close>

definition observed_of :: "string \<Rightarrow> time \<Rightarrow> analytics_event list \<Rightarrow> int" where
  "observed_of et t es = int (matches (in_window et t (t + hour)) es)"

definition spike :: "analytics_service \<Rightarrow> time \<Rightarrow> analytics_event list \<Rightarrow> string \<Rightarrow> bool" where
  "spike s t es et \<longleftrightarrow> 1 \<le> baseline_of et t es \<and> observed_of et t es \<noteq> 0 \<and>
     of_int (observed_of et t es) / baseline_of et t es > as_anomalyX s"

definition same_alert :: "db world \<Rightarrow> anomaly_alert \<Rightarrow> anomaly_alert \<Rightarrow> bool" where
  "same_alert w a b \<longleftrightarrow> (\<exists>i n. a = b\<lparr>al_ID := i, al_DetectedAt := clock w n\<rparr> \<and> readings w < n)"

lemma same_alert_later: "\<lbrakk>same_alert w' a b; clock w' = clock w; readings w \<le> readings w'\<rbrakk> \<Longrightarrow> same_alert w a b"
  unfolding same_alert_def by (metis order.strict_trans1)

definition expected_alerts :: "analytics_service \<Rightarrow> time \<Rightarrow> analytics_event list \<Rightarrow> string list \<Rightarrow> anomaly_alert list" where
  "expected_alerts s t es ets =
     map (\<lambda>et. anomaly_of et t (observed_of et t es) (baseline_of et t es)) (filter (spike s t es) ets)"

lemma expected_alerts_Cons:
  "expected_alerts s t es (et # ets) = expected_alerts s t es [et] @ expected_alerts s t es ets"
  by (simp add: expected_alerts_def)

text \<open>What a part of a run does: it appends alerts under the next ids and changes nothing else.\<close>

definition appends_alerts :: "db world \<Rightarrow> db world \<Rightarrow> anomaly_alert list \<Rightarrow> anomaly_alert list \<Rightarrow> bool" where
  "appends_alerts w w' new expected \<longleftrightarrow> calm w' \<and> clock w' = clock w \<and> readings w \<le> readings w' \<and> uuids w' = uuids w \<and>
     store w' = store w\<lparr>anomaly_alerts := anomaly_alerts (store w) @ new\<rparr> \<and> minted w' = minted w + length new \<and>
     map al_ID new = map (uuids w) [minted w..<minted w'] \<and> list_all2 (same_alert w) new expected"

lemma appends_alerts_trans:
  assumes "appends_alerts w w1 new1 e1" and "appends_alerts w1 w2 new2 e2"
  shows "appends_alerts w w2 (new1 @ new2) (e1 @ e2)"
proof -
  note one = assms(1) [unfolded appends_alerts_def] and two = assms(2) [unfolded appends_alerts_def]
  have "list_all2 (same_alert w) new2 e2"
    using one two by (auto elim!: list_all2_mono intro: same_alert_later)
  then have "list_all2 (same_alert w) (new1 @ new2) (e1 @ e2)"
    using one by (simp add: list_all2_appendI)
  moreover have "[minted w..<minted w2] = [minted w..<minted w1] @ [minted w1..<minted w2]"
    using one two upt_add_eq_append [of "minted w" "minted w1" "length new2"] by simp
  then have "map al_ID (new1 @ new2) = map (uuids w) [minted w..<minted w2]"
    using one two by simp
  ultimately show ?thesis
    unfolding appends_alerts_def using one two by simp
qed

lemma detect_one_run:
  assumes "calm w" and "uuids w (minted w) \<notin> al_ID ` set (anomaly_alerts (store w))"
  shows "\<exists>w' new. detect_one s t et w = (Inr (), w') \<and>
    appends_alerts w w' new (expected_alerts s t (analytics_events (store w)) [et])"
proof -
  let ?es = "analytics_events (store w)"
  define w0 where "w0 = w\<lparr>readings := Suc (Suc (readings w)), stmts := Suc (Suc (stmts w))\<rparr>"
  have w0: "calm w0" "store w0 = store w" "uuids w0 = uuids w" "minted w0 = minted w" "clock w0 = clock w"
    "readings w0 = Suc (Suc (readings w))"
    using assms(1) by (simp_all add: w0_def)
  define rest where "rest = (if baseline_of et t ?es < 1 \<or> observed_of et t ?es = 0 then ret ()
     else if of_int (observed_of et t ?es) / baseline_of et t ?es > as_anomalyX s
     then ignoring (analytics_InsertAnomaly (anomaly_of et t (observed_of et t ?es) (baseline_of et t ?es))) (ret ())
     else ret () :: unit action)"
  have run: "detect_one s t et w = rest w0"
    unfolding detect_one_def analytics_HourlyCount_def analytics_BaselineHourlyAverage_def rest_def
    using assms(1) by (simp add: query_calm bindE_run w0_def observed_of_def)
  show ?thesis
  proof (cases "spike s t ?es et")
    case False
    then have "rest w0 = (Inr (), w0)"
      by (auto simp: rest_def spike_def ret_def)
    then show ?thesis
      unfolding run using w0 False
      by (intro exI [of _ w0] exI [of _ "[]"]) (simp add: appends_alerts_def expected_alerts_def)
  next
    case True
    let ?a = "anomaly_of et t (observed_of et t ?es) (baseline_of et t ?es)"
    let ?i = "uuids w (minted w)"
    let ?t = "clock w (readings w0)"
    let ?new = "?a\<lparr>al_ID := ?i, al_DetectedAt := ?t\<rparr>"
    define w1 where "w1 = w0\<lparr>store := store w\<lparr>anomaly_alerts := anomaly_alerts (store w) @ [?new]\<rparr>,
       minted := Suc (minted w), readings := Suc (Suc (readings w0)), stmts := Suc (stmts w0)\<rparr>"
    have "analytics_InsertAnomaly ?a w0 = (Inr ?new, w1)"
      using w0 assms(2)
      by (simp add: analytics_InsertAnomaly_def calm_run Let_def anomaly_of_def fresh_key_def w1_def)
    with True have "rest w0 = (Inr (), w1)"
      by (auto simp: rest_def spike_def ret_def ignoring_def attempt_def)
    moreover have "same_alert w ?new ?a"
      unfolding same_alert_def by (intro exI [of _ ?i] exI [of _ "readings w0"]) (simp add: w0(6))
    moreover have "calm w1" "uuids w1 = uuids w" "minted w1 = Suc (minted w)" "clock w1 = clock w" "readings w \<le> readings w1"
      "store w1 = store w\<lparr>anomaly_alerts := anomaly_alerts (store w) @ [?new]\<rparr>"
      using w0 by (simp_all add: w1_def)
    ultimately show ?thesis
      unfolding run using True
      by (intro exI [of _ w1] exI [of _ "[?new]"]) (simp add: appends_alerts_def expected_alerts_def)
  qed
qed

definition fresh_uuids :: "db world \<Rightarrow> uuid set \<Rightarrow> bool" where
  "fresh_uuids w used \<longleftrightarrow> inj_on (uuids w) {minted w..} \<and> (\<forall>n \<ge> minted w. uuids w n \<notin> used)"

lemma fresh_uuids_later:
  assumes "fresh_uuids w used" and "uuids w' = uuids w" and "minted w \<le> minted w'"
  shows "fresh_uuids w' (used \<union> uuids w ` {minted w..<minted w'})"
proof -
  have "uuids w n \<noteq> uuids w m" if "minted w' \<le> n" "minted w \<le> m" "m < minted w'" for n m
    using assms that by (auto simp: fresh_uuids_def dest: inj_onD)
  moreover have "inj_on (uuids w) {minted w'..}"
    using assms by (auto simp: fresh_uuids_def elim: inj_on_subset)
  ultimately show ?thesis using assms by (auto simp: fresh_uuids_def)
qed

lemma detect_all_run:
  assumes "calm w" and "fresh_uuids w (al_ID ` set (anomaly_alerts (store w)))"
  shows "\<exists>w' new. for_each_or_return (detect_one s t) ets w = (Inr (), w') \<and>
    appends_alerts w w' new (expected_alerts s t (analytics_events (store w)) ets)"
  using assms
proof (induction ets arbitrary: w)
  case Nil
  then show ?case
    by (intro exI [of _ w] exI [of _ "[]"]) (simp add: ret_def expected_alerts_def appends_alerts_def)
next
  case (Cons et ets)
  have "uuids w (minted w) \<notin> al_ID ` set (anomaly_alerts (store w))"
    using Cons.prems(2) by (simp add: fresh_uuids_def)
  from detect_one_run [OF Cons.prems(1) this]
  obtain w1 new1 where run1: "detect_one s t et w = (Inr (), w1)"
    and one: "appends_alerts w w1 new1 (expected_alerts s t (analytics_events (store w)) [et])"
    by blast
  then have "set (map al_ID new1) = set (map (uuids w) [minted w..<minted w1])"
    by (simp only: appends_alerts_def)
  then have "al_ID ` set (anomaly_alerts (store w1)) =
      al_ID ` set (anomaly_alerts (store w)) \<union> uuids w ` {minted w..<minted w1}"
    using one by (simp add: appends_alerts_def image_Un)
  then have "fresh_uuids w1 (al_ID ` set (anomaly_alerts (store w1)))"
    using fresh_uuids_later [OF Cons.prems(2), of w1] one by (simp only: appends_alerts_def)
  moreover have "calm w1" "analytics_events (store w1) = analytics_events (store w)"
    using one by (simp_all add: appends_alerts_def)
  ultimately obtain w2 new2 where run2: "for_each_or_return (detect_one s t) ets w1 = (Inr (), w2)"
    and rest: "appends_alerts w1 w2 new2 (expected_alerts s t (analytics_events (store w)) ets)"
    using Cons.IH [of w1] by auto
  show ?case
    unfolding expected_alerts_Cons [of s t _ et ets]
    using appends_alerts_trans [OF one rest] run1 run2 by (auto simp: bindE_run)
qed

text \<open>
  What a spike is, in terms of the events: of one type, those of the last full hour are more than three
  times the average of the hours of the week before that had an event of the type.
\<close>

definition last_full_hour :: "time \<Rightarrow> time" where
  "last_full_hour t = (t div hour - 1) * hour"

definition events_between :: "string \<Rightarrow> time \<Rightarrow> time \<Rightarrow> analytics_event list \<Rightarrow> analytics_event list" where
  "events_between et from till es = filter (\<lambda>e. e_EventType e = et \<and> from \<le> e_CreatedAt e \<and> e_CreatedAt e < till) es"

definition hours_with_events :: "analytics_event list \<Rightarrow> nat" where
  "hours_with_events es = card ((\<lambda>e. e_CreatedAt e div hour) ` set es)"

definition is_spike :: "time \<Rightarrow> analytics_event list \<Rightarrow> string \<Rightarrow> bool" where
  "is_spike t es et \<longleftrightarrow>
     (let seen = events_between et t (t + hour) es; week = events_between et (t - 168 * hour) t es
      in week \<noteq> [] \<and> 3 * length week < length seen * hours_with_events week)"

definition describes_spike :: "time \<Rightarrow> analytics_event list \<Rightarrow> anomaly_alert \<Rightarrow> bool" where
  "describes_spike t es a \<longleftrightarrow>
     (let seen = events_between (al_EventType a) t (t + hour) es; week = events_between (al_EventType a) (t - 168 * hour) t es;
          average = of_nat (length week) / of_nat (hours_with_events week)
      in al_Observed a = int (length seen) \<and> al_Baseline a = average \<and> al_Ratio a = of_nat (length seen) / average \<and>
         al_Detail a = ''hour='' @ format_RFC3339 t @ '' observed='' @ go_decimal (int (length seen)) @
           '' baseline='' @ two_decimals average)"

lemma in_window_events: "filter (in_window et from till) es = events_between et from till es"
  unfolding events_between_def by (rule filter_cong) (auto simp: in_window_def)

lemma hour_start_mult: "hour_start t = t div hour * hour"
  by (simp add: hour_start_def minus_mod_eq_div_mult)

lemma hours_with_events_eq: "card ((\<lambda>e. hour_start (e_CreatedAt e)) ` set es) = hours_with_events es"
proof -
  have "(\<lambda>e. hour_start (e_CreatedAt e)) ` set es = (\<lambda>n. n * hour) ` (\<lambda>e. e_CreatedAt e div hour) ` set es"
    by (simp add: image_image hour_start_mult)
  then show ?thesis
    by (simp add: hours_with_events_def card_image inj_on_def)
qed

lemma baseline_of_week:
  fixes et t es
  defines "week \<equiv> events_between et (t - 168 * hour) t es"
  shows "baseline_of et t es = (if week = [] then 0 else of_nat (length week) / of_nat (hours_with_events week))"
    and "baseline_of et t es < 1 \<longleftrightarrow> week = []"
proof -
  have "7 * 24 * hour = 168 * hour" by simp
  note both = baseline_skips_quiet_hours [of et t es, unfolded in_window_events hours_with_events_eq this]
  show "baseline_of et t es = (if week = [] then 0 else of_nat (length week) / of_nat (hours_with_events week))"
    unfolding week_def by (rule both [THEN conjunct1])
  show "baseline_of et t es < 1 \<longleftrightarrow> week = []"
    unfolding week_def by (rule both [THEN conjunct2])
qed

lemma observed_of_events: "observed_of et t es = int (length (events_between et t (t + hour) es))"
  by (simp add: observed_of_def matches_def in_window_events)

lemma spike_iff: "spike (NewAnalyticsService digest uuid_text salt) t es et \<longleftrightarrow> is_spike t es et"
proof (cases "events_between et (t - 168 * hour) t es = []")
  case True
  then show ?thesis using baseline_of_week [of et t es] by (simp add: spike_def is_spike_def Let_def)
next
  case False
  define n where "n = length (events_between et (t - 168 * hour) t es)"
  define h where "h = hours_with_events (events_between et (t - 168 * hour) t es)"
  define m where "m = length (events_between et t (t + hour) es)"
  have pos: "0 < h" "0 < n"
    using False by (auto simp: h_def n_def hours_with_events_def card_gt_0_iff)
  have b: "baseline_of et t es = of_nat n / of_nat h" "1 \<le> baseline_of et t es"
    using baseline_of_week [of et t es] False by (simp_all add: n_def h_def)
  have "3 < of_nat m / (of_nat n / of_nat h :: rat) \<longleftrightarrow> of_nat (3 * n) < (of_nat (m * h) :: rat)"
    using pos by (simp add: field_simps)
  then have "3 < of_nat m / (of_nat n / of_nat h :: rat) \<longleftrightarrow> 3 * n < m * h"
    by (simp only: of_nat_less_iff)
  then have "spike (NewAnalyticsService digest uuid_text salt) t es et \<longleftrightarrow> m \<noteq> 0 \<and> 3 * n < m * h"
    unfolding spike_def observed_of_events m_def [symmetric] using b
    by (simp add: NewAnalyticsService_def)
  then show ?thesis
    using False unfolding is_spike_def Let_def n_def [symmetric] h_def [symmetric] m_def [symmetric]
    by (cases m) simp_all
qed

lemma spike_eq: "spike (NewAnalyticsService digest uuid_text salt) t es = is_spike t es"
  by (rule ext) (rule spike_iff)

lemma expected_describe:
  assumes "a \<in> set (expected_alerts (NewAnalyticsService digest uuid_text salt) t es ets)"
  shows "describes_spike t es a"
proof -
  obtain et where a: "a = anomaly_of et t (observed_of et t es) (baseline_of et t es)" and "is_spike t es et"
    using assms by (auto simp: expected_alerts_def spike_iff)
  then have "baseline_of et t es = of_nat (length (events_between et (t - 168 * hour) t es)) /
      of_nat (hours_with_events (events_between et (t - 168 * hour) t es))"
    using baseline_of_week(1) [of et t es] by (simp add: is_spike_def Let_def)
  then show ?thesis
    unfolding describes_spike_def a Let_def by (simp add: anomaly_of_def observed_of_events)
qed

text \<open>
  C29. Alerts are raised for the spikes and only for them. A detection run on a database that answers
  looks at the last full hour and appends, in the fixed order of the four event types, one alert for
  every type of which that hour saw more than three times the events of an average hour of the week
  before; the average is over the hours that had an event at all, so quiet hours do not lower it, and a
  type with no event in that week raises no alert, however many events the hour saw. Each alert
  carries the two counts, their ratio, the text made of them, a later reading of the clock and the next
  UUID; nothing else changes. New UUIDs must be new.
\<close>

theorem alerts_are_the_spikes:
  assumes "calm w" and "fresh_uuids w (al_ID ` set (anomaly_alerts (store w)))"
  shows "\<exists>w' new. AnalyticsService_RunAnomalyDetection (NewAnalyticsService digest uuid_text salt) w = (Inr (), w') \<and>
    store w' = store w\<lparr>anomaly_alerts := anomaly_alerts (store w) @ new\<rparr> \<and>
    map al_EventType new =
      filter (is_spike (last_full_hour (clock w (readings w))) (analytics_events (store w)))
        [''view'', ''favorite'', ''comment'', ''download''] \<and>
    (\<forall>a \<in> set new. describes_spike (last_full_hour (clock w (readings w))) (analytics_events (store w)) a \<and>
       (\<exists>n > readings w. al_DetectedAt a = clock w n)) \<and>
    map al_ID new = map (uuids w) [minted w..<minted w + length new]"
proof -
  let ?s = "NewAnalyticsService digest uuid_text salt" and ?es = "analytics_events (store w)"
  let ?w = "w\<lparr>readings := Suc (readings w)\<rparr>" and ?t = "hour_start (clock w (readings w)) - hour"
  have t: "?t = last_full_hour (clock w (readings w))"
    by (simp add: hour_start_mult last_full_hour_def algebra_simps)
  have run: "AnalyticsService_RunAnomalyDetection ?s w = for_each_or_return (detect_one ?s ?t) event_types ?w"
    by (simp add: AnalyticsService_RunAnomalyDetection_def bindE_run now_def)
  have "calm ?w" "fresh_uuids ?w (al_ID ` set (anomaly_alerts (store ?w)))"
    using assms by (simp_all add: fresh_uuids_def)
  from detect_all_run [OF this, of ?s ?t event_types] obtain w' new where
    go: "for_each_or_return (detect_one ?s ?t) event_types ?w = (Inr (), w')" and
    ap: "appends_alerts ?w w' new (expected_alerts ?s ?t ?es event_types)" by auto
  then have all: "list_all2 (same_alert ?w) new (expected_alerts ?s ?t ?es event_types)"
    by (simp add: appends_alerts_def)
  have "map al_EventType new = map al_EventType (expected_alerts ?s ?t ?es event_types)"
    using all by (induction rule: list_all2_induct) (auto simp: same_alert_def)
  then have "map al_EventType new = filter (is_spike ?t ?es) event_types"
    by (simp add: expected_alerts_def spike_eq comp_def anomaly_of_def)
  moreover have "describes_spike ?t ?es a \<and> (\<exists>n > readings w. al_DetectedAt a = clock w n)" if new: "a \<in> set new" for a
  proof -
    obtain e where e: "e \<in> set (expected_alerts ?s ?t ?es event_types)" "same_alert ?w a e"
      using all new unfolding list_all2_conv_all_nth in_set_conv_nth by metis
    then show ?thesis
      using expected_describe [OF e(1)] by (auto simp: same_alert_def describes_spike_def Let_def intro: Suc_lessD)
  qed
  ultimately show ?thesis
    using go ap unfolding run t event_types_def appends_alerts_def
    by (intro exI [of _ w'] exI [of _ new]) simp
qed

definition demo_analytics :: analytics_service where
  "demo_analytics = NewAnalyticsService (\<lambda>s. ''#'' @ s) (\<lambda>u. replicate u (CHR ''i'')) ''salt''"

definition busy_hour :: "analytics_event list" where
  "busy_hour = demo_event\<lparr>e_CreatedAt := 5 * hour\<rparr> # [demo_event, demo_event, demo_event, demo_event]"

theorem alerts_are_the_spikes_witness:
  "\<exists>w' a. AnalyticsService_RunAnomalyDetection demo_analytics (event_world busy_hour (11 * hour)) = (Inr (), w') \<and>
     anomaly_alerts (store w') = [a] \<and> al_EventType a = ''view'' \<and> al_Observed a = 4 \<and> al_Baseline a = 1 \<and> al_Ratio a = 4"
proof -
  let ?w = "event_world busy_hour (11 * hour)"
  have w: "calm ?w" "anomaly_alerts (store ?w) = []" "analytics_events (store ?w) = busy_hour"
    "clock ?w (readings ?w) = 11 * hour" "fresh_uuids ?w {}"
    by (simp_all add: event_world_def empty_db_def demo_world_def calm_def fresh_uuids_def inj_on_def)
  have t: "last_full_hour (11 * hour) = 10 * hour"
    by (simp add: last_full_hour_def)
  have spikes: "filter (is_spike (10 * hour) busy_hour) [''view'', ''favorite'', ''comment'', ''download''] = [''view'']"
    by (simp add: is_spike_def Let_def events_between_def hours_with_events_def busy_hour_def demo_event_def)
  obtain w' new where run: "AnalyticsService_RunAnomalyDetection demo_analytics ?w = (Inr (), w')"
    "anomaly_alerts (store w') = new" and types: "map al_EventType new = [''view'']"
    and texts: "\<forall>a \<in> set new. describes_spike (10 * hour) busy_hour a"
    using alerts_are_the_spikes [of ?w "\<lambda>s. ''#'' @ s" "\<lambda>u. replicate u (CHR ''i'')" "''salt''"] w
    unfolding w(4) t w(3) spikes by (auto simp: demo_analytics_def)
  then obtain a where "new = [a]" "al_EventType a = ''view''" by (cases new) auto
  then show ?thesis
    using run texts
    by (simp add: describes_spike_def Let_def events_between_def hours_with_events_def busy_hour_def demo_event_def)
qed

text \<open>
  The look-back of a report is a signed 64-bit product: from 106752 days on it wraps around and lies in
  the future, so the report is empty.
\<close>

lemma days_back_eq: "days_back n = signed_take_bit 63 (- n * (24 * hour))"
proof -
  have "- word_of_int n * 24 * word_of_int hour = (word_of_int (- n * (24 * hour)) :: 64 word)"
    by simp
  then show ?thesis
    unfolding days_back_def by (simp only: sint_sbintrunc') simp
qed

lemma days_back_exact: "0 \<le> n \<Longrightarrow> n \<le> 106751 \<Longrightarrow> days_back n = - n * (24 * hour)"
  unfolding days_back_eq by (intro signed_take_bit_int_eq_self) auto

lemma days_back_wraps: "0 < days_back 106752"
  unfolding days_back_eq signed_take_bit_eq_take_bit_shift by (simp add: take_bit_eq_mod)

end
