(* ===== verification/Csv.thy ===== *)
theory Csv
  imports Prelude "HOL-Library.Code_Target_Numeral"
begin

text \<open>
  What \<open>service/governance.go\<close> uses of Go's standard library on text: the reader and the writer of
  \<open>encoding/csv\<close> (comma separated, strict quotes, \<open>TrimLeadingSpace\<close> on, \<open>FieldsPerRecord\<close> 0),
  \<open>strconv.Atoi\<close>, and \<open>time.Parse\<close> for the layouts RFC 3339 (with and without fraction) and
  \<open>2006-01-02\<close>.

  Strings are byte lists. A comma, a quote and the line ends are below 128, hence never part of a longer
  UTF-8 encoding, so splitting at bytes is splitting at runes.
\<close>

section \<open>The CSV reader\<close>

text \<open>
  \<open>readLine\<close>: lines keep their \<open>'\n'\<close>; \<open>"\r\n"\<close> becomes \<open>"\n"\<close>, and a last line without a line end
  loses a trailing \<open>'\r'\<close>.
\<close>

abbreviation (input) NL :: char where "NL \<equiv> CHR 0x0A"
abbreviation (input) CR :: char where "CR \<equiv> CHR 0x0D"
abbreviation (input) DQ :: char where "DQ \<equiv> CHR 0x22"

definition end_line :: "string \<Rightarrow> string" where
  "end_line l = (if l \<noteq> [] \<and> last l = CR then butlast l @ [NL] else l @ [NL])"

definition last_line :: "string \<Rightarrow> string" where
  "last_line l = (if l \<noteq> [] \<and> last l = CR then butlast l else l)"

fun csv_lines :: "string \<Rightarrow> string \<Rightarrow> string list" where
  "csv_lines cur [] = (if cur = [] then [] else [last_line (rev cur)])"
| "csv_lines cur (c # cs) = (if c = NL then end_line (rev cur) # csv_lines [] cs else csv_lines (c # cur) cs)"

definition trim_left :: "string \<Rightarrow> string" where
  "trim_left s = map char_of (concat (dropWhile white_slice (rune_slices (map of_char s))))"

definition without_NL :: "string \<Rightarrow> string" where
  "without_NL l = (if l \<noteq> [] \<and> last l = NL then butlast l else l)"

lemma concat_rune_slices: "concat (rune_slices bs) = bs"
proof (induction bs rule: rune_slices.induct)
  case (2 b bs)
  then show ?case by simp
qed simp

lemma length_trim_left: "length (trim_left s) \<le> length s"
proof -
  have "length (concat (dropWhile p xs)) \<le> length (concat xs)" for p and xs :: "nat list list"
    by (induction xs) auto
  from this [of white_slice "rune_slices (map of_char s)"] show ?thesis
    by (simp add: trim_left_def concat_rune_slices)
qed

text \<open>
  \<open>readRecord\<close>. The mode is \<open>None\<close> at the start of a field and the text so far inside a quoted one. A
  step looks at the rest of the line: it goes on in the line with a mode and the fields read, asks for
  the next line (inside quotes), ends the record, or reports a misplaced quote.
\<close>

datatype csv_scan = Scan "string option" string "string list" | NextLine string | EndRecord "string list" | QuoteError

definition at_field :: "string \<Rightarrow> string list \<Rightarrow> csv_scan" where
  "at_field line got =
     (let l = trim_left line;
          field = takeWhile (\<lambda>c. c \<noteq> CHR '','') l;
          rest = dropWhile (\<lambda>c. c \<noteq> CHR '','') l
      in if l \<noteq> [] \<and> hd l = DQ then Scan (Some []) (tl l) got
         else if DQ \<in> set field then QuoteError
         else if rest = [] then EndRecord (got @ [without_NL field])
         else Scan None (tl rest) (got @ [field]))"

definition in_quotes :: "string \<Rightarrow> string \<Rightarrow> string list \<Rightarrow> csv_scan" where
  "in_quotes buf line got =
     (let part = takeWhile (\<lambda>c. c \<noteq> DQ) line; rest = dropWhile (\<lambda>c. c \<noteq> DQ) line; l = tl rest
      in if rest = [] then (if line = [] then QuoteError else NextLine (buf @ line))
         else if l = [] then EndRecord (got @ [buf @ part])
         else if hd l = DQ then Scan (Some (buf @ part @ [DQ])) (tl l) got
         else if hd l = CHR '','' then Scan None (tl l) (got @ [buf @ part])
         else if l = [NL] then EndRecord (got @ [buf @ part])
         else QuoteError)"

definition csv_step :: "string option \<Rightarrow> string \<Rightarrow> string list \<Rightarrow> csv_scan" where
  "csv_step q line got = (case q of None \<Rightarrow> at_field line got | Some buf \<Rightarrow> in_quotes buf line got)"

lemma tl_dropWhile_less: "dropWhile p xs \<noteq> [] \<Longrightarrow> length (tl (dropWhile p xs)) < length xs"
  using length_dropWhile_le [of p xs] by (cases "dropWhile p xs") auto

lemma csv_step_Scan:
  assumes "csv_step q line got = Scan q' l' got'"
  shows "length l' < length line"
proof (cases q)
  case None
  let ?l = "trim_left line"
  have "length (tl ?l) < length line" if "?l \<noteq> []"
    using that length_trim_left [of line] by (cases ?l) auto
  moreover have "length (tl (dropWhile p ?l)) < length line" if "dropWhile p ?l \<noteq> []" for p
    using tl_dropWhile_less [OF that] length_trim_left [of line] by simp
  ultimately show ?thesis
    using assms None by (auto simp: csv_step_def at_field_def Let_def split: if_splits)
next
  case (Some buf)
  let ?r = "dropWhile (\<lambda>c. c \<noteq> DQ) line"
  have "length (tl (tl ?r)) < length line" if "?r \<noteq> []"
    using tl_dropWhile_less [OF that] by simp
  then show ?thesis
    using assms Some by (auto simp: csv_step_def in_quotes_def Let_def split: if_splits)
qed

lemma csv_step_NextLine: "csv_step q line got = NextLine buf \<Longrightarrow> line \<noteq> []"
  by (auto simp: csv_step_def at_field_def in_quotes_def Let_def split: option.splits if_splits)

function csv_record :: "string option \<Rightarrow> string \<Rightarrow> string list \<Rightarrow> string list \<Rightarrow> (string list \<times> string list) option" where
  "csv_record q line more got =
     (case csv_step q line got of
        Scan q' l got' \<Rightarrow> csv_record q' l more got'
      | NextLine buf \<Rightarrow> (case more of
            [] \<Rightarrow> csv_record (Some buf) [] [] got
          | m # ms \<Rightarrow> csv_record (Some buf) m ms got)
      | EndRecord fs \<Rightarrow> Some (fs, more)
      | QuoteError \<Rightarrow> None)"
  by pat_completeness auto
termination
  by (relation "measure (\<lambda>(_, line, more, _). length line + sum_list (map length more))")
    (auto dest: csv_step_Scan csv_step_NextLine)

declare csv_record.simps [simp del]

lemma csv_record_left: "csv_record q line more got = Some (fs, left) \<Longrightarrow> length left \<le> length more"
proof (induction q line more got rule: csv_record.induct)
  case (1 q line more got)
  then show ?case
    by (subst (asm) (4) csv_record.simps) (force split: csv_scan.splits list.splits)
qed

text \<open>\<open>ReadAll\<close>: empty lines are skipped, and every record has as many fields as the first one.\<close>

function csv_records :: "nat \<Rightarrow> string list \<Rightarrow> string list list option" where
  "csv_records n [] = Some []"
| "csv_records n (l # ls) =
     (if l = [] \<or> l = [NL] then csv_records n ls
      else case csv_record None l ls [] of
             None \<Rightarrow> None
           | Some (fs, left) \<Rightarrow>
               if n \<noteq> 0 \<and> length fs \<noteq> n then None
               else map_option (Cons fs) (csv_records (if n = 0 then length fs else n) left))"
  by pat_completeness auto
termination
  by (relation "measure (\<lambda>(_, ls). length ls)") (auto dest: csv_record_left simp: le_imp_less_Suc)

definition csv_read :: "string \<Rightarrow> string list list option" where
  "csv_read s = csv_records 0 (csv_lines [] s)"

section \<open>The CSV writer\<close>

definition field_needs_quotes :: "string \<Rightarrow> bool" where
  "field_needs_quotes f \<longleftrightarrow>
     f \<noteq> [] \<and> (f = [CHR 0x5C, CHR ''.''] \<or> list_ex (\<lambda>c. c \<in> {NL, CR, DQ, CHR '',''}) f \<or>
               white_space (fst (decode_rune (map of_char f))))"

definition csv_field :: "string \<Rightarrow> string" where
  "csv_field f =
     (if field_needs_quotes f then [DQ] @ concat (map (\<lambda>c. if c = DQ then [DQ, DQ] else [c]) f) @ [DQ] else f)"

fun csv_row :: "string list \<Rightarrow> string" where
  "csv_row [] = [NL]"
| "csv_row [f] = csv_field f @ [NL]"
| "csv_row (f # fs) = csv_field f @ [CHR '',''] @ csv_row fs"

section \<open>Numbers and dates\<close>

definition is_digit_char :: "char \<Rightarrow> bool" where
  "is_digit_char c \<longleftrightarrow> 48 \<le> (of_char c :: nat) \<and> of_char c \<le> (57::nat)"

definition digit_value :: "char \<Rightarrow> int" where
  "digit_value c = of_char c - 48"

definition digits_value :: "string \<Rightarrow> int" where
  "digits_value s = foldl (\<lambda>n c. 10 * n + digit_value c) 0 s"

text \<open>\<open>strconv.Atoi\<close> for 64-bit integers: an optional sign, then one or more digits, in range.\<close>

definition go_atoi :: "string \<Rightarrow> int option" where
  "go_atoi s =
     (let sign = (if s \<noteq> [] \<and> hd s = CHR ''-'' then -1 else 1);
          ds = (if s \<noteq> [] \<and> (hd s = CHR ''-'' \<or> hd s = CHR ''+'') then tl s else s);
          n = sign * digits_value ds
      in if ds \<noteq> [] \<and> list_all is_digit_char ds \<and> - (2 ^ 63) \<le> n \<and> n < 2 ^ 63 then Some n else None)"

text \<open>
  The steps of \<open>time.Parse\<close>: each takes the value and returns a number and the rest. The year takes four
  digits; month, minute, second and the day of \<open>02\<close> are read by \<open>getnum\<close> with two digits, the
  hour of \<open>15\<close> with one or two (\<open>fixed\<close> is false there).
\<close>

definition take_year :: "string \<Rightarrow> (int \<times> string) option" where
  "take_year s = (if 4 \<le> length s \<and> list_all is_digit_char (take 4 s) then Some (digits_value (take 4 s), drop 4 s) else None)"

definition getnum :: "bool \<Rightarrow> string \<Rightarrow> (int \<times> string) option" where
  "getnum fixed s =
     (case s of
        [] \<Rightarrow> None
      | c # cs \<Rightarrow>
          if \<not> is_digit_char c then None
          else case cs of
                 d # ds \<Rightarrow> if is_digit_char d then Some (10 * digit_value c + digit_value d, ds)
                           else if fixed then None else Some (digit_value c, cs)
               | [] \<Rightarrow> if fixed then None else Some (digit_value c, []))"

definition skip_char :: "char \<Rightarrow> string \<Rightarrow> string option" where
  "skip_char c s = (if s \<noteq> [] \<and> hd s = c then Some (tl s) else None)"

definition days_in :: "int \<Rightarrow> int \<Rightarrow> int" where
  "days_in m y =
     (if m = 2 then (if y mod 4 = 0 \<and> (y mod 100 \<noteq> 0 \<or> y mod 400 = 0) then 29 else 28)
      else if m \<in> {4, 6, 9, 11} then 30 else 31)"

text \<open>\<open>strconv.Atoi\<close> with its error ignored: 0 for what is no number, the nearest 64-bit integer otherwise.\<close>

definition atoi_value :: "string \<Rightarrow> int" where
  "atoi_value s =
     (let sign = (if s \<noteq> [] \<and> hd s = CHR ''-'' then -1 else 1);
          ds = (if s \<noteq> [] \<and> (hd s = CHR ''-'' \<or> hd s = CHR ''+'') then tl s else s)
      in if ds = [] \<or> \<not> list_all is_digit_char ds then 0
         else max (- (2 ^ 63)) (min (2 ^ 63 - 1) (sign * digits_value ds)))"

text \<open>
  \<open>2006-01-02\<close>: year, month and day, and the rest. The month is checked at once, the day against its
  month at the end of the parse.
\<close>

definition take_date :: "string \<Rightarrow> ((int \<times> int \<times> int) \<times> string) option" where
  "take_date s =
     Option.bind (take_year s) (\<lambda>(y, s).
     Option.bind (skip_char (CHR ''-'') s) (\<lambda>s.
     Option.bind (getnum True s) (\<lambda>(m, s).
     if m < 1 \<or> 12 < m then None else
     Option.bind (skip_char (CHR ''-'') s) (\<lambda>s.
     Option.bind (getnum True s) (\<lambda>(d, s). Some ((y, m, d), s))))))"

definition date_exists :: "int \<times> int \<times> int \<Rightarrow> bool" where
  "date_exists ymd = (case ymd of (y, m, d) \<Rightarrow> 1 \<le> d \<and> d \<le> days_in m y)"

definition days_of_civil :: "int \<times> int \<times> int \<Rightarrow> int" where
  "days_of_civil ymd =
     (case ymd of (y, m, d) \<Rightarrow>
        let y' = (if m \<le> 2 then y - 1 else y);
            doy = (153 * ((m + 9) mod 12) + 2) div 5 + d - 1;
            yoe = y' mod 400
        in y' div 400 * 146097 + (yoe * 365 + yoe div 4 - yoe div 100 + doy) - 719468)"

definition midnight :: "int \<times> int \<times> int \<Rightarrow> time" where
  "midnight ymd = days_of_civil ymd * (24 * hour)"

definition parse_date :: "string \<Rightarrow> time option" where
  "parse_date s =
     Option.bind (take_date s) (\<lambda>(ymd, rest). if date_exists ymd \<and> rest = [] then Some (midnight ymd) else None)"

text \<open>
  \<open>T15:04\<close>, then \<open>:05\<close> and the fraction of a second, which both RFC 3339 layouts take with any number of
  digits (nine count), then the zone \<open>Z07:00\<close>, whose hours may be 24 and whose minutes 60.
\<close>

definition take_hm :: "string \<Rightarrow> (duration \<times> string) option" where
  "take_hm s =
     Option.bind (skip_char (CHR ''T'') s) (\<lambda>s.
     Option.bind (getnum False s) (\<lambda>(h, s).
     if 24 \<le> h then None else
     Option.bind (skip_char (CHR '':'') s) (\<lambda>s.
     Option.bind (getnum True s) (\<lambda>(m, s).
     if 60 \<le> m then None else Some (h * hour + m * minute, s)))))"

definition take_seconds :: "string \<Rightarrow> (duration \<times> string) option" where
  "take_seconds s =
     Option.bind (skip_char (CHR '':'') s) (\<lambda>s.
     Option.bind (getnum True s) (\<lambda>(sec, s). if 60 \<le> sec then None else Some (sec * second, s)))"

definition take_fraction :: "string \<Rightarrow> duration \<times> string" where
  "take_fraction s =
     (case s of
        c # d # ds \<Rightarrow>
          if (c = CHR ''.'' \<or> c = CHR '','') \<and> is_digit_char d
          then let ds' = takeWhile is_digit_char (d # ds)
               in (digits_value (take 9 (ds' @ replicate 9 (CHR ''0''))), dropWhile is_digit_char (d # ds))
          else (0, s)
      | _ \<Rightarrow> (0, s))"

definition zone_offset :: "string \<Rightarrow> duration option" where
  "zone_offset s =
     (if s = ''Z'' then Some 0
      else if length s = 6 \<and> (s ! 0 = CHR ''+'' \<or> s ! 0 = CHR ''-'') \<and> s ! 3 = CHR '':'' \<and>
              list_all is_digit_char [s ! 1, s ! 2, s ! 4, s ! 5] \<and>
              digits_value [s ! 1, s ! 2] \<le> 24 \<and> digits_value [s ! 4, s ! 5] \<le> 60
      then Some ((if s ! 0 = CHR ''-'' then -1 else 1) *
                 (digits_value [s ! 1, s ! 2] * hour + digits_value [s ! 4, s ! 5] * minute))
      else None)"

definition parse_RFC3339 :: "string \<Rightarrow> time option" where
  "parse_RFC3339 s =
     Option.bind (take_date s) (\<lambda>(ymd, s).
     Option.bind (take_hm s) (\<lambda>(hm, s).
     Option.bind (take_seconds s) (\<lambda>(sec, s).
     case take_fraction s of (frac, s) \<Rightarrow>
     Option.bind (zone_offset s) (\<lambda>off.
     if date_exists ymd then Some (midnight ymd + hm + sec + frac - off) else None))))"

text \<open>The layout \<open>2006-01-02T15:04\<close> of HTML date inputs, in UTC.\<close>

definition parse_minutes :: "string \<Rightarrow> time option" where
  "parse_minutes s =
     Option.bind (take_date s) (\<lambda>(ymd, s).
     Option.bind (take_hm s) (\<lambda>(hm, s).
     if date_exists ymd \<and> s = [] then Some (midnight ymd + hm) else None))"

definition parses_date :: "string \<Rightarrow> bool" where
  "parses_date s \<longleftrightarrow> parse_date s \<noteq> None"

definition parses_RFC3339 :: "string \<Rightarrow> bool" where
  "parses_RFC3339 s \<longleftrightarrow> parse_RFC3339 s \<noteq> None"

lemma dates_read:
  "parse_date ''2024-02-29'' = Some (19782 * 24 * hour)" "parse_date ''2023-02-29'' = None" "parse_date ''4/8/2026'' = None"
  "parse_RFC3339 ''1970-01-01T13:05:00Z'' = Some (785 * minute)"
  "parse_RFC3339 ''1970-01-02T1:05:00.25+02:00'' = Some (23 * hour + 5 * minute + 250000000)"
  "parse_RFC3339 ''2026-04-08T13:05:00'' = None" "parse_RFC3339 ''2026-04-08 13:05:00Z'' = None"
  "parse_minutes ''1970-01-01T08:30'' = Some (510 * minute)"
  by code_simp+

end
