(* ===== verification/Governance.thy ===== *)
theory Governance
  imports Analytics Csv
begin

text \<open>
  Data dictionary, tags, consent, account deletion and the CSV import and export of resources:
  \<open>repository/governance.go\<close> and \<open>service/governance.go\<close>. The Unicode tables behind \<open>strings.ToLower\<close>
  and \<open>strconv.IsPrint\<close> and the collation of the database are fields of the service record.
\<close>

record governance_service =
  gs_analytics :: analytics_service
  gs_lower :: "string \<Rightarrow> string"
  gs_is_print :: "rune \<Rightarrow> bool"
  gs_collate :: "string \<Rightarrow> int"
  gs_uuid_text :: "uuid \<Rightarrow> string"

section \<open>The repository\<close>

definition governance_ListDictionary :: "(string \<Rightarrow> int) \<Rightarrow> data_dictionary_entry list action" where
  "governance_ListDictionary collate = query (\<lambda>d.
     Inr (order_asc (\<lambda>e. collate (dd_Entity e)) (order_asc (\<lambda>e. collate (dd_Field e)) (data_dictionary d))))"

definition governance_UpsertDictionary :: "data_dictionary_entry \<Rightarrow> data_dictionary_entry action" where
  "governance_UpsertDictionary e =
     bindE (if dd_ID e = uuid_nil then new_uuid else ret (dd_ID e)) (\<lambda>i.
     let e' = e\<lparr>dd_ID := i\<rparr>; same = (\<lambda>x. dd_Entity x = dd_Entity e \<and> dd_Field x = dd_Field e) in
     bindE (sql (\<lambda>_ d.
       if matches same (data_dictionary d) \<noteq> 0
       then Inr ((), d\<lparr>data_dictionary := update_where same
              (\<lambda>x. x\<lparr>dd_DataType := dd_DataType e, dd_Description := dd_Description e,
                     dd_Sensitive := dd_Sensitive e, dd_Tags := dd_Tags e\<rparr>) (data_dictionary d)\<rparr>)
       else if fresh_key dd_ID (data_dictionary d) i
       then Inr ((), d\<lparr>data_dictionary := data_dictionary d @ [e']\<rparr>) else Inl DBError)) (\<lambda>_.
     ret e'))"

definition governance_CreateTag :: "tag \<Rightarrow> tag action" where
  "governance_CreateTag t =
     bindE (if tag_ID t = uuid_nil then new_uuid else ret (tag_ID t)) (\<lambda>i.
     let t' = t\<lparr>tag_ID := i\<rparr> in
     bindE (sql (\<lambda>_ d.
       if \<not> fresh_key tag_Name (tags d) (tag_Name t) then Inr ((), d)
       else if fresh_key tag_ID (tags d) i then Inr ((), d\<lparr>tags := tags d @ [t']\<rparr>) else Inl DBError)) (\<lambda>_.
     ret t'))"

definition governance_ListTags :: "(string \<Rightarrow> int) \<Rightarrow> tag list action" where
  "governance_ListTags collate = query (\<lambda>d. Inr (order_asc (\<lambda>t. collate (tag_Name t)) (tags d)))"

definition governance_Tag :: "uuid \<Rightarrow> string \<Rightarrow> uuid \<Rightarrow> unit action" where
  "governance_Tag tagID targetType targetID =
     bindE new_uuid (\<lambda>i.
     let g = \<lparr>tg_ID = i, tg_TagID = tagID, tg_TargetType = targetType, tg_TargetID = targetID\<rparr> in
     sql (\<lambda>_ d.
       if matches (\<lambda>x. tg_TagID x = tagID \<and> tg_TargetType x = targetType \<and> tg_TargetID x = targetID) (taggings d) \<noteq> 0
       then Inr ((), d)
       else if tagging_insertable d g then Inr ((), d\<lparr>taggings := taggings d @ [g]\<rparr>) else Inl DBError))"

definition governance_ListTaggings :: "(string \<Rightarrow> int) \<Rightarrow> string \<Rightarrow> uuid \<Rightarrow> tag list action" where
  "governance_ListTaggings collate targetType targetID = query (\<lambda>d. Inr (order_asc (\<lambda>t. collate (tag_Name t))
     (concat (map (\<lambda>t. map (\<lambda>_. t) (filter (\<lambda>g. tg_TagID g = tag_ID t \<and> tg_TargetType g = targetType \<and>
        tg_TargetID g = targetID) (taggings d))) (tags d)))))"

definition governance_UpsertConsent :: "consent_record \<Rightarrow> consent_record action" where
  "governance_UpsertConsent c =
     bindE (if cr_ID c = uuid_nil then new_uuid else ret (cr_ID c)) (\<lambda>i.
     bindE (if cr_CreatedAt c = zero_time then now else ret (cr_CreatedAt c)) (\<lambda>t.
     let c' = c\<lparr>cr_ID := i, cr_CreatedAt := t\<rparr> in
     bindE (sql (\<lambda>_ d. if consent_insertable d c'
       then Inr ((), d\<lparr>consent_records := consent_records d @ [c']\<rparr>) else Inl DBError)) (\<lambda>_.
     ret c')))"

definition governance_ListConsent :: "uuid \<Rightarrow> consent_record list action" where
  "governance_ListConsent u =
     query (\<lambda>d. Inr (order_desc cr_CreatedAt (filter (\<lambda>c. cr_UserID c = u) (consent_records d))))"

definition governance_CreateDeletionRequest :: "deletion_request \<Rightarrow> deletion_request action" where
  "governance_CreateDeletionRequest q =
     bindE (if dr_ID q = uuid_nil then new_uuid else ret (dr_ID q)) (\<lambda>i.
     bindE (if dr_RequestedAt q = zero_time then now else ret (dr_RequestedAt q)) (\<lambda>t.
     let q' = q\<lparr>dr_ID := i, dr_RequestedAt := t, dr_Status := (if dr_Status q = [] then ''pending'' else dr_Status q)\<rparr> in
     bindE (sql (\<lambda>_ d. if deletion_insertable d q'
       then Inr ((), d\<lparr>deletion_requests := deletion_requests d @ [q']\<rparr>) else Inl DBError)) (\<lambda>_.
     ret q')))"

definition pending_for :: "uuid \<Rightarrow> deletion_request \<Rightarrow> bool" where
  "pending_for u q \<longleftrightarrow> dr_UserID q = u \<and> dr_Status q = ''pending''"

definition governance_GetDeletionRequest :: "uuid \<Rightarrow> deletion_request action" where
  "governance_GetDeletionRequest u = query (\<lambda>d.
     case order_desc dr_RequestedAt (filter (pending_for u) (deletion_requests d)) of
       [] \<Rightarrow> Inl ErrNotFound | q # _ \<Rightarrow> Inr q)"

definition due_pending :: "time \<Rightarrow> deletion_request \<Rightarrow> bool" where
  "due_pending t q \<longleftrightarrow> dr_Status q = ''pending'' \<and> dr_ProcessAfter q \<le> t"

definition governance_ListDuePending :: "time \<Rightarrow> deletion_request list action" where
  "governance_ListDuePending t = query (\<lambda>d. Inr (filter (due_pending t) (deletion_requests d)))"

definition governance_MarkDeletionComplete :: "uuid \<Rightarrow> time \<Rightarrow> unit action" where
  "governance_MarkDeletionComplete i t = sql (\<lambda>_ d. Inr ((), d\<lparr>deletion_requests :=
     update_where (\<lambda>q. dr_ID q = i) (\<lambda>q. q\<lparr>dr_Status := ''completed'', dr_CompletedAt := Some t\<rparr>) (deletion_requests d)\<rparr>))"

definition governance_CancelDeletion :: "uuid \<Rightarrow> unit action" where
  "governance_CancelDeletion u = sql (\<lambda>_ d. Inr ((), d\<lparr>deletion_requests :=
     update_where (pending_for u) (\<lambda>q. q\<lparr>dr_Status := ''canceled''\<rparr>) (deletion_requests d)\<rparr>))"

section \<open>Dictionary, tags, consent\<close>

definition GovernanceService_Dictionary :: "governance_service \<Rightarrow> data_dictionary_entry list action" where
  "GovernanceService_Dictionary s = governance_ListDictionary (gs_collate s)"

definition GovernanceService_UpsertDictionaryEntry :: "data_dictionary_entry \<Rightarrow> data_dictionary_entry action" where
  "GovernanceService_UpsertDictionaryEntry e =
     (if dd_Entity e = [] \<or> dd_Field e = [] then fail ErrInvalidInput else governance_UpsertDictionary e)"

definition GovernanceService_Tags :: "governance_service \<Rightarrow> tag list action" where
  "GovernanceService_Tags s = governance_ListTags (gs_collate s)"

definition GovernanceService_CreateTag :: "string \<Rightarrow> string \<Rightarrow> tag action" where
  "GovernanceService_CreateTag name description =
     governance_CreateTag \<lparr>tag_ID = uuid_nil, tag_Name = name, tag_Description = description\<rparr>"

definition GovernanceService_Tag :: "uuid \<Rightarrow> string \<Rightarrow> uuid \<Rightarrow> unit action" where
  "GovernanceService_Tag tagID targetType targetID = governance_Tag tagID targetType targetID"

definition GovernanceService_Taggings :: "governance_service \<Rightarrow> string \<Rightarrow> uuid \<Rightarrow> tag list action" where
  "GovernanceService_Taggings s targetType targetID = governance_ListTaggings (gs_collate s) targetType targetID"

definition GovernanceService_GrantConsent :: "uuid \<Rightarrow> string \<Rightarrow> string \<Rightarrow> consent_record action" where
  "GovernanceService_GrantConsent u scope version =
     bindE now (\<lambda>t. governance_UpsertConsent
       \<lparr>cr_ID = uuid_nil, cr_UserID = u, cr_Scope = scope, cr_Granted = True, cr_Version = version,
        cr_GrantedAt = Some t, cr_WithdrawnAt = None, cr_CreatedAt = zero_time\<rparr>)"

definition GovernanceService_WithdrawConsent :: "uuid \<Rightarrow> string \<Rightarrow> string \<Rightarrow> consent_record action" where
  "GovernanceService_WithdrawConsent u scope version =
     bindE now (\<lambda>t. governance_UpsertConsent
       \<lparr>cr_ID = uuid_nil, cr_UserID = u, cr_Scope = scope, cr_Granted = False, cr_Version = version,
        cr_GrantedAt = None, cr_WithdrawnAt = Some t, cr_CreatedAt = zero_time\<rparr>)"

definition GovernanceService_ConsentHistory :: "uuid \<Rightarrow> consent_record list action" where
  "GovernanceService_ConsentHistory u = governance_ListConsent u"

section \<open>Account deletion\<close>

definition DeletionDelay :: duration where
  "DeletionDelay = 7 * 24 * hour"

definition GovernanceService_RequestDeletion :: "uuid \<Rightarrow> deletion_request action" where
  "GovernanceService_RequestDeletion u =
     bindE now (\<lambda>t1. bindE now (\<lambda>t2.
     governance_CreateDeletionRequest \<lparr>dr_ID = uuid_nil, dr_UserID = u, dr_RequestedAt = t1,
       dr_ProcessAfter = t2 + DeletionDelay, dr_Status = ''pending'', dr_CompletedAt = None\<rparr>))"

definition GovernanceService_CancelDeletion :: "uuid \<Rightarrow> unit action" where
  "GovernanceService_CancelDeletion u = governance_CancelDeletion u"

definition GovernanceService_PendingDeletion :: "uuid \<Rightarrow> deletion_request action" where
  "GovernanceService_PendingDeletion u = governance_GetDeletionRequest u"

definition hardDeleteOne :: "governance_service \<Rightarrow> deletion_request \<Rightarrow> unit action" where
  "hardDeleteOne s q =
     bindE (AnalyticsService_AnonymiseUserEvents (gs_analytics s) (dr_UserID q)) (\<lambda>_.
     users_HardDelete (dr_UserID q))"

definition GovernanceService_RunDeletionExecutor :: "governance_service \<Rightarrow> unit action" where
  "GovernanceService_RunDeletionExecutor s =
     bindE now (\<lambda>t. bindE (governance_ListDuePending t) (for_each (hardDeleteOne s)))"

section \<open>CSV import\<close>

record csv_validation_error =
  ve_Row :: nat
  ve_Field :: string
  ve_Reason :: string

record parsed_resource_row =
  pr_Name :: string
  pr_Description :: string
  pr_Capacity :: int

definition has_suffix :: "string \<Rightarrow> string \<Rightarrow> bool" where
  "has_suffix s suf \<longleftrightarrow> length suf \<le> length s \<and> drop (length s - length suf) s = suf"

definition has_prefix :: "string \<Rightarrow> string \<Rightarrow> bool" where
  "has_prefix s pre \<longleftrightarrow> take (length pre) s = pre"

definition isDateLikeColumn :: "(string \<Rightarrow> string) \<Rightarrow> string \<Rightarrow> bool" where
  "isDateLikeColumn to_lower name =
     (let n = to_lower (trim_space name)
      in n \<noteq> [] \<and> (n = ''date'' \<or> has_suffix n ''_at'' \<or> has_suffix n ''_date'' \<or> has_suffix n ''_time'' \<or>
                     has_prefix n ''date_''))"

text \<open>The empty reason means that the value is fine.\<close>

definition validateDateField :: "(rune \<Rightarrow> bool) \<Rightarrow> string \<Rightarrow> string" where
  "validateDateField is_print val =
     (let v = trim_space val
      in if v = [] then ''required (RFC3339 or YYYY-MM-DD)''
         else if parses_RFC3339 v \<or> parses_date v then []
         else ''must be RFC3339 or YYYY-MM-DD; got '' @ go_quote is_print v)"

text \<open>
  The columns of the header: later columns with the same name win. Ranging over the Go map visits the
  date columns in an arbitrary order, here that of the header; it only orders the errors of a row.
\<close>

definition col_names :: "(string \<Rightarrow> string) \<Rightarrow> string list \<Rightarrow> string list" where
  "col_names to_lower header = map (\<lambda>h. to_lower (trim_space h)) header"

definition col_idx :: "string list \<Rightarrow> string \<rightharpoonup> nat" where
  "col_idx names c = (if c \<in> set names then Some (last (filter (\<lambda>i. names ! i = c) [0..<length names])) else None)"

definition date_cols :: "(string \<Rightarrow> string) \<Rightarrow> string list \<Rightarrow> (string \<times> nat) list" where
  "date_cols to_lower names =
     map (\<lambda>c. (c, the (col_idx names c))) (remdups (filter (isDateLikeColumn to_lower) names))"

definition cell :: "string list \<Rightarrow> string list \<Rightarrow> string \<Rightarrow> string" where
  "cell names row c = trim_space (row ! the (col_idx names c))"

definition date_errors :: "governance_service \<Rightarrow> string list \<Rightarrow> nat \<Rightarrow> string list \<Rightarrow> csv_validation_error list" where
  "date_errors s names i row =
     concat (map (\<lambda>(h, idx). let reason = validateDateField (gs_is_print s) (row ! idx)
                             in if reason = [] then [] else [\<lparr>ve_Row = i, ve_Field = h, ve_Reason = reason\<rparr>])
       (date_cols (gs_lower s) names))"

text \<open>
  The loop over the rows: \<open>i\<close> is the number of the row in the file, \<open>seen\<close> the lower-cased names so far;
  the results are the errors and the rows that passed.
\<close>

fun check_rows :: "governance_service \<Rightarrow> string list \<Rightarrow> nat \<Rightarrow> string list \<Rightarrow> string list list \<Rightarrow>
    csv_validation_error list \<times> parsed_resource_row list" where
  "check_rows s names i seen [] = ([], [])"
| "check_rows s names i seen (row # rows) =
     (let name = cell names row ''name'';
          desc = cell names row ''description'';
          cap = go_atoi (cell names row ''capacity'');
          err = (\<lambda>f r. case check_rows s names (Suc i) seen rows of (es, ps) \<Rightarrow>
                   (\<lparr>ve_Row = i, ve_Field = f, ve_Reason = r\<rparr> # es, ps));
          seen' = gs_lower s name # seen
      in if length row < length names then err ''*'' ''short row''
         else if name = [] then err ''name'' ''required''
         else if gs_lower s name \<in> set seen then err ''name'' ''duplicate within file''
         else case check_rows s names (Suc i) seen' rows of (es, ps) \<Rightarrow>
           if cap = None \<or> the cap \<le> 0
           then (\<lparr>ve_Row = i, ve_Field = ''capacity'', ve_Reason = ''must be a positive integer''\<rparr> # es, ps)
           else if date_errors s names i row \<noteq> [] then (date_errors s names i row @ es, ps)
           else (es, \<lparr>pr_Name = name, pr_Description = desc, pr_Capacity = the cap\<rparr> # ps))"

text \<open>\<open>Inl\<close> is a fatal error; else the pair of rows and errors, one of them empty.\<close>

definition ValidateResourcesCSV ::
    "governance_service \<Rightarrow> string \<Rightarrow> go_error + parsed_resource_row list \<times> csv_validation_error list" where
  "ValidateResourcesCSV s body =
     (case csv_read body of
        None \<Rightarrow> Inl OtherError
      | Some [] \<Rightarrow> Inl OtherError
      | Some (header # rows) \<Rightarrow>
          let names = col_names (gs_lower s) header
          in if \<not> {''name'', ''description'', ''capacity''} \<subseteq> set names then Inl OtherError
             else if ''effective_date'' \<notin> set names \<and> ''created_at'' \<notin> set names then Inl OtherError
             else case check_rows s names 2 [] rows of (es, ps) \<Rightarrow>
               if es \<noteq> [] then Inr ([], es) else Inr (ps, []))"

definition resource_of :: "parsed_resource_row \<Rightarrow> resource" where
  "resource_of p = \<lparr>r_ID = uuid_nil, r_Name = pr_Name p, r_Description = pr_Description p,
     r_Capacity = pr_Capacity p, r_CreatedAt = zero_time\<rparr>"

definition GovernanceService_ImportResourcesCSV ::
    "governance_service \<Rightarrow> string \<Rightarrow> (int \<times> csv_validation_error list) action" where
  "GovernanceService_ImportResourcesCSV s body =
     (case ValidateResourcesCSV s body of
        Inl e \<Rightarrow> fail e
      | Inr (ps, es) \<Rightarrow>
          if es \<noteq> [] then ret (0, es)
          else bindE (resources_InsertManyTx (map resource_of ps)) (\<lambda>n. ret (n, [])))"

text \<open>The export returns the bytes written.\<close>

definition GovernanceService_ExportResourcesCSV :: "governance_service \<Rightarrow> string action" where
  "GovernanceService_ExportResourcesCSV s =
     bindE (resources_List (gs_collate s)) (\<lambda>rs.
     ret (csv_row [''id'', ''name'', ''description'', ''capacity''] @
          concat (map (\<lambda>r. csv_row [gs_uuid_text s (r_ID r), r_Name r, r_Description r, go_decimal (r_Capacity r)]) rs)))"

section \<open>Which files are imported\<close>

definition row_fits :: "governance_service \<Rightarrow> string list \<Rightarrow> string list \<Rightarrow> bool" where
  "row_fits s names row \<longleftrightarrow> length names \<le> length row \<and> cell names row ''name'' \<noteq> [] \<and>
     (\<exists>n > 0. go_atoi (cell names row ''capacity'') = Some n) \<and>
     (\<forall>(h, idx) \<in> set (date_cols (gs_lower s) names). parses_RFC3339 (trim_space (row ! idx)) \<or> parses_date (trim_space (row ! idx)))"

definition row_key :: "governance_service \<Rightarrow> string list \<Rightarrow> string list \<Rightarrow> string" where
  "row_key s names row = gs_lower s (cell names row ''name'')"

definition parsed_row :: "string list \<Rightarrow> string list \<Rightarrow> parsed_resource_row" where
  "parsed_row names row = \<lparr>pr_Name = cell names row ''name'', pr_Description = cell names row ''description'',
     pr_Capacity = the (go_atoi (cell names row ''capacity''))\<rparr>"

lemma parses_nonempty: "\<not> parses_RFC3339 []" "\<not> parses_date []"
  by (simp_all add: parses_RFC3339_def parses_date_def parse_RFC3339_def parse_date_def take_date_def take_year_def)

lemma validateDateField_ok:
  "validateDateField pr v = [] \<longleftrightarrow> parses_RFC3339 (trim_space v) \<or> parses_date (trim_space v)"
  by (auto simp: validateDateField_def Let_def parses_nonempty)

lemma date_errors_none:
  "date_errors s names i row = [] \<longleftrightarrow> (\<forall>(h, idx) \<in> set (date_cols (gs_lower s) names).
     parses_RFC3339 (trim_space (row ! idx)) \<or> parses_date (trim_space (row ! idx)))"
  by (auto simp: date_errors_def Let_def validateDateField_ok split: if_splits prod.splits)

lemma row_fits_iff: "row_fits s names row \<longleftrightarrow> length names \<le> length row \<and> cell names row ''name'' \<noteq> [] \<and>
     (\<exists>n > 0. go_atoi (cell names row ''capacity'') = Some n) \<and> date_errors s names i row = []"
  unfolding row_fits_def date_errors_none ..

lemma check_rows_iff:
  "(fst (check_rows s names i seen rows) = [] \<longleftrightarrow>
     (\<forall>row \<in> set rows. row_fits s names row \<and> row_key s names row \<notin> set seen) \<and> distinct (map (row_key s names) rows)) \<and>
   (fst (check_rows s names i seen rows) = [] \<longrightarrow> snd (check_rows s names i seen rows) = map (parsed_row names) rows)"
proof (induction rows arbitrary: i seen)
  case (Cons row rows)
  let ?rest = "check_rows s names (Suc i) (row_key s names row # seen) rows"
  let ?ok = "row_fits s names row \<and> row_key s names row \<notin> set seen"
  have step: "check_rows s names i seen (row # rows) = (fst ?rest, parsed_row names row # snd ?rest)" if ok: ?ok
  proof -
    obtain n where "0 < n" "go_atoi (cell names row ''capacity'') = Some n"
      using ok by (auto simp: row_fits_def)
    then show ?thesis
      using ok by (simp add: row_fits_def row_key_def parsed_row_def date_errors_none Let_def split: prod.split)
  qed
  have refused: "fst (check_rows s names i seen (row # rows)) \<noteq> []" if "\<not> ?ok"
    using that
    by (auto simp: row_fits_iff [of s names row i] row_key_def Let_def not_less split: prod.splits if_splits)
  show ?case
  proof (cases ?ok)
    case True
    note IH = Cons.IH [of "Suc i" "row_key s names row # seen"]
    show ?thesis unfolding step [OF True] using IH True by (auto simp: image_iff)
  next
    case False
    then show ?thesis using refused by auto
  qed
qed simp

definition importable :: "governance_service \<Rightarrow> string list \<Rightarrow> string list list \<Rightarrow> bool" where
  "importable s names rows \<longleftrightarrow>
     {''name'', ''description'', ''capacity''} \<subseteq> set names \<and> (''effective_date'' \<in> set names \<or> ''created_at'' \<in> set names) \<and>
     (\<forall>row \<in> set rows. row_fits s names row) \<and> distinct (map (row_key s names) rows)"

lemma ValidateResourcesCSV_accepts:
  assumes "ValidateResourcesCSV s body = Inr (ps, [])"
  obtains header rows where "csv_read body = Some (header # rows)"
    and "importable s (col_names (gs_lower s) header) rows"
    and "ps = map (parsed_row (col_names (gs_lower s) header)) rows"
proof -
  from assms obtain header rows where csv: "csv_read body = Some (header # rows)"
    by (auto simp: ValidateResourcesCSV_def split: option.splits list.splits)
  let ?n = "col_names (gs_lower s) header"
  from assms csv have "{''name'', ''description'', ''capacity''} \<subseteq> set ?n"
    "''effective_date'' \<in> set ?n \<or> ''created_at'' \<in> set ?n" "check_rows s ?n 2 [] rows = ([], ps)"
    by (auto simp: ValidateResourcesCSV_def Let_def split: prod.splits if_splits)
  then show thesis
    using check_rows_iff [of s ?n 2 "[]" rows] by (intro that [OF csv]) (simp_all add: importable_def)
qed

definition same_resource :: "resource \<Rightarrow> resource \<Rightarrow> bool" where
  "same_resource r p \<longleftrightarrow> r_Name r = r_Name p \<and> r_Description r = r_Description p \<and> r_Capacity r = r_Capacity p"

lemma insert_rows_return:
  "for_each_or_return (insert_row t) rs w = (Inr u, w') \<Longrightarrow>
   \<exists>new. store w' = store w\<lparr>resources := resources (store w) @ new\<rparr> \<and> list_all2 same_resource new rs"
proof (induction rs arbitrary: w)
  case Nil
  then show ?case by (intro exI [of _ "[]"]) (simp add: returns)
next
  case (Cons r rs)
  then obtain x w1 where one: "insert_row t r w = (Inr x, w1)" and rest: "for_each_or_return (insert_row t) rs w1 = (Inr u, w')"
    by (auto simp: returns)
  from one obtain r' where st: "store w1 = store w\<lparr>resources := resources (store w) @ [r']\<rparr>" and same: "same_resource r' r"
    by (auto simp: insert_row_def insert_resource_def returns same_resource_def split: if_splits)
  from Cons.IH [OF rest] obtain new where "store w' = store w1\<lparr>resources := resources (store w1) @ new\<rparr>"
    "list_all2 same_resource new rs" by blast
  then show ?case using st same by (intro exI [of _ "r' # new"]) simp
qed

lemma InsertManyTx_returns:
  assumes "resources_InsertManyTx rs w = (Inr n, w')"
  shows "n = int (length rs)"
    and "\<exists>new. store w' = store w\<lparr>resources := resources (store w) @ new\<rparr> \<and> list_all2 same_resource new rs"
proof -
  have "n = int (length rs) \<and> (\<exists>new. store w' = store w\<lparr>resources := resources (store w) @ new\<rparr> \<and> list_all2 same_resource new rs)"
  proof (cases "rs = []")
    case True
    then show ?thesis using assms by (intro conjI exI [of _ "[]"]) (simp_all add: resources_InsertManyTx_def returns)
  next
    case False
    with assms obtain w1 w2 where tx: "store w1 = store w" "store w' = store w2"
      "bindE now (\<lambda>t. bindE (for_each_or_return (insert_row t) rs) (\<lambda>_. ret (int (length rs)))) w1 = (Inr n, w2)"
      by (auto simp: resources_InsertManyTx_def elim: transaction_runs)
    then obtain t w3 where "n = int (length rs)" "for_each_or_return (insert_row t) rs w3 = (Inr (), w2)" "store w3 = store w1"
      by (auto simp: returns)
    then show ?thesis using insert_rows_return tx by metis
  qed
  then show "n = int (length rs)"
    and "\<exists>new. store w' = store w\<lparr>resources := resources (store w) @ new\<rparr> \<and> list_all2 same_resource new rs" by blast+
qed

text \<open>
  C32. The import is all or nothing. Whatever the uploaded bytes are, an import that fails or reports
  validation errors stores nothing; one that reports none was given a file with the three required
  columns and a mandatory date column, in which every row has a name not used before in the file, a
  positive capacity and well-formed dates, and stores exactly one resource per row, with the row's
  name, description and capacity.
\<close>

theorem import_is_all_or_nothing:
  assumes "GovernanceService_ImportResourcesCSV s body w = (r, w')"
  shows "case r of
      Inl e \<Rightarrow> store w' = store w
    | Inr (n, es) \<Rightarrow>
        if es \<noteq> [] then n = 0 \<and> store w' = store w
        else \<exists>header rows new. csv_read body = Some (header # rows) \<and>
               importable s (col_names (gs_lower s) header) rows \<and> n = int (length rows) \<and>
               store w' = store w\<lparr>resources := resources (store w) @ new\<rparr> \<and>
               list_all2 (\<lambda>res row. same_resource res (resource_of (parsed_row (col_names (gs_lower s) header) row))) new rows"
proof (cases "\<exists>ps. ValidateResourcesCSV s body = Inr (ps, [])")
  case False
  then show ?thesis
    using assms by (auto simp: GovernanceService_ImportResourcesCSV_def returns split: sum.splits prod.splits)
next
  case True
  then obtain ps header rows where v: "ValidateResourcesCSV s body = Inr (ps, [])"
    and csv: "csv_read body = Some (header # rows)" "importable s (col_names (gs_lower s) header) rows"
    and ps: "ps = map (parsed_row (col_names (gs_lower s) header)) rows"
    by (metis ValidateResourcesCSV_accepts)
  let ?m = "resources_InsertManyTx (map resource_of ps)"
  have run: "bindE ?m (\<lambda>n. ret (n, [])) w = (r, w')"
    using assms v by (simp add: GovernanceService_ImportResourcesCSV_def)
  show ?thesis
  proof (cases r)
    case (Inl e)
    have "all_or_nothing ?m"
      by (auto simp: resources_InsertManyTx_def intro!: store_rules)
    then have "all_or_nothing (bindE ?m (\<lambda>n. ret (n, [] :: csv_validation_error list)))"
      by (intro store_rules)
    with run show ?thesis unfolding Inl by (simp add: all_or_nothingD)
  next
    case (Inr x)
    with run obtain n where x: "x = (n, [])" and m: "?m w = (Inr n, w')"
      by (auto simp: returns)
    from InsertManyTx_returns [OF m] obtain new where "n = int (length rows)"
      "store w' = store w\<lparr>resources := resources (store w) @ new\<rparr>"
      "list_all2 same_resource new (map resource_of (map (parsed_row (col_names (gs_lower s) header)) rows))"
      by (auto simp: ps)
    then show ?thesis using csv by (auto simp: Inr x list_all2_map2)
  qed
qed

definition demo_governance :: governance_service where
  "demo_governance = \<lparr>gs_analytics = demo_analytics, gs_lower = ascii_lower, gs_is_print = (\<lambda>r. 32 \<le> r \<and> r < 127),
     gs_collate = (\<lambda>s. int (length s)), gs_uuid_text = (\<lambda>u. nat_digits u)\<rparr>"

definition demo_csv :: string where
  "demo_csv = ''Name,description, Capacity,created_at'' @ [CR, NL] @
     ''Pier 7,'' @ [DQ] @ ''berth, north'' @ [DQ] @ '', +12 ,2026-04-08'' @ [NL]"

lemma demo_csv_read: "csv_read demo_csv = Some [[''Name'', ''description'', ''Capacity'', ''created_at''],
    [''Pier 7'', ''berth, north'', ''+12 '', ''2026-04-08'']]"
  by code_simp

lemma demo_validated:
  "ValidateResourcesCSV demo_governance demo_csv =
     Inr ([\<lparr>pr_Name = ''Pier 7'', pr_Description = ''berth, north'', pr_Capacity = 12\<rparr>], [])"
  by code_simp

theorem import_is_all_or_nothing_witness:
  "\<exists>w' r. GovernanceService_ImportResourcesCSV demo_governance demo_csv (demo_world empty_db 0) = (Inr (1, []), w') \<and>
     resources (store w') = [r] \<and> r_Name r = ''Pier 7'' \<and> r_Capacity r = 12"
proof -
  obtain w' where run: "GovernanceService_ImportResourcesCSV demo_governance demo_csv (demo_world empty_db 0) = (Inr (1, []), w')"
    by (simp add: GovernanceService_ImportResourcesCSV_def demo_validated resources_InsertManyTx_def insert_row_def
        insert_resource_def resource_of_def resource_insertable_def fresh_key_def int4_def empty_db_def demo_world_def run_defs)
  have names: "col_names (gs_lower demo_governance) [''Name'', ''description'', ''Capacity'', ''created_at''] =
      [''name'', ''description'', ''capacity'', ''created_at'']"
    by code_simp
  have row: "parsed_row [''name'', ''description'', ''capacity'', ''created_at''] [''Pier 7'', ''berth, north'', ''+12 '', ''2026-04-08''] =
      \<lparr>pr_Name = ''Pier 7'', pr_Description = ''berth, north'', pr_Capacity = 12\<rparr>"
    by code_simp
  obtain r where "resources (store w') = [r]" "same_resource r (resource_of
      \<lparr>pr_Name = ''Pier 7'', pr_Description = ''berth, north'', pr_Capacity = 12\<rparr>)"
    using import_is_all_or_nothing [OF run] by (auto simp: demo_csv_read names row list_all2_Cons2 empty_db_def)
  then show ?thesis using run by (auto simp: same_resource_def resource_of_def)
qed

end
