(* ===== verification/Erasure.thy ===== *)
theory Erasure
  imports Governance Group_Buy_Service
begin

text \<open>
  What the deletion executor of \<open>service/governance.go\<close> guarantees: the rows of the users that are due go
  from every table with a foreign key to \<open>users\<close>, their analytics events lose the link, and the rows of
  everybody else stay as they are. The idempotency keys and the delivery log, which hold user ids without
  a foreign key, keep the erased users' rows, and the seats of their group-buy places are not returned.
\<close>

section \<open>Traces of a user\<close>

definition no_trace :: "analytics_service \<Rightarrow> uuid \<Rightarrow> db \<Rightarrow> bool" where
  "no_trace s u d \<longleftrightarrow>
     (\<forall>x \<in> set (users d). u_ID x \<noteq> u) \<and> (\<forall>x \<in> set (sessions d). s_UserID x \<noteq> u) \<and>
     (\<forall>x \<in> set (bookings d). b_UserID x \<noteq> u) \<and> (\<forall>x \<in> set (participants d). p_UserID x \<noteq> u) \<and>
     (\<forall>x \<in> set (documents d). d_OwnerUserID x \<noteq> u) \<and> (\<forall>x \<in> set (notifications d). n_UserID x \<noteq> u) \<and>
     (\<forall>x \<in> set (todos d). t_UserID x \<noteq> u) \<and> (\<forall>x \<in> set (consent_records d). cr_UserID x \<noteq> u) \<and>
     (\<forall>x \<in> set (deletion_requests d). dr_UserID x \<noteq> u) \<and>
     (\<forall>x \<in> set (group_buys d). gb_OrganizerID x \<noteq> Some u) \<and>
     (\<forall>x \<in> set (group_reservations d). g_OrganizerID x \<noteq> Some u) \<and>
     (\<forall>x \<in> set (analytics_events d). e_UserAnon x \<noteq> Some (Anon s u))"

text \<open>
  The part of the store that does not belong to the users \<open>us\<close>: their rows are left out, and pointers at
  them or at their notifications are blanked.
\<close>

definition docs_of :: "uuid set \<Rightarrow> db \<Rightarrow> uuid set" where
  "docs_of us d = d_ID ` {x \<in> set (documents d). d_OwnerUserID x \<in> us}"

definition others :: "analytics_service \<Rightarrow> uuid set \<Rightarrow> db \<Rightarrow> db" where
  "others s us d =
     d\<lparr>users := filter (\<lambda>x. u_ID x \<notin> us) (users d),
           sessions := filter (\<lambda>x. s_UserID x \<notin> us) (sessions d),
           bookings := filter (\<lambda>x. b_UserID x \<notin> us) (bookings d),
           participants := filter (\<lambda>x. p_UserID x \<notin> us) (participants d),
           documents := filter (\<lambda>x. d_OwnerUserID x \<notin> us) (documents d),
           revisions := filter (\<lambda>x. rev_DocumentID x \<notin> docs_of us d) (revisions d),
           notifications := filter (\<lambda>x. n_UserID x \<notin> us) (notifications d),
           notification_deliveries := map (\<lambda>x. x\<lparr>nd_NotificationID := None\<rparr>) (notification_deliveries d),
           todos := filter (\<lambda>x. t_UserID x \<notin> us) (todos d),
           consent_records := filter (\<lambda>x. cr_UserID x \<notin> us) (consent_records d),
           deletion_requests := filter (\<lambda>x. dr_UserID x \<notin> us) (deletion_requests d),
           group_buys := update_where (\<lambda>x. gb_OrganizerID x \<in> Some ` us) (\<lambda>x. x\<lparr>gb_OrganizerID := None\<rparr>) (group_buys d),
           group_reservations := update_where (\<lambda>x. g_OrganizerID x \<in> Some ` us) (\<lambda>x. x\<lparr>g_OrganizerID := None\<rparr>)
             (group_reservations d),
           analytics_events := update_where (\<lambda>x. e_UserAnon x \<in> (\<lambda>u. Some (Anon s u)) ` us)
             (\<lambda>x. x\<lparr>e_UserAnon := None\<rparr>) (analytics_events d)\<rparr>"

definition anonymised :: "analytics_service \<Rightarrow> uuid \<Rightarrow> db \<Rightarrow> db" where
  "anonymised s u d = d\<lparr>analytics_events :=
     update_where (\<lambda>e. e_UserAnon e = Some (Anon s u)) (\<lambda>e. e\<lparr>e_UserAnon := None\<rparr>) (analytics_events d)\<rparr>"

lemma update_where_twice:
  "(\<And>r. p r \<Longrightarrow> q r \<and> f (g r) = f r) \<Longrightarrow> (\<And>r. p r \<Longrightarrow> \<not> q (g r) \<Longrightarrow> g r = f r) \<Longrightarrow>
   update_where q f (update_where p g rows) = update_where q f rows"
  by (simp add: update_where_def)

lemma docs_of_fields [simp]: "docs_of us (d\<lparr>analytics_events := es\<rparr>) = docs_of us d"
  by (simp add: docs_of_def)

lemma others_anonymised: "u \<in> us \<Longrightarrow> others s us (anonymised s u d) = others s us d"
  by (simp add: others_def anonymised_def update_where_twice)

lemma filter_delete: "u \<in> us \<Longrightarrow> filter (\<lambda>x. k x \<notin> us) (delete_where (\<lambda>x. k x = u) rows) = filter (\<lambda>x. k x \<notin> us) rows"
  by (auto simp: delete_where_def intro: filter_cong)

lemma filter_docs:
  "filter (\<lambda>x. k x \<notin> A) (delete_where (\<lambda>x. k x \<in> B) rows) = filter (\<lambda>x. k x \<notin> A \<union> B) rows"
  by (auto simp: delete_where_def intro: filter_cong)

lemma blank_deliveries:
  "map (\<lambda>x. x\<lparr>nd_NotificationID := None\<rparr>) (update_where p (\<lambda>x. x\<lparr>nd_NotificationID := None\<rparr>) rows) =
   map (\<lambda>x. x\<lparr>nd_NotificationID := None\<rparr>) rows"
  by (simp add: update_where_def)

lemma docs_of_delete: "docs_of us (delete_user_row u d) \<union> docs_of {u} d = docs_of (insert u us) d"
  by (auto simp: docs_of_def delete_user_row_def Let_def)

lemma delete_user_row_revisions: "revisions (delete_user_row u d) = delete_where (\<lambda>x. rev_DocumentID x \<in> docs_of {u} d) (revisions d)"
  by (simp add: delete_user_row_def docs_of_def Let_def)

lemma others_delete_user_row:
  assumes "u \<in> us"
  shows "others s us (delete_user_row u d) = others s us d"
proof -
  have "docs_of us (delete_user_row u d) \<union> docs_of {u} d = docs_of us d"
    using docs_of_delete [of us u d] assms by (simp add: insert_absorb)
  then have revs: "filter (\<lambda>x. rev_DocumentID x \<notin> docs_of us (delete_user_row u d)) (revisions (delete_user_row u d)) =
      filter (\<lambda>x. rev_DocumentID x \<notin> docs_of us d) (revisions d)"
    unfolding delete_user_row_revisions filter_docs by simp
  then have f: "revisions (others s us (delete_user_row u d)) = revisions (others s us d)"
    by (simp add: others_def)
  show ?thesis
    by (rule db.equality, unfold f)
      (simp_all add: others_def delete_user_row_def Let_def assms filter_delete blank_deliveries update_where_twice)
qed

section \<open>One erasure\<close>

definition erased :: "analytics_service \<Rightarrow> uuid \<Rightarrow> db \<Rightarrow> db" where
  "erased s u d = (if u \<in> u_ID ` set (users d) then delete_user_row u (anonymised s u d) else anonymised s u d)"

lemma no_trace_erased: "u \<in> u_ID ` set (users d) \<Longrightarrow> no_trace s u (erased s u d)"
  by (auto simp: erased_def no_trace_def delete_user_row_def anonymised_def Let_def update_where_def)

lemma no_trace_kept: "no_trace s u d \<Longrightarrow> no_trace s u (erased s v d)"
  by (auto simp: erased_def no_trace_def delete_user_row_def anonymised_def Let_def update_where_def)

lemma users_erased: "u_ID ` set (users (erased s v d)) = u_ID ` set (users d) - {v}"
  by (auto simp: erased_def delete_user_row_def anonymised_def Let_def)

lemma docs_of_anonymised [simp]: "docs_of us (anonymised s u d) = docs_of us d"
  by (simp add: anonymised_def)

lemma no_trace_docs: "no_trace s v d \<Longrightarrow> docs_of {v} d = {}"
  by (auto simp: no_trace_def docs_of_def)

lemma docs_of_erased:
  assumes "v \<in> u_ID ` set (users d) \<or> no_trace s v d"
  shows "docs_of (insert v us) d = docs_of us (erased s v d) \<union> docs_of {v} d"
    and "rev_DocumentID ` set (revisions (erased s v d)) \<subseteq> rev_DocumentID ` set (revisions d) - docs_of {v} d"
proof -
  have split: "docs_of (insert v us) d = docs_of us d \<union> docs_of {v} d"
    by (auto simp: docs_of_def)
  show "docs_of (insert v us) d = docs_of us (erased s v d) \<union> docs_of {v} d"
    using docs_of_delete [of us v "anonymised s v d"] by (auto simp: erased_def split)
  have "docs_of {v} d = {}" if "v \<notin> u_ID ` set (users d)"
    using that assms no_trace_docs by blast
  then show "rev_DocumentID ` set (revisions (erased s v d)) \<subseteq> rev_DocumentID ` set (revisions d) - docs_of {v} d"
    by (auto simp: erased_def delete_user_row_revisions) (simp_all add: anonymised_def)
qed

lemma others_erased: "u \<in> us \<Longrightarrow> others s us (erased s u d) = others s us d"
  by (simp add: erased_def others_anonymised others_delete_user_row)

section \<open>The executor\<close>

lemma hardDelete_others:
  assumes "dr_UserID q \<in> us"
  shows "preserves (\<lambda>d. others (gs_analytics s) us d = D) (hardDeleteOne s q)"
  unfolding hardDeleteOne_def AnalyticsService_AnonymiseUserEvents_def analytics_AnonymiseUserEvents_def users_HardDelete_def
  by (intro store_rules preserves_sql)
    (auto simp: others_anonymised [OF assms, unfolded anonymised_def] others_delete_user_row [OF assms] split: if_splits)

lemma hardDelete_calm:
  assumes "calm w" and "hardDeleteOne s q w = (r, w')"
  shows "calm w' \<and> store w' = erased (gs_analytics s) (dr_UserID q) (store w)"
  using assms
  by (auto simp: hardDeleteOne_def AnalyticsService_AnonymiseUserEvents_def analytics_AnonymiseUserEvents_def
      users_HardDelete_def calm_run erased_def anonymised_def image_iff split: if_splits)

lemma executor_loop:
  assumes "calm w" and "for_each (hardDeleteOne s) qs w = (r, w')"
    and "\<forall>q \<in> set qs. dr_UserID q \<in> u_ID ` set (users (store w)) \<or> no_trace (gs_analytics s) (dr_UserID q) (store w)"
  shows "(\<forall>u. u \<in> dr_UserID ` set qs \<or> no_trace (gs_analytics s) u (store w) \<longrightarrow> no_trace (gs_analytics s) u (store w')) \<and>
    rev_DocumentID ` set (revisions (store w')) \<subseteq>
      rev_DocumentID ` set (revisions (store w)) - docs_of (dr_UserID ` set qs) (store w)"
  using assms
proof (induction qs arbitrary: w)
  case Nil
  then show ?case by (auto simp: ret_def docs_of_def)
next
  case (Cons q qs)
  let ?a = "gs_analytics s" and ?v = "dr_UserID q"
  obtain r1 w1 where one: "hardDeleteOne s q w = (r1, w1)" and rest: "for_each (hardDeleteOne s) qs w1 = (r, w')"
    using Cons.prems(2) by (auto simp: ignoring_returns)
  have w1: "calm w1" "store w1 = erased ?a ?v (store w)"
    using hardDelete_calm [OF Cons.prems(1) one] by simp_all
  have v: "?v \<in> u_ID ` set (users (store w)) \<or> no_trace ?a ?v (store w)"
    using Cons.prems(3) by simp
  have gone: "no_trace ?a ?v (store w1)"
    using v by (auto simp: w1(2) no_trace_erased no_trace_kept)
  have "\<forall>q' \<in> set qs. dr_UserID q' \<in> u_ID ` set (users (store w1)) \<or> no_trace ?a (dr_UserID q') (store w1)"
  proof
    fix q' assume "q' \<in> set qs"
    then have "dr_UserID q' \<in> u_ID ` set (users (store w)) \<or> no_trace ?a (dr_UserID q') (store w)"
      using Cons.prems(3) by simp
    then show "dr_UserID q' \<in> u_ID ` set (users (store w1)) \<or> no_trace ?a (dr_UserID q') (store w1)"
      using gone by (cases "dr_UserID q' = ?v") (auto simp: w1(2) users_erased no_trace_kept)
  qed
  note both = Cons.IH [OF w1(1) rest this]
  note IH = conjunct1 [OF both, rule_format] conjunct2 [OF both]
  have docs: "docs_of (dr_UserID ` set (q # qs)) (store w) = docs_of (dr_UserID ` set qs) (store w1) \<union> docs_of {?v} (store w)"
    using docs_of_erased(1) [OF v, of "dr_UserID ` set qs"] by (simp add: w1(2))
  have "rev_DocumentID ` set (revisions (store w')) \<subseteq>
      rev_DocumentID ` set (revisions (store w)) - docs_of (dr_UserID ` set (q # qs)) (store w)"
    using IH(2) docs_of_erased(2) [OF v] unfolding docs w1(2) by blast
  moreover have "no_trace ?a u (store w')" if "u \<in> dr_UserID ` set (q # qs) \<or> no_trace ?a u (store w)" for u
  proof -
    have "u \<in> dr_UserID ` set qs \<or> no_trace ?a u (store w1)"
      using that gone no_trace_kept [of ?a u "store w" ?v, folded w1(2)] by auto
    then show ?thesis by (rule IH(1))
  qed
  ultimately show ?case by blast
qed

definition due_users :: "time \<Rightarrow> db \<Rightarrow> uuid set" where
  "due_users t d = dr_UserID ` {q \<in> set (deletion_requests d). due_pending t q}"

text \<open>
  C30. Due users are erased and nobody else is touched. A run of the deletion executor leaves, of every
  user with a pending request whose grace period is over, no row in any table with a foreign key to the
  users, no revision of their documents, no organizer pointer and no analytics event with their
  pseudonym, provided the database answers and requests belong to existing users (the foreign key). Even
  when statements fail, all that does not belong to those users is as before.
\<close>

theorem due_users_are_erased:
  assumes "GovernanceService_RunDeletionExecutor s w = (r, w')"
    and "dr_UserID ` set (deletion_requests (store w)) \<subseteq> u_ID ` set (users (store w))"
  defines "due \<equiv> due_users (clock w (readings w)) (store w)"
  shows "others (gs_analytics s) due (store w') = others (gs_analytics s) due (store w) \<and>
    (calm w \<longrightarrow> (\<forall>u \<in> due. no_trace (gs_analytics s) u (store w')) \<and>
       (\<forall>x \<in> set (revisions (store w')). rev_DocumentID x \<notin> docs_of due (store w)))"
proof -
  let ?t = "clock w (readings w)"
  let ?qs = "filter (due_pending ?t) (deletion_requests (store w))"
  have due: "due = dr_UserID ` set ?qs"
    by (auto simp: due_def due_users_def)
  let ?w1 = "w\<lparr>readings := Suc (readings w)\<rparr>"
  obtain found w2 where q: "governance_ListDuePending ?t ?w1 = (found, w2)"
    by (cases "governance_ListDuePending ?t ?w1")
  have run: "(case found of Inl e \<Rightarrow> (Inl e, w2) | Inr qs \<Rightarrow> for_each (hardDeleteOne s) qs w2) = (r, w')"
    using assms(1) q
    by (simp add: GovernanceService_RunDeletionExecutor_def bindE_run(1) [OF now_def] bindE_def [of "governance_ListDuePending ?t"]
        split: sum.splits)
  have st: "store w2 = store w"
  proof -
    have "readonly (governance_ListDuePending ?t)" by (simp add: governance_ListDuePending_def readonly_query)
    from readonlyD [OF this q] show ?thesis by simp
  qed
  have found: "qs = ?qs" if "found = Inr qs" for qs
    using q that by (auto simp: governance_ListDuePending_def query_returns)
  have "others (gs_analytics s) due (store w') = others (gs_analytics s) due (store w)"
  proof (cases found)
    case (Inl e)
    then show ?thesis using run st by simp
  next
    case (Inr qs)
    then have loop: "for_each (hardDeleteOne s) ?qs w2 = (r, w')" using run found by simp
    have "preserves (\<lambda>d. others (gs_analytics s) due d = others (gs_analytics s) due (store w)) (for_each (hardDeleteOne s) ?qs)"
      by (rule preserves_for_each, rule hardDelete_others) (simp add: due)
    from preservesD [OF this loop] st show ?thesis by simp
  qed
  moreover have "(\<forall>u \<in> due. no_trace (gs_analytics s) u (store w')) \<and>
       (\<forall>x \<in> set (revisions (store w')). rev_DocumentID x \<notin> docs_of due (store w))" if calm: "calm w"
  proof -
    have "found = Inr ?qs" "calm w2"
      using q calm by (auto simp: governance_ListDuePending_def query_calm)
    then have loop: "for_each (hardDeleteOne s) ?qs w2 = (r, w')" using run by simp
    have "\<forall>q \<in> set ?qs. dr_UserID q \<in> u_ID ` set (users (store w2)) \<or> no_trace (gs_analytics s) (dr_UserID q) (store w2)"
      using assms(2) by (auto simp: st)
    from executor_loop [OF \<open>calm w2\<close> loop this] show ?thesis
      unfolding st due by blast
  qed
  ultimately show ?thesis by blast
qed

definition erasure_db :: db where
  "erasure_db = (market [] [])\<lparr>documents := [\<lparr>d_ID = 50, d_OwnerUserID = 1, d_DocType = DocConfirmationPDF,
       d_RelatedType = ''booking'', d_RelatedID = 60, d_CurrentRevision = 1, d_Title = ''Booking'', d_CreatedAt = 0,
       d_UpdatedAt = 0, d_Revisions = []\<rparr>],
     deletion_requests := [\<lparr>dr_ID = 70, dr_UserID = 1, dr_RequestedAt = 0, dr_ProcessAfter = DeletionDelay,
       dr_Status = ''pending'', dr_CompletedAt = None\<rparr>]\<rparr>"

theorem due_users_are_erased_witness:
  "\<exists>r w'. GovernanceService_RunDeletionExecutor demo_governance (demo_world erasure_db (8 * 24 * hour)) = (r, w') \<and>
     users (store w') = [sample_user 2] \<and> documents (store w') = []"
proof -
  let ?w = "demo_world erasure_db (8 * 24 * hour)"
  obtain r w' where run: "GovernanceService_RunDeletionExecutor demo_governance ?w = (r, w')" by fastforce
  have db: "users erasure_db = [sample_user 1, sample_user 2]" "filter (\<lambda>x. d_OwnerUserID x \<noteq> 1) (documents erasure_db) = []"
    "map dr_UserID (deletion_requests erasure_db) = [1]" "list_all (due_pending (8 * 24 * hour)) (deletion_requests erasure_db)"
    by (simp_all add: erasure_db_def market_def empty_db_def due_pending_def DeletionDelay_def)
  have requests: "dr_UserID ` set (deletion_requests erasure_db) = {1}"
    using arg_cong [OF db(3), of set] by simp
  have due: "due_users (8 * 24 * hour) erasure_db = {1}"
  proof -
    have "{q \<in> set (deletion_requests erasure_db). due_pending (8 * 24 * hour) q} = set (deletion_requests erasure_db)"
      using db(4) unfolding list_all_iff by blast
    then show ?thesis unfolding due_users_def using requests by simp
  qed
  have fk: "dr_UserID ` set (deletion_requests (store ?w)) \<subseteq> u_ID ` set (users (store ?w))"
    by (simp add: requests db(1) sample_user_def)
  note erased = due_users_are_erased [OF run fk, unfolded demo_world_sel due]
  then have gone: "no_trace (gs_analytics demo_governance) 1 (store w')"
    and kept: "others (gs_analytics demo_governance) {1} (store w') = others (gs_analytics demo_governance) {1} erasure_db"
    by simp_all
  from arg_cong [OF kept, of users] have "filter (\<lambda>x. u_ID x \<noteq> 1) (users (store w')) = [sample_user 2]"
    by (simp add: others_def db(1) sample_user_def)
  moreover have "filter (\<lambda>x. u_ID x \<noteq> 1) (users (store w')) = users (store w')"
    using gone by (auto simp: no_trace_def filter_id_conv)
  moreover from arg_cong [OF kept, of documents] have "filter (\<lambda>x. d_OwnerUserID x \<noteq> 1) (documents (store w')) = []"
    unfolding others_def using db(2) by simp
  moreover have "filter (\<lambda>x. d_OwnerUserID x \<noteq> 1) (documents (store w')) = documents (store w')"
    using gone by (auto simp: no_trace_def filter_id_conv)
  ultimately show ?thesis using run by metis
qed

section \<open>What an erasure leaves behind\<close>

text \<open>
  C31. The seats of an erased user stay taken. Deleting the row of a user who has joined a group buy drops
  the participant but does not give the seats back: the group buy counts more confirmed seats than its
  participants hold, by the quantity of the erased one, and the ledger is out of balance for good.
\<close>

theorem erased_seats_stay_taken:
  assumes "ledger_inv (store w)" and "users_HardDelete u w = (Inr (), w')"
    and "p \<in> set (participants (store w))" and "p_UserID p = u"
    and "g \<in> set (group_buys (store w))" and "gb_ID g = p_GroupBuyID p" and "gb_Status g \<noteq> GroupBuyFailed"
  shows "\<exists>g' \<in> set (group_buys (store w')). gb_ID g' = gb_ID g \<and>
     Confirmed g' = seats_of (gb_ID g) (participants (store w')) + p_Quantity p \<and> \<not> ledger_inv (store w')"
proof -
  have st: "store w' = delete_user_row u (store w)"
    using assms(2) by (auto simp: users_HardDelete_def sql_returns split: if_splits)
  let ?ps = "participants (store w)" and ?g = "if gb_OrganizerID g = Some u then g\<lparr>gb_OrganizerID := None\<rparr> else g"
  have keys: "distinct_keys (\<lambda>p. (p_GroupBuyID p, p_UserID p)) ?ps" and row: "ledger_row ?ps g" and pos: "0 < p_Quantity p"
    using assms(1,3,5) by (auto simp: ledger_inv_def)
  have "sum_where (\<lambda>x. p_GroupBuyID x = gb_ID g \<and> p_UserID x = u) p_Quantity ?ps = p_Quantity p"
    by (rule sum_where_single [OF keys assms(3)]) (use assms(4,6) in auto)
  moreover have parts: "sum_where (\<lambda>x. p_GroupBuyID x = i) p_Quantity ps = sum_where (\<lambda>x. p_GroupBuyID x = i \<and> p_UserID x \<noteq> u) p_Quantity ps +
      sum_where (\<lambda>x. p_GroupBuyID x = i \<and> p_UserID x = u) p_Quantity ps" for i ps
    by (induction ps) auto
  ultimately have seats: "seats_of (gb_ID g) ?ps = seats_of (gb_ID g) (participants (store w')) + p_Quantity p"
    unfolding seats_of_def st using parts [of "gb_ID g" ?ps] by (simp add: delete_user_row_def Let_def sum_where_delete)
  have g': "?g \<in> set (group_buys (store w'))"
    using assms(5) by (force simp: st delete_user_row_def Let_def set_update_where)
  have "Confirmed ?g = seats_of (gb_ID g) (participants (store w')) + p_Quantity p"
    using row assms(7) seats by (simp add: ledger_row_def Confirmed_def)
  moreover from this have "\<not> ledger_row (participants (store w')) ?g"
    using pos assms(7) by (auto simp: ledger_row_def)
  ultimately show ?thesis
    using g' by (intro bexI [of _ ?g]) (auto simp: ledger_inv_def)
qed

theorem erased_seats_stay_taken_witness:
  "\<exists>w' g'. users_HardDelete 2 (demo_world (market [demo_group_buy 5] [demo_participant 1000 2 3]) 0) = (Inr (), w') \<and>
     g' \<in> set (group_buys (store w')) \<and> Confirmed g' = 3 \<and> seats_of 1000 (participants (store w')) = 0"
proof -
  let ?w = "demo_world (market [demo_group_buy 5] [demo_participant 1000 2 3]) 0"
  obtain w' where run: "users_HardDelete 2 ?w = (Inr (), w')"
    by (simp add: users_HardDelete_def sql_calm market_def sample_user_def)
  have "ledger_inv (store ?w)"
    by (simp add: ledger_inv_def market_def distinct_keys_def ledger_row_def demo_group_buy_def Confirmed_def seats_of_def
        demo_participant_def)
  from erased_seats_stay_taken [OF this run, of "demo_participant 1000 2 3" "demo_group_buy 5"]
  obtain g' where "g' \<in> set (group_buys (store w'))" "Confirmed g' = seats_of 1000 (participants (store w')) + 3"
    by (auto simp: market_def demo_participant_def demo_group_buy_def)
  moreover have "participants (store w') = []"
    using run by (auto simp: users_HardDelete_def sql_calm market_def sample_user_def delete_user_row_def Let_def
        delete_where_def demo_participant_def)
  ultimately show ?thesis using run by (auto simp: seats_of_def)
qed

end
