(* ===== verification/Availability.thy ===== *)
theory Availability
  imports Bookings Rendering "HOL-Library.Multiset"
begin

text \<open>
  The availability report: \<open>service/resource.go\<close>. The day is an instant in UTC, as both callers pass it.
\<close>

record slot_capacity =
  sc_StartTime :: time
  sc_EndTime :: time
  sc_Capacity :: int
  sc_ActivePartySize :: int
  sc_RemainingSeats :: int
  sc_Available :: bool

record availability_result =
  ar_Resource :: resource
  ar_Date :: string
  ar_Booked :: "booking list"
  ar_Slots :: "slot_capacity list"
  ar_TotalCapacity :: int
  ar_PeakActiveParty :: int
  ar_MinRemaining :: int

definition openHourUTC :: int where "openHourUTC = 8"
definition closeHourUTC :: int where "closeHourUTC = 22"
definition slotMinutes :: int where "slotMinutes = 60"

fun active_loop :: "time \<Rightarrow> time \<Rightarrow> int \<Rightarrow> booking list \<Rightarrow> int" where
  "active_loop cur till active [] = active"
| "active_loop cur till active (b # bs) =
     (if \<not> IsActive (b_Status b) then active_loop cur till active bs
      else if b_Status b = StatusWaitlisted then active_loop cur till active bs
      else if \<not> b_StartTime b < till \<or> \<not> b_EndTime b > cur then active_loop cur till active bs
      else active_loop cur till (active + b_PartySize b) bs)"

definition slot_of :: "time \<Rightarrow> time \<Rightarrow> duration \<Rightarrow> int \<Rightarrow> booking list \<Rightarrow> slot_capacity" where
  "slot_of cur closing width capacity booked =
     (let till = (if cur + width > closing then closing else cur + width);
          active = active_loop cur till 0 booked;
          remaining = (if capacity - active < 0 then 0 else capacity - active)
      in \<lparr>sc_StartTime = cur, sc_EndTime = till, sc_Capacity = capacity, sc_ActivePartySize = active,
          sc_RemainingSeats = remaining, sc_Available = (remaining > 0)\<rparr>)"

function slots_from :: "time \<Rightarrow> time \<Rightarrow> duration \<Rightarrow> int \<Rightarrow> booking list \<Rightarrow> slot_capacity list" where
  "slots_from cur closing width capacity booked =
     (if cur < closing \<and> 0 < width
      then slot_of cur closing width capacity booked # slots_from (cur + width) closing width capacity booked
      else [])"
  by pat_completeness auto
termination
  by (relation "measure (\<lambda>(cur, closing, _). nat (closing - cur))") auto

declare slots_from.simps [simp del]

definition ComputeSlotCapacities :: "time \<Rightarrow> time \<Rightarrow> duration \<Rightarrow> int \<Rightarrow> booking list \<Rightarrow> slot_capacity list" where
  "ComputeSlotCapacities opening closing width capacity booked =
     (if \<not> closing > opening \<or> width \<le> 0 \<or> capacity < 0 then []
      else slots_from opening closing width capacity booked)"

fun summary_loop :: "int \<Rightarrow> int \<Rightarrow> slot_capacity list \<Rightarrow> int \<times> int" where
  "summary_loop peak minRemaining [] = (peak, minRemaining)"
| "summary_loop peak minRemaining (sl # sls) =
     summary_loop (if sc_ActivePartySize sl > peak then sc_ActivePartySize sl else peak)
       (if sc_RemainingSeats sl < minRemaining then sc_RemainingSeats sl else minRemaining) sls"

definition ResourceService_List :: "(string \<Rightarrow> int) \<Rightarrow> resource list action" where
  "ResourceService_List collate = resources_List collate"

definition ResourceService_Get :: "uuid \<Rightarrow> resource action" where
  "ResourceService_Get i = resources_Get i"

definition ResourceService_Availability :: "uuid \<Rightarrow> time \<Rightarrow> availability_result action" where
  "ResourceService_Availability rid day =
     bindE (resources_Get rid) (\<lambda>res.
     bindE (bookings_ListByResourceOnDate rid day) (\<lambda>booked.
     let opening = day_start day + openHourUTC * hour;
         closing = day_start day + closeHourUTC * hour;
         slots = ComputeSlotCapacities opening closing (slotMinutes * minute) (r_Capacity res) booked;
         (peak, least) = summary_loop 0 (r_Capacity res) slots;
         minRemaining = (if slots = [] then r_Capacity res else least)
     in ret \<lparr>ar_Resource = res, ar_Date = format_date day, ar_Booked = booked, ar_Slots = slots,
             ar_TotalCapacity = r_Capacity res, ar_PeakActiveParty = peak, ar_MinRemaining = minRemaining\<rparr>))"

definition ResourceService_RemainingSeats :: "uuid \<Rightarrow> time \<Rightarrow> time \<Rightarrow> (int \<times> int \<times> int) action" where
  "ResourceService_RemainingSeats rid s e =
     bindE (resources_Get rid) (\<lambda>res.
     bindE (resources_SumActivePartySizesInWindow rid s e) (\<lambda>active.
     let remaining = (if r_Capacity res - active < 0 then 0 else r_Capacity res - active)
     in ret (r_Capacity res, active, remaining)))"

section \<open>The report agrees with the seat count of the bookings\<close>

lemma active_loop_sum:
  "active_loop cur till active bs = active + sum_where
     (\<lambda>b. holds_seat (b_Status b) \<and> overlaps (b_StartTime b) (b_EndTime b) cur till) b_PartySize bs"
  by (induction bs arbitrary: active)
    (auto simp: IsActive_def holds_seat_def overlaps_def split: booking_status.splits)

lemma sum_where_filter: "sum_where p f (filter q rows) = sum_where (\<lambda>r. p r \<and> q r) f rows"
  by (simp add: sum_where_def conj_commute)

lemma sum_where_order_asc: "sum_where p f (order_asc key rows) = sum_where p f rows"
proof -
  have "mset (map f (filter p (order_asc key rows))) = mset (map f (filter p rows))"
    by (simp add: order_asc_def)
  then show ?thesis
    unfolding sum_where_def by (metis sum_mset_sum_list)
qed

text \<open>Within a day, the bookings of the day are all that can take a seat.\<close>

lemma day_list_suffices:
  assumes "day_start day \<le> s" and "e \<le> day_start day + 24 * hour"
  shows "active_loop s e 0 (order_asc b_StartTime (filter (on_resource_day rid day) bs)) = seats_in_window rid s e bs"
  unfolding active_loop_sum sum_where_order_asc sum_where_filter seats_in_window_def
  using assms by (auto simp: on_resource_day_def overlaps_def holds_seat_def intro!: sum_where_cong)

lemma hourly_slots:
  assumes "0 < width"
  shows "slots_from cur (cur + int n * width) width capacity booked =
     map (\<lambda>k. slot_of (cur + int k * width) (cur + int n * width) width capacity booked) [0..<n]"
proof (induction n arbitrary: cur)
  case 0
  then show ?case by (simp add: slots_from.simps)
next
  case (Suc n)
  have e: "cur + width + int n * width = cur + int (Suc n) * width" by (simp add: algebra_simps)
  have "cur < cur + int (Suc n) * width" using assms by simp
  then have "slots_from cur (cur + int (Suc n) * width) width capacity booked =
      slot_of cur (cur + int (Suc n) * width) width capacity booked #
      slots_from (cur + width) (cur + int (Suc n) * width) width capacity booked"
    using assms by (subst slots_from.simps) simp
  also have "slots_from (cur + width) (cur + int (Suc n) * width) width capacity booked =
      map (\<lambda>k. slot_of (cur + int (Suc k) * width) (cur + int (Suc n) * width) width capacity booked) [0..<n]"
    using Suc.IH [of "cur + width"] unfolding e by (simp add: algebra_simps)
  finally show ?case
    by (simp add: upt_conv_Cons map_Suc_upt [symmetric] del: upt_Suc)
qed

lemma summary_loop_bounds:
  "summary_loop p m sls = (fold max (map sc_ActivePartySize sls) p, fold min (map sc_RemainingSeats sls) m)"
proof (induction sls arbitrary: p m)
  case (Cons sl sls)
  have "(if x > p then x else p) = max x p" "(if x < m then x else m) = min x m" for x by auto
  then show ?case by (simp add: Cons.IH)
qed simp

text \<open>
  C33. The availability report is the seat count of the bookings. For a resource with a non-negative
  capacity the report has the 14 hours from 8 to 22, and what it says of each hour, computed in memory
  from the bookings of the day, is what the SQL sum over all bookings gives for that hour; free seats are
  the rest of the capacity, never negative, an hour is available when a seat is free, and the headline
  numbers are the extremes over the hours.
\<close>

theorem availability_is_the_seat_count:
  assumes "ResourceService_Availability rid day w = (Inr a, w')" and "0 \<le> r_Capacity (ar_Resource a)"
  defines "seats k \<equiv> seats_in_window rid (day_start day + (8 + int k) * hour) (day_start day + (9 + int k) * hour) (bookings (store w))"
  shows "ar_Slots a = map (\<lambda>k.
      \<lparr>sc_StartTime = day_start day + (8 + int k) * hour, sc_EndTime = day_start day + (9 + int k) * hour,
       sc_Capacity = r_Capacity (ar_Resource a), sc_ActivePartySize = seats k,
       sc_RemainingSeats = max 0 (r_Capacity (ar_Resource a) - seats k),
       sc_Available = (seats k < r_Capacity (ar_Resource a))\<rparr>) [0..<14] \<and>
    ar_PeakActiveParty a = fold max (map seats [0..<14]) 0 \<and>
    ar_MinRemaining a = fold min (map (\<lambda>k. max 0 (r_Capacity (ar_Resource a) - seats k)) [0..<14]) (r_Capacity (ar_Resource a)) \<and>
    row_by r_ID rid (resources (store w)) = Some (ar_Resource a) \<and> store w' = store w"
proof -
  let ?d = "day_start day" and ?res = "ar_Resource a"
  let ?booked = "order_asc b_StartTime (filter (on_resource_day rid day) (bookings (store w)))"
  let ?slots = "ComputeSlotCapacities (?d + 8 * hour) (?d + 22 * hour) (60 * minute) (r_Capacity ?res) ?booked"
  from assms(1) have res: "row_by r_ID rid (resources (store w)) = Some ?res" and st: "store w' = store w"
    and slots: "ar_Slots a = ?slots" and peak: "ar_PeakActiveParty a = fold max (map sc_ActivePartySize ?slots) 0"
    and least: "ar_MinRemaining a = (if ?slots = [] then r_Capacity ?res else fold min (map sc_RemainingSeats ?slots) (r_Capacity ?res))"
    by (auto simp: ResourceService_Availability_def bookings_ListByResourceOnDate_def returns openHourUTC_def
        closeHourUTC_def slotMinutes_def summary_loop_bounds Let_def)
  have "?slots = slots_from (?d + 8 * hour) (?d + 8 * hour + int 14 * hour) hour (r_Capacity ?res) ?booked"
    using assms(2) by (simp add: ComputeSlotCapacities_def add.commute)
  also have "\<dots> = map (\<lambda>k. slot_of (?d + 8 * hour + int k * hour) (?d + 8 * hour + int 14 * hour) hour (r_Capacity ?res) ?booked) [0..<14]"
    by (rule hourly_slots) simp
  also have "\<dots> = map (\<lambda>k. \<lparr>sc_StartTime = ?d + (8 + int k) * hour, sc_EndTime = ?d + (9 + int k) * hour,
       sc_Capacity = r_Capacity ?res, sc_ActivePartySize = seats k,
       sc_RemainingSeats = max 0 (r_Capacity ?res - seats k), sc_Available = (seats k < r_Capacity ?res)\<rparr>) [0..<14]"
  proof (rule map_cong [OF refl])
    fix k assume "k \<in> set [0..<14::nat]"
    then have k: "k < 14" by simp
    have "active_loop (?d + (8 + int k) * hour) (?d + (9 + int k) * hour) 0 ?booked = seats k"
      unfolding seats_def using k by (intro day_list_suffices) auto
    then have "active_loop (?d + 8 * hour + int k * hour) (?d + 8 * hour + int k * hour + hour) 0 ?booked = seats k"
      by (simp add: algebra_simps)
    then show "slot_of (?d + 8 * hour + int k * hour) (?d + 8 * hour + int 14 * hour) hour (r_Capacity ?res) ?booked =
      \<lparr>sc_StartTime = ?d + (8 + int k) * hour, sc_EndTime = ?d + (9 + int k) * hour,
       sc_Capacity = r_Capacity ?res, sc_ActivePartySize = seats k,
       sc_RemainingSeats = max 0 (r_Capacity ?res - seats k), sc_Available = (seats k < r_Capacity ?res)\<rparr>"
      using k by (simp add: slot_of_def Let_def algebra_simps max_def)
  qed
  finally have s: "?slots = \<dots>" .
  show ?thesis
    using res st slots peak least unfolding s by (simp add: comp_def)
qed

definition pier :: resource where
  "pier = \<lparr>r_ID = 7, r_Name = ''pier'', r_Description = [], r_Capacity = 4, r_CreatedAt = 0\<rparr>"

definition morning_booking :: booking where
  "morning_booking = \<lparr>b_ID = 20, b_UserID = 1, b_ResourceID = 7, b_GroupID = None, b_PartySize = 3, b_StartTime = 9 * hour,
     b_EndTime = 10 * hour, b_Status = StatusCheckedIn, b_Notes = [], b_SecureNotes = [], b_SecureNotesPlain = [],
     b_CreatedAt = 0, b_UpdatedAt = 0\<rparr>"

lemma availability_runs:
  assumes "calm w" and "row_by r_ID rid (resources (store w)) = Some res"
  shows "\<exists>a w'. ResourceService_Availability rid day w = (Inr a, w') \<and> ar_Resource a = res"
  unfolding ResourceService_Availability_def resources_Get_def bookings_ListByResourceOnDate_def
  using assms by (simp add: query_calm bindE_run summary_loop_bounds Let_def ret_def)

theorem availability_is_the_seat_count_witness:
  "\<exists>a w'. ResourceService_Availability 7 (5 * hour) (demo_world (empty_db\<lparr>resources := [pier], bookings := [morning_booking]\<rparr>) 0)
       = (Inr a, w') \<and>
     map sc_RemainingSeats (ar_Slots a) = [4, 1, 4, 4, 4, 4, 4, 4, 4, 4, 4, 4, 4, 4] \<and> ar_MinRemaining a = 1"
proof -
  let ?w = "demo_world (empty_db\<lparr>resources := [pier], bookings := [morning_booking]\<rparr>) 0"
  have "calm ?w" "row_by r_ID 7 (resources (store ?w)) = Some pier"
    by (simp_all add: row_by_def pier_def)
  then obtain a w' where run: "ResourceService_Availability 7 (5 * hour) ?w = (Inr a, w')" and cap: "ar_Resource a = pier"
    using availability_runs by blast
  have seats: "seats_in_window 7 s e (bookings (store ?w)) = (if 9 * hour < e \<and> 10 * hour > s then 3 else 0)" for s e
    by (simp add: seats_in_window_def morning_booking_def holds_seat_def overlaps_def)
  have d: "day_start (5 * hour) = 0" by (simp add: day_start_def)
  have "0 \<le> r_Capacity (ar_Resource a)" by (simp add: cap pier_def)
  note report = availability_is_the_seat_count [OF run this, unfolded d cap seats]
  have "map sc_RemainingSeats (ar_Slots a) = map (\<lambda>k. if k = 1 then 1 else 4) [0..<14]"
    using report by (auto simp: pier_def)
  moreover have "ar_MinRemaining a = fold min (map (\<lambda>k. if k = (1::nat) then 1 else 4) [0..<14]) 4"
    using report by (auto simp: pier_def intro!: fold_cong map_cong)
  moreover have "[0..<14] = [0, 1, 2, 3, 4, 5, 6, 7, 8, 9, 10, 11, 12, 13::nat]"
    by (simp add: upt_rec)
  ultimately show ?thesis using run by simp
qed

end
