(* ===== verification/Webhooks.thy ===== *)
theory Webhooks
  imports Accounts
begin

text \<open>
  Outbound webhooks: \<open>repository/webhook.go\<close> and \<open>service/webhook.go\<close>. What comes from outside the
  program is the record \<open>network\<close>: parsing a URL, the answers of the resolver and of the targets, each
  at the moment it is asked, and JSON. The list of a field mapping stands for the Go map, in the order
  in which it is ranged over.
\<close>

section \<open>The network\<close>

text \<open>An address is what \<open>net.IP\<close> normalises it to: IPv4 (also when written as mapped IPv6) or IPv6.\<close>

datatype ip = V4 "32 word" | V6 "128 word"

datatype cidr = C4 "32 word" nat | C6 "128 word" nat

record url =
  url_Scheme :: string
  url_Hostname :: string
  url_String :: string

record network =
  net_parse_url :: "string \<Rightarrow> url option"
  net_lookup :: "time \<Rightarrow> string \<Rightarrow> ip list option"
  net_post :: "time \<Rightarrow> http_request \<Rightarrow> (int \<times> string) option"
  net_request_ok :: "string \<Rightarrow> bool"
  net_unmarshal :: "string \<Rightarrow> (string \<times> string) list option"
  net_marshal :: "(string \<times> string) list \<Rightarrow> string"

text \<open>A question to the network is answered at some instant and may take any value.\<close>

definition ask :: "(time \<Rightarrow> 'a) \<Rightarrow> 'a action" where
  "ask f w = (Inr (f (clock w (readings w))), w\<lparr>readings := Suc (readings w)\<rparr>)"

text \<open>A request that is sent, whether or not an answer comes back; the world records it.\<close>

definition post_request :: "network \<Rightarrow> http_request \<Rightarrow> (int \<times> string) option action" where
  "post_request net q w =
     (Inr (net_post net (clock w (readings w)) q), w\<lparr>readings := Suc (readings w), posted := posted w @ [q]\<rparr>)"

section \<open>The repository\<close>

text \<open>
  A Go slice is \<open>nil\<close> (\<open>None\<close>) or allocated; the driver sends a nil slice as NULL, which the column
  \<open>event_filter\<close> refuses. A stored JSON text stands for the normal form \<open>JSONB\<close> gives it.
\<close>

definition webhooks_Create :: "webhook \<Rightarrow> webhook action" where
  "webhooks_Create h =
     bindE (if w_ID h = uuid_nil then new_uuid else ret (w_ID h)) (\<lambda>i.
     bindE (if w_CreatedAt h = zero_time then now else ret (w_CreatedAt h)) (\<lambda>t.
     let h' = h\<lparr>w_ID := i, w_CreatedAt := t\<rparr> in
     bindE (sql (\<lambda>_ d. if fresh_key w_ID (webhooks d) i \<and> w_EventFilter h \<noteq> None then Inr ((), d\<lparr>webhooks := webhooks d @ [h']\<rparr>) else Inl DBError))
       (\<lambda>_. ret h')))"

definition webhooks_List :: "webhook list action" where
  "webhooks_List = query (\<lambda>d. Inr (order_desc w_CreatedAt (webhooks d)))"

definition webhooks_Get :: "uuid \<Rightarrow> webhook action" where
  "webhooks_Get i = query (\<lambda>d. case row_by w_ID i (webhooks d) of None \<Rightarrow> Inl ErrNotFound | Some h \<Rightarrow> Inr h)"

definition webhooks_Disable :: "uuid \<Rightarrow> unit action" where
  "webhooks_Disable i = sql (\<lambda>_ d. Inr ((), d\<lparr>webhooks :=
     update_where (\<lambda>h. w_ID h = i) (\<lambda>h. h\<lparr>w_Enabled := False\<rparr>) (webhooks d)\<rparr>))"

definition delivery_insertable :: "db \<Rightarrow> webhook_delivery \<Rightarrow> bool" where
  "delivery_insertable d x \<longleftrightarrow>
     fresh_key wd_ID (webhook_deliveries d) (wd_ID x) \<and> references w_ID (webhooks d) (wd_WebhookID x) \<and>
     int4 (wd_Attempts x) \<and> wd_Status x \<in> {''pending'', ''delivered'', ''failed'', ''dead''}"

definition webhooks_EnqueueDelivery :: "webhook_delivery \<Rightarrow> webhook_delivery action" where
  "webhooks_EnqueueDelivery x =
     bindE (if wd_ID x = uuid_nil then new_uuid else ret (wd_ID x)) (\<lambda>i.
     bindE (if wd_CreatedAt x = zero_time then now else ret (wd_CreatedAt x)) (\<lambda>t.
     let x' = x\<lparr>wd_ID := i, wd_CreatedAt := t,
                wd_NextAttemptAt := (if wd_NextAttemptAt x = zero_time then t else wd_NextAttemptAt x),
                wd_Status := (if wd_Status x = [] then ''pending'' else wd_Status x)\<rparr> in
     bindE (sql (\<lambda>_ d. if delivery_insertable d x'
       then Inr ((), d\<lparr>webhook_deliveries := webhook_deliveries d @ [x']\<rparr>) else Inl DBError)) (\<lambda>_. ret x')))"

definition due_delivery :: "time \<Rightarrow> webhook_delivery \<Rightarrow> bool" where
  "due_delivery t x \<longleftrightarrow> wd_Status x = ''pending'' \<and> wd_NextAttemptAt x \<le> t"

definition webhooks_DequeuePending :: "time \<Rightarrow> int \<Rightarrow> webhook_delivery list action" where
  "webhooks_DequeuePending before limit = query (\<lambda>d. Inr (take (nat (if limit \<le> 0 \<or> limit > 100 then 25 else limit))
     (order_asc wd_NextAttemptAt (filter (due_delivery before) (webhook_deliveries d)))))"

text \<open>
  The \<open>CHECK\<close> on the status refuses none of the statuses the service writes, but the response text may
  hold bytes no \<open>TEXT\<close> takes.
\<close>

definition webhooks_UpdateDeliveryAttempt :: "uuid \<Rightarrow> int \<Rightarrow> string \<Rightarrow> string \<Rightarrow> time \<Rightarrow> unit action" where
  "webhooks_UpdateDeliveryAttempt i attempts status lastResponse nextAttempt = sql (\<lambda>_ d.
     if \<not> pg_text lastResponse then Inl DBError
     else Inr ((), d\<lparr>webhook_deliveries := update_where (\<lambda>x. wd_ID x = i)
       (\<lambda>x. x\<lparr>wd_Attempts := attempts, wd_Status := status, wd_LastResponse := lastResponse,
              wd_NextAttemptAt := nextAttempt\<rparr>) (webhook_deliveries d)\<rparr>))"

definition webhooks_ListDeliveries :: "int \<Rightarrow> webhook_delivery list action" where
  "webhooks_ListDeliveries limit = query (\<lambda>d. Inr (take (nat (if limit \<le> 0 \<or> limit > 200 then 50 else limit))
     (order_desc wd_CreatedAt (webhook_deliveries d))))"

section \<open>Where a webhook may point\<close>

definition WebhookMaxAttempts :: int where
  "WebhookMaxAttempts = 5"

definition ipv4 :: "int \<Rightarrow> int \<Rightarrow> int \<Rightarrow> int \<Rightarrow> 32 word" where
  "ipv4 a b c d = word_of_int (a * 16777216 + b * 65536 + c * 256 + d)"

definition AllowedWebhookCIDRs :: "cidr list" where
  "AllowedWebhookCIDRs = [C4 (ipv4 127 0 0 0) 8, C4 (ipv4 10 0 0 0) 8, C4 (ipv4 172 16 0 0) 12, C4 (ipv4 192 168 0 0) 16,
     C6 1 128, C6 (push_bit 120 0xFC) 7]"

definition AllowedWebhookHostnames :: "string list" where
  "AllowedWebhookHostnames = [''localhost'', ''db'', ''app'', ''tests'']"

fun cidr_contains :: "cidr \<Rightarrow> ip \<Rightarrow> bool" where
  "cidr_contains (C4 net n) (V4 a) = (drop_bit (32 - n) a = drop_bit (32 - n) net)"
| "cidr_contains (C6 net n) (V6 a) = (drop_bit (128 - n) a = drop_bit (128 - n) net)"
| "cidr_contains _ _ = False"

definition isLocalIP :: "ip \<Rightarrow> bool" where
  "isLocalIP a = list_ex (\<lambda>c. cidr_contains c a) AllowedWebhookCIDRs"

text \<open>\<open>strings.EqualFold\<close> against a lower-case ASCII name (no other letter folds to those used).\<close>

definition ValidateWebhookTargetURL :: "network \<Rightarrow> string \<Rightarrow> (string + url) action" where
  "ValidateWebhookTargetURL net raw =
     (if raw = [] then ret (Inl ''target_url is required'')
      else case net_parse_url net raw of
        None \<Rightarrow> ret (Inl ''parse url'')
      | Some u \<Rightarrow>
          if url_Scheme u \<noteq> ''http'' \<and> url_Scheme u \<noteq> ''https'' then ret (Inl ''scheme not allowed'')
          else if url_Hostname u = [] then ret (Inl ''missing host'')
          else if ascii_lower (url_Hostname u) \<in> set AllowedWebhookHostnames then ret (Inr u)
          else bindE (ask (\<lambda>t. net_lookup net t (url_Hostname u))) (\<lambda>answer.
            case answer of
              None \<Rightarrow> ret (Inl ''resolve'')
            | Some [] \<Rightarrow> ret (Inl ''no addresses'')
            | Some addrs \<Rightarrow> if list_all isLocalIP addrs then ret (Inr u)
                            else ret (Inl ''host resolves to non-local address'')))"

section \<open>The service\<close>

definition WebhookService_Create :: "network \<Rightarrow> webhook \<Rightarrow> webhook action" where
  "WebhookService_Create net h =
     (if w_Name h = [] then fail ErrInvalidInput
      else bindE (ValidateWebhookTargetURL net (w_TargetURL h)) (\<lambda>v.
        case v of
          Inl _ \<Rightarrow> fail ErrInvalidInput
        | Inr u \<Rightarrow> webhooks_Create (h\<lparr>w_TargetURL := url_String u, w_Enabled := True\<rparr>)))"

definition WebhookService_List :: "webhook list action" where
  "WebhookService_List = webhooks_List"

definition WebhookService_Disable :: "uuid \<Rightarrow> unit action" where
  "WebhookService_Disable i = webhooks_Disable i"

definition filterAccepts :: "string list option \<Rightarrow> string \<Rightarrow> bool" where
  "filterAccepts flt eventType =
     (case flt of None \<Rightarrow> True | Some fs \<Rightarrow> fs = [] \<or> list_ex (\<lambda>f. f = ''*'' \<or> f = eventType) fs)"

text \<open>A decoded JSON object is the list of its members; \<open>m[tgt] = v; delete(m, src)\<close>.\<close>

definition rename_member :: "string \<times> string \<Rightarrow> (string \<times> string) list \<Rightarrow> (string \<times> string) list" where
  "rename_member st m =
     (case st of (src, tgt) \<Rightarrow>
        case map_of m src of
          None \<Rightarrow> m
        | Some v \<Rightarrow>
            let m' = (tgt, v) # filter (\<lambda>kv. fst kv \<noteq> tgt) m
            in if src \<noteq> tgt then filter (\<lambda>kv. fst kv \<noteq> src) m' else m')"

definition applyFieldMapping :: "network \<Rightarrow> string \<Rightarrow> (string \<times> string) list \<Rightarrow> string" where
  "applyFieldMapping net body mapping =
     (if mapping = [] then body
      else case net_unmarshal net body of
        None \<Rightarrow> body
      | Some m \<Rightarrow> net_marshal net (fold rename_member mapping m))"

definition emit_one :: "network \<Rightarrow> string \<Rightarrow> string \<Rightarrow> time \<Rightarrow> webhook \<Rightarrow> unit action" where
  "emit_one net eventType body t h =
     (if \<not> w_Enabled h then ret ()
      else if \<not> filterAccepts (w_EventFilter h) eventType then ret ()
      else ignoring (webhooks_EnqueueDelivery
        \<lparr>wd_ID = uuid_nil, wd_WebhookID = w_ID h, wd_EventType = eventType,
         wd_Payload = applyFieldMapping net body (w_FieldMapping h), wd_Attempts = 0, wd_NextAttemptAt = t,
         wd_Status = ''pending'', wd_LastResponse = [], wd_CreatedAt = zero_time\<rparr>) (ret ()))"

text \<open>\<open>body\<close> is the encoded payload; encoding a value of the program's own types does not fail.\<close>

definition WebhookService_Emit :: "network \<Rightarrow> string \<Rightarrow> string \<Rightarrow> unit action" where
  "WebhookService_Emit net eventType body =
     bindE webhooks_List (\<lambda>hooks.
     bindE now (\<lambda>t. for_each (emit_one net eventType body t) hooks))"

text \<open>\<open>time.Duration(1<<uint(attempts-1)) * time.Second\<close>; the service calls it for at most four attempts.\<close>

definition WebhookBackoff :: "int \<Rightarrow> duration" where
  "WebhookBackoff attempts =
     (if attempts \<le> 0 then 0
      else sint (push_bit (nat (attempts - 1)) 1 * word_of_int second :: 64 word))"

definition NextWebhookStatus :: "int \<Rightarrow> string" where
  "NextWebhookStatus attempts = (if attempts \<ge> WebhookMaxAttempts then ''dead'' else ''pending'')"

definition handleFailure :: "uuid \<Rightarrow> int \<Rightarrow> string \<Rightarrow> unit action" where
  "handleFailure i attempts reason =
     (if NextWebhookStatus attempts = ''dead''
      then bindE now (\<lambda>t. ignoring (webhooks_UpdateDeliveryAttempt i attempts ''dead'' reason t) (ret ()))
      else bindE now (\<lambda>t. ignoring (webhooks_UpdateDeliveryAttempt i attempts ''pending'' reason
             (t + WebhookBackoff attempts)) (ret ())))"

definition delivery_request :: "webhook \<Rightarrow> webhook_delivery \<Rightarrow> http_request" where
  "delivery_request hook x =
     \<lparr>hr_URL = w_TargetURL hook,
      hr_Headers = [(''Content-Type'', ''application/json''), (''X-HarborWorks-Event'', wd_EventType x)] @
        (if w_Secret hook \<noteq> [] then [(''X-HarborWorks-Secret'', w_Secret hook)] else []),
      hr_Body = wd_Payload x\<rparr>"

definition response_text :: "int \<Rightarrow> string \<Rightarrow> string" where
  "response_text status body = go_decimal status @ '' '' @ take 4096 body"

definition give_up :: "uuid \<Rightarrow> int \<Rightarrow> string \<Rightarrow> unit action" where
  "give_up i attempts reason =
     bindE now (\<lambda>t. ignoring (webhooks_UpdateDeliveryAttempt i attempts ''failed'' reason (t + hour)) (ret ()))"

definition attempt_delivery :: "network \<Rightarrow> webhook_delivery \<Rightarrow> unit action" where
  "attempt_delivery net x =
     attempt (webhooks_Get (wd_WebhookID x)) (\<lambda>r.
     case r of
       Inl _ \<Rightarrow> give_up (wd_ID x) (wd_Attempts x + 1) ''missing webhook''
     | Inr hook \<Rightarrow>
         bindE (ValidateWebhookTargetURL net (w_TargetURL hook)) (\<lambda>v.
         case v of
           Inl why \<Rightarrow> handleFailure (wd_ID x) (wd_Attempts x + 1) (''blocked: '' @ why)
         | Inr _ \<Rightarrow>
             if \<not> net_request_ok net (w_TargetURL hook)
             then give_up (wd_ID x) (wd_Attempts x + 1) ''bad request''
             else bindE (post_request net (delivery_request hook x)) (\<lambda>answer.
               case answer of
                 None \<Rightarrow> handleFailure (wd_ID x) (wd_Attempts x + 1) ''transport error''
               | Some (status, body) \<Rightarrow>
                   if 200 \<le> status \<and> status < 300
                   then bindE now (\<lambda>t. ignoring (webhooks_UpdateDeliveryAttempt (wd_ID x) (wd_Attempts x + 1)
                          ''delivered'' (response_text status body) t) (ret ()))
                   else handleFailure (wd_ID x) (wd_Attempts x + 1) (response_text status body))))"

definition WebhookService_RunDeliveryCycle :: "network \<Rightarrow> unit action" where
  "WebhookService_RunDeliveryCycle net =
     bindE now (\<lambda>t. bindE (webhooks_DequeuePending t 25) (for_each (attempt_delivery net)))"

definition WebhookService_Deliveries :: "int \<Rightarrow> webhook_delivery list action" where
  "WebhookService_Deliveries limit = webhooks_ListDeliveries limit"

section \<open>Where a webhook may point, spelled out\<close>

lemma local_v4:
  "isLocalIP (V4 a) \<longleftrightarrow> drop_bit 24 a \<in> {127, 10} \<or> drop_bit 20 a = 0xAC1 \<or> drop_bit 16 a = 0xC0A8"
  by (simp add: isLocalIP_def AllowedWebhookCIDRs_def ipv4_def disj_ac)

lemma local_v6: "isLocalIP (V6 a) \<longleftrightarrow> a = 1 \<or> drop_bit 121 a = 0x7E"
  by (simp add: isLocalIP_def AllowedWebhookCIDRs_def)

section \<open>The life of a delivery\<close>

lemma backoff_schedule: "1 \<le> n \<Longrightarrow> n < 5 \<Longrightarrow> WebhookBackoff n = 2 ^ nat (n - 1) * second"
proof -
  assume "1 \<le> n" "n < 5"
  then have "n = 1 \<or> n = 2 \<or> n = 3 \<or> n = 4" by arith
  then show ?thesis by (elim disjE) (simp_all add: WebhookBackoff_def)
qed

definition set_attempt :: "uuid \<Rightarrow> int \<Rightarrow> string \<Rightarrow> string \<Rightarrow> time \<Rightarrow> db \<Rightarrow> db" where
  "set_attempt i n status response t d = d\<lparr>webhook_deliveries := update_where (\<lambda>x. wd_ID x = i)
     (\<lambda>x. x\<lparr>wd_Attempts := n, wd_Status := status, wd_LastResponse := response, wd_NextAttemptAt := t\<rparr>) (webhook_deliveries d)\<rparr>"

text \<open>
  What an attempt at a delivery that had \<open>n\<close> attempts may write: the delivery is settled, or it waits
  for another attempt after the doubled delay. \<open>tried\<close> is a row before and after.
\<close>

definition outcome :: "(nat \<Rightarrow> time) \<Rightarrow> int \<Rightarrow> string \<Rightarrow> time \<Rightarrow> bool" where
  "outcome clk n status t \<longleftrightarrow> status = ''delivered'' \<or> status = ''failed'' \<or> status = ''dead'' \<and> 5 \<le> n + 1 \<or>
     status = ''pending'' \<and> n + 1 < 5 \<and> t \<in> (\<lambda>k. clk k + 2 ^ nat n * second) ` UNIV"

definition tried :: "(nat \<Rightarrow> time) \<Rightarrow> webhook_delivery \<Rightarrow> webhook_delivery \<Rightarrow> bool" where
  "tried clk x y \<longleftrightarrow> (\<exists>status response t. outcome clk (wd_Attempts x) status t \<and>
     y = x\<lparr>wd_Attempts := wd_Attempts x + 1, wd_Status := status, wd_LastResponse := response, wd_NextAttemptAt := t\<rparr>)"

definition settles :: "db world \<Rightarrow> uuid \<Rightarrow> int \<Rightarrow> unit action \<Rightarrow> bool" where
  "settles w i n m \<longleftrightarrow> (\<exists>status response t. outcome (clock w) n status t \<and>
     store (snd (m w)) = set_attempt i (n + 1) status response t (store w))"

lemma update_then_ret:
  "calm w \<Longrightarrow> pg_text resp \<Longrightarrow> store (snd (ignoring (webhooks_UpdateDeliveryAttempt i n st resp t) (ret ()) w)) = set_attempt i n st resp t (store w)"
  by (simp add: webhooks_UpdateDeliveryAttempt_def ignoring_def attempt_def sql_calm ret_def set_attempt_def)

lemma settles_now:
  assumes "calm w" and "pg_text resp" and "\<And>t. t \<in> range (clock w) \<Longrightarrow> outcome (clock w) n status (f t)"
  shows "settles w i n (bindE now (\<lambda>t. ignoring (webhooks_UpdateDeliveryAttempt i (n + 1) status resp (f t)) (ret ())))"
  unfolding settles_def bindE_def now_def using assms by (auto simp: update_then_ret intro!: exI)

lemma handleFailure_settles: "calm w \<Longrightarrow> pg_text reason \<Longrightarrow> 0 \<le> n \<Longrightarrow> settles w i n (handleFailure i (n + 1) reason)"
  unfolding handleFailure_def NextWebhookStatus_def WebhookMaxAttempts_def
  by (cases "5 \<le> n + 1") (auto simp: outcome_def backoff_schedule intro!: settles_now [where f = "\<lambda>t. t"] settles_now)

lemma give_up_settles: "calm w \<Longrightarrow> pg_text reason \<Longrightarrow> settles w i n (give_up i (n + 1) reason)"
  unfolding give_up_def by (rule settles_now) (simp_all add: outcome_def)

text \<open>Steps that only read move a claim about the rest back to where they started.\<close>

lemma settles_after:
  "store w' = store w \<Longrightarrow> clock w' = clock w \<Longrightarrow> m w = (Inr x, w') \<Longrightarrow> settles w' i n (k x) \<Longrightarrow> settles w i n (bindE m k)"
  by (simp add: settles_def bindE_def)

lemma settles_attempt:
  "store w' = store w \<Longrightarrow> clock w' = clock w \<Longrightarrow> m w = (r, w') \<Longrightarrow> settles w' i n (k r) \<Longrightarrow> settles w i n (attempt m k)"
  by (simp add: settles_def attempt_def)

lemma ask_run: "ask f w = (Inr (f (clock w (readings w))), w\<lparr>readings := Suc (readings w)\<rparr>)"
  by (simp add: ask_def)

lemma post_run: "post_request net q w =
  (Inr (net_post net (clock w (readings w)) q), w\<lparr>readings := Suc (readings w), posted := posted w @ [q]\<rparr>)"
  by (simp add: post_request_def)

lemma validate_run:
  obtains v w' where "ValidateWebhookTargetURL net raw w = (Inr v, w')" "store w' = store w" "clock w' = clock w" "calm w' = calm w"
    "\<And>why. v = Inl why \<Longrightarrow> pg_text (''blocked: '' @ why)"
proof -
  have "\<exists>v w'. ValidateWebhookTargetURL net raw w = (Inr v, w') \<and> store w' = store w \<and> clock w' = clock w \<and> calm w' = calm w \<and>
      (\<forall>why. v = Inl why \<longrightarrow> list_all (\<lambda>c. 0 < (of_char c :: nat) \<and> (of_char c :: nat) < 128) why)"
    by (auto simp: ValidateWebhookTargetURL_def bindE_def ask_def ret_def split: option.splits list.splits)
  moreover have "pg_text (''blocked: '' @ why)" if "list_all (\<lambda>c. 0 < (of_char c :: nat) \<and> (of_char c :: nat) < 128) why" for why
    using pg_text_ascii [of "''blocked: '' @ why" "[]"] that by simp
  ultimately show thesis using that by blast
qed

lemma fixed_reasons: "pg_text ''missing webhook''" "pg_text ''bad request''" "pg_text ''transport error''"
  using pg_text_ascii [of "''missing webhook''" "[]"] pg_text_ascii [of "''bad request''" "[]"] pg_text_ascii [of "''transport error''" "[]"]
  by simp_all

text \<open>Targets whose answers, cut to 4096 bytes, the database can store.\<close>

definition storable_answers :: "network \<Rightarrow> bool" where
  "storable_answers net \<longleftrightarrow> (\<forall>t q status body. net_post net t q = Some (status, body) \<longrightarrow> pg_text (response_text status body))"

lemma attempt_delivery_settles:
  assumes "calm w" "0 \<le> wd_Attempts x" "storable_answers net"
  shows "settles w (wd_ID x) (wd_Attempts x) (attempt_delivery net x)"
proof -
  let ?w = "w\<lparr>readings := Suc (readings w), stmts := Suc (stmts w)\<rparr>"
  have get: "webhooks_Get (wd_WebhookID x) w =
      (case row_by w_ID (wd_WebhookID x) (webhooks (store w)) of None \<Rightarrow> Inl ErrNotFound | Some h \<Rightarrow> Inr h, ?w)"
    using assms by (simp add: webhooks_Get_def query_calm)
  show ?thesis
    unfolding attempt_delivery_def
  proof (rule settles_attempt [where w' = ?w and r = "case row_by w_ID (wd_WebhookID x) (webhooks (store w)) of
        None \<Rightarrow> Inl ErrNotFound | Some h \<Rightarrow> Inr h"], goal_cases)
    case 4
    show ?case
    proof (cases "row_by w_ID (wd_WebhookID x) (webhooks (store w))")
      case None
      then show ?thesis using assms by (simp add: give_up_settles fixed_reasons)
    next
      case (Some hook)
      obtain v w1 where v: "ValidateWebhookTargetURL net (w_TargetURL hook) ?w = (Inr v, w1)" "store w1 = store ?w"
          "clock w1 = clock ?w" "calm w1" "\<And>why. v = Inl why \<Longrightarrow> pg_text (''blocked: '' @ why)"
        using assms(1) by (metis calm_ticks(1,2) validate_run)
      have post: "settles w1 (wd_ID x) (wd_Attempts x) (bindE (post_request net (delivery_request hook x)) (\<lambda>answer.
               case answer of
                 None \<Rightarrow> handleFailure (wd_ID x) (wd_Attempts x + 1) ''transport error''
               | Some (status, body) \<Rightarrow>
                   if 200 \<le> status \<and> status < 300
                   then bindE now (\<lambda>t. ignoring (webhooks_UpdateDeliveryAttempt (wd_ID x) (wd_Attempts x + 1)
                          ''delivered'' (response_text status body) t) (ret ()))
                   else handleFailure (wd_ID x) (wd_Attempts x + 1) (response_text status body)))"
        by (rule settles_after [OF _ _ post_run])
          (use assms v in \<open>auto simp: handleFailure_settles fixed_reasons storable_answers_def outcome_def simp del: append.simps intro!: settles_now split: option.splits\<close>)
      show ?thesis
        unfolding Some option.case sum.case
        by (rule settles_after [where w' = w1 and x = v])
          (use v assms post in \<open>auto simp: handleFailure_settles give_up_settles fixed_reasons simp del: append.simps split: sum.splits\<close>)
    qed
  qed (simp_all add: get)
qed

lemma attempt_delivery_oracles: "keeps_oracles (attempt_delivery net x)"
proof -
  have upd: "keeps_oracles (webhooks_UpdateDeliveryAttempt i n st resp t)" for i n st resp t
    unfolding webhooks_UpdateDeliveryAttempt_def by (intro oracle_rules)
  have ask: "keeps_oracles (ask f)" for f :: "time \<Rightarrow> 'b"
    by (simp add: keeps_oracles_def ask_def)
  have post: "keeps_oracles (post_request net q)" for q
    by (simp add: keeps_oracles_def post_request_def)
  have fl: "keeps_oracles (handleFailure i n reason)" "keeps_oracles (give_up i n reason)" for i n reason
    unfolding handleFailure_def give_up_def by (intro oracle_rules upd)+
  have val: "keeps_oracles (ValidateWebhookTargetURL net raw)" for raw
    unfolding keeps_oracles_def Let_def ValidateWebhookTargetURL_def
    by (auto simp: bindE_def ask_def ret_def split: option.splits list.splits)
  show ?thesis
    unfolding attempt_delivery_def webhooks_Get_def by (intro oracle_rules fl val ask post upd)
qed

definition deliveries_ok :: "db \<Rightarrow> bool" where
  "deliveries_ok d \<longleftrightarrow> distinct_keys wd_ID (webhook_deliveries d) \<and>
     list_all (\<lambda>x. 0 \<le> wd_Attempts x \<and> (wd_Status x = ''pending'' \<longrightarrow> wd_Attempts x < 5)) (webhook_deliveries d)"

definition due_now :: "time \<Rightarrow> db \<Rightarrow> webhook_delivery list" where
  "due_now t d = take 25 (order_asc wd_NextAttemptAt (filter (due_delivery t) (webhook_deliveries d)))"

definition retries_left :: "db \<Rightarrow> int" where
  "retries_left d = sum_list (map (\<lambda>x. if wd_Status x = ''pending'' then 5 - wd_Attempts x else 0) (webhook_deliveries d))"

lemma set_attempt_rows:
  assumes "x \<in> set (webhook_deliveries d)" "distinct_keys wd_ID (webhook_deliveries d)" "outcome clk (wd_Attempts x) status t"
  shows "list_all2 (\<lambda>y z. if wd_ID y = wd_ID x then tried clk y z else z = y)
    (webhook_deliveries d) (webhook_deliveries (set_attempt (wd_ID x) (wd_Attempts x + 1) status response t d))"
proof -
  have same: "y = x" if "y \<in> set (webhook_deliveries d)" "wd_ID y = wd_ID x" for y
    using that assms(1,2) by (metis option.inject row_by_unique)
  have "tried clk x (x\<lparr>wd_Attempts := wd_Attempts x + 1, wd_Status := status, wd_LastResponse := response, wd_NextAttemptAt := t\<rparr>)"
    using assms(3) unfolding tried_def by blast
  then show ?thesis
    unfolding set_attempt_def update_where_def
    by (auto simp: list.rel_map dest: same intro!: list.rel_refl_strong)
qed

lemma tried_ID: "tried clk x y \<Longrightarrow> wd_ID y = wd_ID x"
  by (auto simp: tried_def)

lemma tried_attempts: "tried clk x y \<Longrightarrow> wd_Attempts y = wd_Attempts x + 1"
  by (auto simp: tried_def)

lemma tried_pending: "tried clk x y \<Longrightarrow> wd_Status y = ''pending'' \<Longrightarrow> wd_Attempts y < 5"
  by (auto simp: tried_def outcome_def)

lemma cycle_rows:
  assumes "storable_answers net" and "calm w" "distinct_keys wd_ID (webhook_deliveries (store w))" "distinct_keys wd_ID ps"
    and "set ps \<subseteq> set (webhook_deliveries (store w))" "list_all (\<lambda>x. 0 \<le> wd_Attempts x) ps"
  shows "list_all2 (\<lambda>y z. if wd_ID y \<in> wd_ID ` set ps then tried (clock w) y z else z = y)
    (webhook_deliveries (store w)) (webhook_deliveries (store (snd (for_each (attempt_delivery net) ps w))))"
  using assms(2-)
proof (induction ps arbitrary: w)
  case Nil
  then show ?case by (simp add: ret_def list.rel_refl)
next
  case (Cons p ps)
  obtain r1 w1 where run: "attempt_delivery net p w = (r1, w1)" by (cases "attempt_delivery net p w")
  note kept = keeps_oraclesD [OF attempt_delivery_oracles run] keeps_oracles_calm [OF attempt_delivery_oracles run]
  obtain status response t where out: "outcome (clock w) (wd_Attempts p) status t"
    and st: "store w1 = set_attempt (wd_ID p) (wd_Attempts p + 1) status response t (store w)"
    using attempt_delivery_settles [of w p net] assms(1) Cons.prems run by (auto simp: settles_def)
  let ?ds = "webhook_deliveries (store w)" and ?ds1 = "webhook_deliveries (store w1)"
  have first: "list_all2 (\<lambda>y z. if wd_ID y = wd_ID p then tried (clock w) y z else z = y) ?ds ?ds1"
    unfolding st by (rule set_attempt_rows [OF _ Cons.prems(2) out]) (use Cons.prems in simp)
  have "distinct_keys wd_ID ?ds1"
    using Cons.prems(2) by (simp add: st set_attempt_def distinct_keys_update)
  moreover have "set ps \<subseteq> set ?ds1"
  proof
    fix x
    assume x: "x \<in> set ps"
    then have "wd_ID x \<noteq> wd_ID p" using Cons.prems(3) by (auto simp: distinct_keys_def image_iff)
    with x Cons.prems(4) show "x \<in> set ?ds1"
      by (auto simp: st set_attempt_def set_update_where intro!: image_eqI [of _ _ x])
  qed
  moreover have "distinct_keys wd_ID ps" "list_all (\<lambda>x. 0 \<le> wd_Attempts x) ps"
    using Cons.prems by (simp_all add: distinct_keys_def)
  ultimately have rest: "list_all2 (\<lambda>y z. if wd_ID y \<in> wd_ID ` set ps then tried (clock w) y z else z = y) ?ds1
      (webhook_deliveries (store (snd (for_each (attempt_delivery net) ps w1))))"
    using Cons.IH [of w1] Cons.prems(1) kept(2) unfolding conjunct1 [OF kept(1)] by blast
  have "wd_ID p \<notin> wd_ID ` set ps" using Cons.prems(3) by (simp add: distinct_keys_def)
  then show ?case
    using run by (simp add: ignoring_def attempt_def)
      (rule list_all2_trans [OF _ first rest], auto split: if_splits dest: tried_ID)
qed

lemma left_decreases:
  assumes "list_all2 (\<lambda>x y. if Q x then tried clk x y else y = x) xs ys"
    and "list_all (\<lambda>x. Q x \<longrightarrow> wd_Status x = ''pending'' \<and> wd_Attempts x < 5) xs"
  shows "sum_list (map (\<lambda>x. if wd_Status x = ''pending'' then 5 - wd_Attempts x else 0) ys) + int (length (filter Q xs))
    \<le> sum_list (map (\<lambda>x. if wd_Status x = ''pending'' then 5 - wd_Attempts x else 0) xs)"
  using assms
proof (induction rule: list_all2_induct)
  case (Cons x xs y ys)
  have "wd_Attempts y = wd_Attempts x + 1" if "tried clk x y"
    using that by (rule tried_attempts)
  then show ?case using Cons by (auto split: if_splits)
qed simp

lemma due_now_due:
  assumes "deliveries_ok d"
  shows "set (due_now t d) \<subseteq> {x \<in> set (webhook_deliveries d). due_delivery t x}" "distinct_keys wd_ID (due_now t d)"
proof -
  let ?f = "filter (due_delivery t) (webhook_deliveries d)"
  have "set (due_now t d) \<subseteq> set ?f"
    unfolding due_now_def order_asc_def by (metis set_sort set_take_subset)
  then show "set (due_now t d) \<subseteq> {x \<in> set (webhook_deliveries d). due_delivery t x}" by auto
  have "distinct (map wd_ID ?f)"
    using assms by (simp add: deliveries_ok_def distinct_keys_def distinct_map_filter)
  then have "distinct (map wd_ID (sort_key wd_NextAttemptAt ?f))"
    by (metis distinct_map distinct_sort set_sort)
  then show "distinct_keys wd_ID (due_now t d)"
    by (simp add: due_now_def order_asc_def distinct_keys_def take_map [symmetric])
qed

lemma selected_count:
  assumes "distinct_keys wd_ID ds" "distinct_keys wd_ID ps" "set ps \<subseteq> set ds"
  shows "length (filter (\<lambda>x. wd_ID x \<in> wd_ID ` set ps) ds) = length ps"
proof -
  let ?f = "filter (\<lambda>x. wd_ID x \<in> wd_ID ` set ps) ds"
  have "set ?f = set ps"
    using assms(1,3) by (auto simp: distinct_keys_def distinct_map dest: inj_onD)
  moreover have "distinct ?f" "distinct ps"
    using assms by (simp_all add: distinct_keys_def distinct_map)
  ultimately show ?thesis by (metis distinct_card)
qed

lemma rows_stay_ok:
  assumes "list_all2 (\<lambda>x y. if Q x then tried clk x y else y = x) xs ys"
    and "list_all (\<lambda>x. 0 \<le> wd_Attempts x \<and> (wd_Status x = ''pending'' \<longrightarrow> wd_Attempts x < 5)) xs"
  shows "list_all (\<lambda>x. 0 \<le> wd_Attempts x \<and> (wd_Status x = ''pending'' \<longrightarrow> wd_Attempts x < 5)) ys \<and> map wd_ID ys = map wd_ID xs"
  using assms
  by (induction rule: list_all2_induct) (auto split: if_splits dest: tried_ID tried_attempts tried_pending)

lemma emitted_deliveries_ok: "preserves deliveries_ok (WebhookService_Emit net eventType body)"
proof -
  have "preserves deliveries_ok (webhooks_EnqueueDelivery x)" if x: "wd_Attempts x = 0" for x
    unfolding webhooks_EnqueueDelivery_def Let_def
    by (intro store_rules preserves_sql)
      (auto simp: deliveries_ok_def delivery_insertable_def fresh_key_iff distinct_keys_append x split: if_splits)
  then have "preserves deliveries_ok (emit_one net eventType body t h)" for t h
    unfolding emit_one_def by (intro store_rules) simp_all
  then show ?thesis
    unfolding WebhookService_Emit_def webhooks_List_def by (intro store_rules preserves_for_each)
qed


text \<open>A target that never answers, at its fourth and then at its fifth attempt.\<close>

definition demo_network :: network where
  "demo_network = \<lparr>net_parse_url = (\<lambda>s. Some \<lparr>url_Scheme = ''http'', url_Hostname = ''app'', url_String = s\<rparr>),
     net_lookup = (\<lambda>_ _. None), net_post = (\<lambda>_ _. None), net_request_ok = (\<lambda>_. True), net_unmarshal = (\<lambda>_. None),
     net_marshal = (\<lambda>_. [])\<rparr>"

definition demo_hook :: webhook where
  "demo_hook = \<lparr>w_ID = 7, w_Name = ''hook'', w_TargetURL = ''http://app/'', w_EventFilter = Some [], w_FieldMapping = [],
     w_Secret = [], w_Enabled = True, w_CreatedAt = 1\<rparr>"

definition demo_delivery :: "int \<Rightarrow> string \<Rightarrow> string \<Rightarrow> time \<Rightarrow> webhook_delivery" where
  "demo_delivery n status response t = \<lparr>wd_ID = 1, wd_WebhookID = 7, wd_EventType = ''booking'', wd_Payload = ''{}'',
     wd_Attempts = n, wd_NextAttemptAt = t, wd_Status = status, wd_LastResponse = response, wd_CreatedAt = 1\<rparr>"

definition outbox :: "webhook_delivery \<Rightarrow> db" where
  "outbox x = empty_db\<lparr>webhooks := [demo_hook], webhook_deliveries := [x]\<rparr>"


section \<open>Answers the database cannot store\<close>

definition ready_hook :: "network \<Rightarrow> webhook list \<Rightarrow> webhook_delivery \<Rightarrow> bool" where
  "ready_hook net hooks x \<longleftrightarrow> (case row_by w_ID (wd_WebhookID x) hooks of
     None \<Rightarrow> False
   | Some h \<Rightarrow> w_TargetURL h \<noteq> [] \<and> net_request_ok net (w_TargetURL h) \<and>
       (case net_parse_url net (w_TargetURL h) of
          None \<Rightarrow> False
        | Some u \<Rightarrow> url_Scheme u = ''http'' \<and> url_Hostname u \<noteq> [] \<and> ascii_lower (url_Hostname u) \<in> set AllowedWebhookHostnames))"

text \<open>Actions that send nothing.\<close>

definition silent :: "'a action \<Rightarrow> bool" where
  "silent m \<longleftrightarrow> (\<forall>w. posted (snd (m w)) = posted w)"

lemma silent_basic: "silent (ret x)" "silent now" "silent (sql f)"
  by (auto simp: silent_def ret_def now_def sql_def Let_def split: sum.splits)

lemma silent_bindE: "silent m \<Longrightarrow> (\<And>x. silent (k x)) \<Longrightarrow> silent (bindE m k)"
  by (simp add: silent_def bindE_def split: prod.splits sum.splits) (metis snd_conv)

lemma silent_ignoring: "silent m \<Longrightarrow> silent k \<Longrightarrow> silent (ignoring m k)"
  by (simp add: silent_def ignoring_def attempt_def split: prod.splits) (metis snd_conv)

lemmas silent_rules = silent_basic silent_bindE silent_ignoring

lemma garbled_update_changes_nothing:
  assumes "\<not> pg_text resp"
  shows "store (snd (handleFailure i n resp w)) = store w"
    and "store (snd (bindE now (\<lambda>t. ignoring (webhooks_UpdateDeliveryAttempt i n st resp t) (ret ())) w)) = store w"
proof -
  have "readonly (webhooks_UpdateDeliveryAttempt i n st resp t)" for i n st t
    using assms by (auto simp: readonly_def webhooks_UpdateDeliveryAttempt_def sql_def Let_def)
  then have "readonly (handleFailure i n resp)" and
    "readonly (bindE now (\<lambda>t. ignoring (webhooks_UpdateDeliveryAttempt i n st resp t) (ret ())))"
    unfolding handleFailure_def by (intro store_rules; simp)+
  then show "store (snd (handleFailure i n resp w)) = store w"
    and "store (snd (bindE now (\<lambda>t. ignoring (webhooks_UpdateDeliveryAttempt i n st resp t) (ret ())) w)) = store w"
    by (simp_all add: readonly_def)
qed

lemma updates_send_nothing:
  "posted (snd (handleFailure i n resp w)) = posted w"
  "posted (snd (bindE now (\<lambda>t. ignoring (webhooks_UpdateDeliveryAttempt i n st resp t) (ret ())) w)) = posted w"
proof -
  have "silent (handleFailure i n resp)"
    unfolding handleFailure_def webhooks_UpdateDeliveryAttempt_def by (cases "NextWebhookStatus n = ''dead''") (simp_all add: silent_rules)
  moreover have "silent (bindE now (\<lambda>t. ignoring (webhooks_UpdateDeliveryAttempt i n st resp t) (ret ())))"
    unfolding webhooks_UpdateDeliveryAttempt_def by (intro silent_rules)
  ultimately show "posted (snd (handleFailure i n resp w)) = posted w"
    "posted (snd (bindE now (\<lambda>t. ignoring (webhooks_UpdateDeliveryAttempt i n st resp t) (ret ())) w)) = posted w"
    by (simp_all add: silent_def)
qed

text \<open>The request that carries a queued event to its webhook.\<close>

definition request_for :: "webhook list \<Rightarrow> webhook_delivery \<Rightarrow> http_request" where
  "request_for hooks x =
     (let h = the (row_by w_ID (wd_WebhookID x) hooks)
      in \<lparr>hr_URL = w_TargetURL h,
          hr_Headers = (''Content-Type'', ''application/json'') # (''X-HarborWorks-Event'', wd_EventType x) #
            (if w_Secret h = [] then [] else [(''X-HarborWorks-Secret'', w_Secret h)]),
          hr_Body = wd_Payload x\<rparr>)"

definition unstorable_answers :: "network \<Rightarrow> bool" where
  "unstorable_answers net \<longleftrightarrow> (\<forall>t q. \<exists>status body. net_post net t q = Some (status, body) \<and> \<not> pg_text (response_text status body))"

lemma garbled_attempt:
  assumes "calm w" "ready_hook net (webhooks (store w)) x" "unstorable_answers net"
  shows "store (snd (attempt_delivery net x w)) = store w"
    and "posted (snd (attempt_delivery net x w)) = posted w @ [request_for (webhooks (store w)) x]"
proof -
  let ?w = "w\<lparr>readings := Suc (readings w), stmts := Suc (stmts w)\<rparr>"
  obtain h u where h: "row_by w_ID (wd_WebhookID x) (webhooks (store w)) = Some h" "net_request_ok net (w_TargetURL h)" "w_TargetURL h \<noteq> []"
    and u: "net_parse_url net (w_TargetURL h) = Some u" "url_Scheme u = ''http''" "url_Hostname u \<noteq> []"
      "ascii_lower (url_Hostname u) \<in> set AllowedWebhookHostnames"
    using assms(2) by (auto simp: ready_hook_def split: option.splits)
  have get: "webhooks_Get (wd_WebhookID x) w = (Inr h, ?w)"
    using assms(1) h by (simp add: webhooks_Get_def query_calm)
  have val: "ValidateWebhookTargetURL net (w_TargetURL h) ?w = (Inr (Inr u), ?w)"
    using h u by (simp add: ValidateWebhookTargetURL_def ret_def)
  have q: "delivery_request h x = request_for (webhooks (store w)) x"
    using h by (simp add: delivery_request_def request_for_def Let_def)
  obtain status body where post: "net_post net (clock ?w (readings ?w)) (request_for (webhooks (store w)) x) = Some (status, body)"
    "\<not> pg_text (response_text status body)"
    using assms(3) unfolding unstorable_answers_def by blast
  show "store (snd (attempt_delivery net x w)) = store w"
    and "posted (snd (attempt_delivery net x w)) = posted w @ [request_for (webhooks (store w)) x]"
    unfolding attempt_delivery_def attempt_def get prod.case sum.case q bindE_run(1) [where m = "ValidateWebhookTargetURL net raw" for raw, OF val]
    using h(2) post
    by (simp_all add: bindE_run(1) [where m = "post_request net q" for q, OF post_run] garbled_update_changes_nothing updates_send_nothing)
qed

lemma garbled_attempts:
  assumes "calm w" "list_all (ready_hook net (webhooks (store w))) xs" "unstorable_answers net"
  shows "\<exists>r w'. for_each (attempt_delivery net) xs w = (r, w') \<and> store w' = store w \<and> calm w' \<and> clock w' = clock w \<and>
    posted w' = posted w @ map (request_for (webhooks (store w))) xs"
  using assms(1,2)
proof (induction xs arbitrary: w)
  case (Cons x xs)
  obtain r w1 where run: "attempt_delivery net x w = (r, w1)" by fastforce
  have w1: "store w1 = store w" "calm w1" "clock w1 = clock w" "posted w1 = posted w @ [request_for (webhooks (store w)) x]"
    using garbled_attempt [of w net x] Cons.prems assms(3) run keeps_oracles_calm [OF attempt_delivery_oracles run]
      keeps_oraclesD [OF attempt_delivery_oracles run] by simp_all
  then show ?case
    using Cons.IH [of w1] Cons.prems run by (simp add: ignoring_def attempt_def)
qed (simp add: ret_def)

text \<open>The deliveries of one cycle: the pending ones by due time, at most 25.\<close>

definition next_batch :: "db \<Rightarrow> webhook_delivery list" where
  "next_batch d = take 25 (order_asc wd_NextAttemptAt (filter (\<lambda>x. wd_Status x = ''pending'') (webhook_deliveries d)))"

definition pending_ready :: "network \<Rightarrow> db world \<Rightarrow> bool" where
  "pending_ready net w \<longleftrightarrow> calm w \<and>
     list_all (\<lambda>x. wd_Status x = ''pending'' \<longrightarrow> ready_hook net (webhooks (store w)) x \<and> (\<forall>k. wd_NextAttemptAt x \<le> clock w k))
       (webhook_deliveries (store w))"

lemma garbled_cycle:
  assumes "pending_ready net w" "unstorable_answers net"
  shows "\<exists>r w'. WebhookService_RunDeliveryCycle net w = (r, w') \<and> store w' = store w \<and> pending_ready net w' \<and>
    posted w' = posted w @ map (request_for (webhooks (store w))) (next_batch (store w))"
proof -
  let ?w = "w\<lparr>readings := Suc (Suc (readings w)), stmts := Suc (stmts w)\<rparr>"
  have "filter (due_delivery (clock w (readings w))) (webhook_deliveries (store w)) =
      filter (\<lambda>x. wd_Status x = ''pending'') (webhook_deliveries (store w))"
    using assms(1) by (intro filter_cong) (auto simp: pending_ready_def due_delivery_def list_all_iff)
  then have run: "WebhookService_RunDeliveryCycle net w = for_each (attempt_delivery net) (next_batch (store w)) ?w"
    using assms(1) by (simp add: pending_ready_def WebhookService_RunDeliveryCycle_def webhooks_DequeuePending_def calm_run next_batch_def)
  have "x \<in> set (webhook_deliveries (store w)) \<and> wd_Status x = ''pending''" if "x \<in> set (next_batch (store w))" for x
    using that by (auto simp: next_batch_def dest!: in_set_takeD)
  then have "list_all (ready_hook net (webhooks (store w))) (next_batch (store w))"
    using assms(1) by (auto simp: list_all_iff pending_ready_def)
  from garbled_attempts [of ?w net, OF _ _ assms(2)] this show ?thesis
    using assms(1) unfolding run pending_ready_def by fastforce
qed

text \<open>
  C35. An answer the database cannot store is no answer. The response is cut to 4096 bytes, wherever that
  falls, and kept as text; when the bytes that are left are no valid UTF-8 (or hold a NUL) the update that
  should count the attempt fails and its error is dropped. Then, also when the target has answered 200,
  every delivery cycle posts the same requests again, one for each of the pending events (the first 25
  by due time), to the same URL with the same headers and body: without a delay, without a limit on the
  attempts, and without a trace in the queue.
\<close>

theorem unstorable_answers_are_fetched_forever:
  assumes "calm w"
    and "\<forall>x \<in> set (webhook_deliveries (store w)). wd_Status x = ''pending'' \<longrightarrow>
           ready_hook net (webhooks (store w)) x \<and> (\<forall>k. wd_NextAttemptAt x \<le> clock w k)"
    and "\<forall>t q. \<exists>status body. net_post net t q = Some (status, body) \<and> \<not> pg_text (response_text status body)"
    and "for_each (\<lambda>_. WebhookService_RunDeliveryCycle net) [0..<n] w = (r, w')"
  shows "store w' = store w \<and>
    posted w' = posted w @ concat (replicate n (map (request_for (webhooks (store w))) (next_batch (store w))))"
proof -
  have u: "unstorable_answers net" unfolding unstorable_answers_def by (rule assms(3))
  have "store w' = store w \<and>
      posted w' = posted w @ concat (replicate (length ns) (map (request_for (webhooks (store w))) (next_batch (store w))))"
    if "for_each (\<lambda>_. WebhookService_RunDeliveryCycle net) ns w = (r, w')" "pending_ready net w" for ns :: "nat list" and r w w'
    using that
  proof (induction ns arbitrary: w)
    case (Cons n ns)
    from garbled_cycle [OF Cons.prems(2) u] obtain r1 w1 where one: "WebhookService_RunDeliveryCycle net w = (r1, w1)"
      "store w1 = store w" "pending_ready net w1" "posted w1 = posted w @ map (request_for (webhooks (store w))) (next_batch (store w))"
      by blast
    then have "for_each (\<lambda>_. WebhookService_RunDeliveryCycle net) ns w1 = (r, w')"
      using Cons.prems(1) by (simp add: ignoring_def attempt_def)
    from Cons.IH [OF this one(3)] one show ?case by simp
  qed (auto simp: ret_def)
  from this [OF assms(4)] assms(1,2) show ?thesis
    by (simp add: pending_ready_def list_all_iff)
qed

text \<open>A page of 4097 bytes in good UTF-8, whose last character the cut divides.\<close>

definition long_page :: string where
  "long_page = replicate 4095 (CHR ''a'') @ [char_of (0xC3 :: nat), char_of (0xA9 :: nat)]"

theorem unstorable_answers_are_fetched_forever_witness:
  "\<exists>r w'. for_each (\<lambda>_. WebhookService_RunDeliveryCycle (demo_network\<lparr>net_post := \<lambda>_ _. Some (200, long_page)\<rparr>)) [0..<1000]
       (demo_world (outbox (demo_delivery 0 ''pending'' [] 0)) 0) = (r, w') \<and> pg_text long_page \<and>
     store w' = outbox (demo_delivery 0 ''pending'' [] 0) \<and>
     posted w' = replicate 1000 \<lparr>hr_URL = ''http://app/'',
       hr_Headers = [(''Content-Type'', ''application/json''), (''X-HarborWorks-Event'', ''booking'')], hr_Body = ''{}''\<rparr>"
proof -
  let ?net = "demo_network\<lparr>net_post := \<lambda>_ _. Some (200, long_page)\<rparr>"
  let ?w = "demo_world (outbox (demo_delivery 0 ''pending'' [] 0)) 0"
  have a: "list_all (\<lambda>c. 0 < (of_char c :: nat) \<and> (of_char c :: nat) < 128) (s @ replicate 4095 (CHR ''a''))"
    if "list_all (\<lambda>c. 0 < (of_char c :: nat) \<and> (of_char c :: nat) < 128) s" for s
    using that by (simp add: list_all_iff)
  have bytes: "map of_char [char_of (0xC3 :: nat), char_of (0xA9 :: nat)] = [0xC3, 0xA9 :: nat]" "map of_char [char_of (0xC3 :: nat)] = [0xC3 :: nat]"
    by simp_all
  have page: "pg_text long_page"
    using pg_text_ascii [OF a [of "[]"], of "[char_of (0xC3 :: nat), char_of (0xA9 :: nat)]"]
    by (simp add: long_page_def pg_text_def bytes second_byte_ok_def is_cont_def)
  have cut: "response_text 200 long_page = (''200 '' @ replicate 4095 (CHR ''a'')) @ [char_of (0xC3 :: nat)]"
    by (simp add: response_text_def long_page_def go_decimal_def nat_digits.simps char_of_def bit_0)
  have bad: "\<not> pg_text (response_text 200 long_page)"
    unfolding cut by (subst pg_text_ascii [OF a]) (simp_all add: pg_text_def bytes)
  obtain r w' where run: "for_each (\<lambda>_. WebhookService_RunDeliveryCycle ?net) [0..<1000] ?w = (r, w')" by fastforce
  have rows: "webhook_deliveries (store ?w) = [demo_delivery 0 ''pending'' [] 0]" "webhooks (store ?w) = [demo_hook]"
    by (simp_all add: outbox_def)
  have ready: "ready_hook ?net [demo_hook] (demo_delivery 0 ''pending'' [] 0)"
    by (simp add: demo_network_def ready_hook_def demo_delivery_def demo_hook_def row_by_def ascii_lower_def
        lower_char_def AllowedWebhookHostnames_def char_of_def bit_0)
  have "wd_NextAttemptAt (demo_delivery 0 ''pending'' [] 0) = 0"
    by (simp add: demo_delivery_def)
  then have pend: "\<forall>x \<in> set (webhook_deliveries (store ?w)). wd_Status x = ''pending'' \<longrightarrow>
      ready_hook ?net (webhooks (store ?w)) x \<and> (\<forall>k. wd_NextAttemptAt x \<le> clock ?w k)"
    using ready unfolding rows by simp
  have "store w' = store ?w \<and> posted w' = posted ?w @ concat (replicate 1000
      (map (request_for (webhooks (store ?w))) (next_batch (store ?w))))"
    using bad by (intro unstorable_answers_are_fetched_forever [OF calm_demo pend _ run]) (simp add: demo_network_def)
  moreover have "map (request_for (webhooks (store ?w))) (next_batch (store ?w)) = [\<lparr>hr_URL = ''http://app/'',
       hr_Headers = [(''Content-Type'', ''application/json''), (''X-HarborWorks-Event'', ''booking'')], hr_Body = ''{}''\<rparr>]"
    unfolding next_batch_def rows
    by (simp add: request_for_def Let_def demo_delivery_def demo_hook_def row_by_def order_asc_def)
  ultimately show ?thesis
    using run page by (intro exI [of _ r] exI [of _ w']) (simp only: demo_world_sel append_Nil, simp add: concat_replicate_single)
qed

end
