(* ===== verification/Labels.thy ===== *)
theory Labels
  imports Auth_Service
begin

text \<open>
  \<open>views/labels.go\<close>: the text a page shows for an enumeration value of the database. The separators are
  ASCII, so splitting by runes is splitting by bytes; \<open>p[:1]\<close> is the first byte of a part.
\<close>

definition separator :: "char \<Rightarrow> bool" where
  "separator c \<longleftrightarrow> c = CHR ''_'' \<or> c = CHR ''-''"

text \<open>\<open>strings.FieldsFunc\<close>: the maximal runs without a separator.\<close>

fun fields_from :: "string \<Rightarrow> string \<Rightarrow> string list" where
  "fields_from run [] = (if run = [] then [] else [rev run])"
| "fields_from run (c # s) =
     (if separator c then (if run = [] then [] else [rev run]) @ fields_from [] s else fields_from (c # run) s)"

text \<open>\<open>strings.ToUpper\<close> of one byte: a byte beyond ASCII is no character and becomes the replacement character.\<close>

definition upper_byte :: "char \<Rightarrow> string" where
  "upper_byte c =
     (let n = of_char c :: nat
      in if n < 128 then [if 97 \<le> n \<and> n \<le> 122 then char_of (n - 32) else c] else string_of_runes [rune_error])"

fun title_case :: "string \<Rightarrow> string" where
  "title_case [] = []"
| "title_case (c # s) = upper_byte c @ s"

fun join_words :: "string list \<Rightarrow> string" where
  "join_words [] = []"
| "join_words [w] = w"
| "join_words (w # ws) = w @ '' '' @ join_words ws"

definition HumanLabel :: "string \<Rightarrow> string" where
  "HumanLabel raw =
     (let raw = trim_space raw
      in if raw = [] then [] else join_words (map title_case (fields_from [] raw)))"

section \<open>Labels have no separators left\<close>

lemma fields_clean: "w \<in> set (fields_from run s) \<Longrightarrow> \<not> list_ex separator run \<Longrightarrow> w \<noteq> [] \<and> \<not> list_ex separator w"
proof (induction run s rule: fields_from.induct)
  case (1 run)
  then show ?case by (cases "run = []") simp_all
next
  case (2 run c s)
  then show ?case by (cases "separator c"; cases "run = []") auto
qed

text \<open>Between the parts lie separators only: without them the text is the parts in a row.\<close>

lemma fields_concat: "concat (fields_from run s) = rev run @ filter (\<lambda>c. \<not> separator c) s"
  by (induction run s rule: fields_from.induct) auto

lemma separator_code: "separator c \<longleftrightarrow> (of_char c :: nat) = 95 \<or> (of_char c :: nat) = 45"
proof -
  have "of_char c = (of_char x :: nat) \<longleftrightarrow> c = x" for x by (metis char_of_char)
  from this [of "CHR ''_''"] this [of "CHR ''-''"] show ?thesis by (simp add: separator_def)
qed

lemma upper_byte_clean: "\<not> separator c \<Longrightarrow> \<not> list_ex separator (upper_byte c)"
  by (auto simp: upper_byte_def separator_code Let_def string_of_runes_def encode_rune_def take_bit_nat_def)

lemma join_words_clean: "\<forall>w \<in> set ws. \<not> list_ex separator w \<Longrightarrow> \<not> list_ex separator (join_words ws)"
  by (induction ws rule: join_words.induct) (auto simp: separator_def)

lemma HumanLabel_clean: "\<not> list_ex separator (HumanLabel raw)"
proof -
  have "\<not> list_ex separator (title_case w)" if "w \<in> set (fields_from [] s)" for w s
    using fields_clean [OF that] by (cases w) (auto simp: upper_byte_clean)
  then show ?thesis by (simp add: HumanLabel_def Let_def join_words_clean)
qed

lemma HumanLabel_booking_states:
  "HumanLabel ''pending_confirmation'' = ''Pending Confirmation''" "HumanLabel ''checked_in'' = ''Checked In''"
  "HumanLabel ''group_buy_threshold_met'' = ''Group Buy Threshold Met''"
proof -
  have "trim_space ''pending_confirmation'' = ''pending_confirmation''" "trim_space ''checked_in'' = ''checked_in''"
    "trim_space ''group_buy_threshold_met'' = ''group_buy_threshold_met''"
    by (rule trim_space_plain; simp)+
  then show "HumanLabel ''pending_confirmation'' = ''Pending Confirmation''" "HumanLabel ''checked_in'' = ''Checked In''"
    "HumanLabel ''group_buy_threshold_met'' = ''Group Buy Threshold Met''"
    by (simp_all add: HumanLabel_def separator_def upper_byte_def char_of_def bit_0)
qed

end
