(* ===== verification/Group_Reservations.thy ===== *)
theory Group_Reservations
  imports Bookings
begin

text \<open>
  Group reservations: \<open>repository/group.go\<close>, \<open>service/group.go\<close> and the projection of \<open>handlers/group.go\<close>
  that decides who sees the organiser's name and email.
\<close>

section \<open>The repository\<close>

definition groups_Create :: "group_reservation \<Rightarrow> group_reservation action" where
  "groups_Create g =
     bindE (if g_ID g = uuid_nil then new_uuid else ret (g_ID g)) (\<lambda>i.
     bindE now (\<lambda>t.
     let g' = g\<lparr>g_ID := i, g_CreatedAt := t, g_UpdatedAt := t\<rparr> in
     bindE (sql (\<lambda>_ d. if group_insertable d g'
                       then Inr ((), d\<lparr>group_reservations := group_reservations d @ [g'\<lparr>g_Bookings := []\<rparr>]\<rparr>)
                       else Inl DBError)) (\<lambda>_.
     ret g')))"

definition groups_Get :: "uuid \<Rightarrow> group_reservation action" where
  "groups_Get i = query (\<lambda>d. case row_by g_ID i (group_reservations d) of None \<Rightarrow> Inl ErrNotFound | Some g \<Rightarrow> Inr g)"

text \<open>PostgreSQL refuses a negative \<open>OFFSET\<close>.\<close>

definition groups_List :: "int \<Rightarrow> int \<Rightarrow> group_reservation list action" where
  "groups_List limit offset = query (\<lambda>d.
     if offset < 0 then Inl DBError
     else Inr (page (if limit \<le> 0 \<or> limit > 200 then 50 else limit) offset (order_desc g_CreatedAt (group_reservations d))))"

definition groups_Update :: "group_reservation \<Rightarrow> group_reservation action" where
  "groups_Update g =
     bindE now (\<lambda>t.
     let g' = g\<lparr>g_UpdatedAt := t\<rparr> in
     bindE (sql (\<lambda>_ d.
       if matches (\<lambda>r. g_ID r = g_ID g) (group_reservations d) = 0
       then (if int4 (g_Capacity g) then Inl ErrNotFound else Inl DBError)
       else if \<not> (references_opt u_ID (users d) (g_OrganizerID g) \<and> 0 < g_Capacity g \<and> int4 (g_Capacity g)) then Inl DBError
       else Inr ((), d\<lparr>group_reservations := update_where (\<lambda>r. g_ID r = g_ID g)
         (\<lambda>r. r\<lparr>g_Name := g_Name g, g_OrganizerID := g_OrganizerID g, g_OrganizerName := g_OrganizerName g,
                g_OrganizerEmail := g_OrganizerEmail g, g_Capacity := g_Capacity g, g_Notes := g_Notes g,
                g_UpdatedAt := t\<rparr>) (group_reservations d)\<rparr>))) (\<lambda>_. ret g'))"

text \<open>\<open>bookings.group_id\<close> is set to NULL when its group goes.\<close>

definition groups_Delete :: "uuid \<Rightarrow> unit action" where
  "groups_Delete i = sql (\<lambda>_ d.
     if matches (\<lambda>r. g_ID r = i) (group_reservations d) = 0 then Inl ErrNotFound
     else Inr ((), d\<lparr>group_reservations := delete_where (\<lambda>r. g_ID r = i) (group_reservations d),
       bookings := update_where (\<lambda>b. b_GroupID b = Some i) (\<lambda>b. b\<lparr>b_GroupID := None\<rparr>) (bookings d)\<rparr>))"

section \<open>The service\<close>

definition GroupService_Create :: "group_reservation \<Rightarrow> group_reservation action" where
  "GroupService_Create g = (case Group_Validate g of Inl e \<Rightarrow> fail e | Inr _ \<Rightarrow> groups_Create g)"

definition GroupService_Get :: "uuid \<Rightarrow> group_reservation action" where
  "GroupService_Get i =
     bindE (groups_Get i) (\<lambda>g. bindE (bookings_ListByGroup i) (\<lambda>bs. ret (g\<lparr>g_Bookings := bs\<rparr>)))"

definition GroupService_List :: "int \<Rightarrow> int \<Rightarrow> group_reservation list action" where
  "GroupService_List limit offset = groups_List limit offset"

definition GroupService_Delete :: "uuid \<Rightarrow> unit action" where
  "GroupService_Delete i = groups_Delete i"

section \<open>Who sees the organiser\<close>

definition canSeeOrganizerPII :: "user option \<Rightarrow> group_reservation \<Rightarrow> bool" where
  "canSeeOrganizerPII user g \<longleftrightarrow>
     (case user of None \<Rightarrow> False | Some u \<Rightarrow> u_IsAdmin u \<or> g_OrganizerID g = Some (u_ID u))"

definition projectGroup :: "user option \<Rightarrow> group_reservation \<Rightarrow> group_reservation" where
  "projectGroup user g = (if canSeeOrganizerPII user g then g else MaskedView g)"

lemma anonymous_sees_masked: "projectGroup None g = MaskedView g"
  by (simp add: projectGroup_def canSeeOrganizerPII_def)

lemma groups_reads_readonly [store_rules]:
  "readonly (groups_Get i)" "readonly (groups_List l off)" "readonly (GroupService_Get i)" "readonly (GroupService_List l off)"
proof -
  show g: "readonly (groups_Get i)" and l: "readonly (groups_List l off)"
    by (simp_all add: groups_Get_def groups_List_def readonly_query)
  show "readonly (GroupService_Get i)"
    unfolding GroupService_Get_def by (intro store_rules g)
  show "readonly (GroupService_List l off)"
    unfolding GroupService_List_def by (rule l)
qed

end
