(* ===== verification/Server.thy ===== *)
theory Server
  imports Csv Schema
begin

text \<open>
  What the process keeps besides the database: the backup files on disk and the response cache in
  memory, and how an action on the database runs inside it. The type of the cached values and of the
  file contents are parameters of the record, so that the theories of the two can fix them.

  Calls of the operating system may fail like statements do: they draw on the same oracle.
\<close>

section \<open>The state of the process\<close>

record ('v, 'f) server =
  sv_db :: db
  sv_cache :: "'v"
  sv_files :: "string \<Rightarrow> 'f option"

lemma same_db [simp]: "s\<lparr>sv_db := sv_db s\<rparr> = s"
  by (cases s) simp

definition with_store :: "'e \<Rightarrow> 'd world \<Rightarrow> 'e world" where
  "with_store s w = \<lparr>store = s, clock = clock w, readings = readings w, uuids = uuids w, minted = minted w,
     entropy = entropy w, drawn = drawn w, outage = outage w, stmts = stmts w, posted = posted w\<rparr>"

lemma with_store_sel [simp]:
  "store (with_store s w) = s" "clock (with_store s w) = clock w" "readings (with_store s w) = readings w"
  "uuids (with_store s w) = uuids w" "minted (with_store s w) = minted w" "entropy (with_store s w) = entropy w"
  "drawn (with_store s w) = drawn w" "outage (with_store s w) = outage w" "stmts (with_store s w) = stmts w"
  "posted (with_store s w) = posted w"
  by (simp_all add: with_store_def)

lemma calm_with_store [simp]: "calm (with_store s w) = calm w"
  by (simp add: calm_def)

lemma with_store_same [simp]: "with_store (store w) w = w"
  by (simp add: with_store_def)

lemma with_store_twice [simp]: "with_store s (with_store s' w) = with_store s w"
  by (simp add: with_store_def)

text \<open>A database action as an action of the server.\<close>

definition on_db :: "'a action \<Rightarrow> (('v, 'f) server, 'a) io" where
  "on_db m w = (case m (with_store (sv_db (store w)) w) of (r, w') \<Rightarrow> (r, with_store ((store w)\<lparr>sv_db := store w'\<rparr>) w'))"

lemma on_db_run: "m (with_store (sv_db (store w)) w) = (r, w') \<Longrightarrow> on_db m w = (r, with_store ((store w)\<lparr>sv_db := store w'\<rparr>) w')"
  by (simp add: on_db_def)

lemma on_db_returns [returns]:
  "on_db m w = (r, w') \<longleftrightarrow>
     (\<exists>v. m (with_store (sv_db (store w)) w) = (r, v) \<and> w' = with_store ((store w)\<lparr>sv_db := store v\<rparr>) v)"
  by (auto simp: on_db_def split: prod.splits)

lemma on_db_readonly [store_rules]: "readonly m \<Longrightarrow> readonly (on_db m)"
  by (rule readonlyI) (auto simp: on_db_returns dest: readonlyD)

lemma on_db_all_or_nothing [store_rules]: "all_or_nothing m \<Longrightarrow> all_or_nothing (on_db m)"
  unfolding all_or_nothing_def by (auto simp: on_db_returns)

lemma on_db_preserves: "preserves I m \<Longrightarrow> preserves (\<lambda>s. I (sv_db s)) (on_db m)"
  by (rule preservesI) (auto simp: on_db_returns dest: preservesD)

lemma on_db_oracles [oracle_rules]: "keeps_oracles m \<Longrightarrow> keeps_oracles (on_db m)"
  unfolding keeps_oracles_def Let_def on_db_def by (auto split: prod.splits) (metis snd_conv with_store_sel)+

lemma on_db_query_calm:
  "calm w \<Longrightarrow> on_db (query f) w = (f (sv_db (store w)), w\<lparr>readings := Suc (readings w), stmts := Suc (stmts w)\<rparr>)"
  by (simp add: on_db_def query_calm)

text \<open>A call of the operating system.\<close>

definition os_call :: "('d \<Rightarrow> 'a \<times> 'd) \<Rightarrow> ('d, 'a) io" where
  "os_call f w =
     (let w1 = w\<lparr>stmts := Suc (stmts w)\<rparr>
      in if outage w (stmts w) then (Inl OtherError, w1)
         else case f (store w) of (x, d) \<Rightarrow> (Inr x, w1\<lparr>store := d\<rparr>))"

lemma os_call_calm: "calm w \<Longrightarrow> os_call f w = (case f (store w) of (x, d) \<Rightarrow> (Inr x, w\<lparr>stmts := Suc (stmts w), store := d\<rparr>))"
  by (auto simp: os_call_def Let_def split: prod.splits)

section \<open>Dates in file names\<close>

text \<open>
  \<open>Time.Format("20060102T150405Z")\<close> of an instant in UTC: the civil date of its day (years 0 to 9999)
  and the time of day in whole seconds.
\<close>

definition year_of_era :: "int \<Rightarrow> int" where
  "year_of_era doe = (doe - doe div 1460 + doe div 36524 - doe div 146096) div 365"

definition day_of_year :: "int \<Rightarrow> int \<Rightarrow> int" where
  "day_of_year doe yoe = doe - (365 * yoe + yoe div 4 - yoe div 100)"

definition month_day :: "int \<Rightarrow> int \<Rightarrow> int \<times> int" where
  "month_day doy mp = (if mp < 10 then mp + 3 else mp - 9, doy - (153 * mp + 2) div 5 + 1)"

definition march_month :: "int \<Rightarrow> int \<times> int" where
  "march_month doy = month_day doy ((5 * doy + 2) div 153)"

definition civil_date :: "int \<Rightarrow> int \<times> int \<Rightarrow> int \<times> int \<times> int" where
  "civil_date y md = (if fst md \<le> 2 then y + 1 else y, fst md, snd md)"

definition civil_of_days :: "int \<Rightarrow> int \<times> int \<times> int" where
  "civil_of_days n =
     civil_date (year_of_era ((n + 719468) mod 146097) + (n + 719468) div 146097 * 400)
       (march_month (day_of_year ((n + 719468) mod 146097) (year_of_era ((n + 719468) mod 146097))))"

fun padded :: "nat \<Rightarrow> int \<Rightarrow> string" where
  "padded 0 n = []"
| "padded (Suc k) n = padded k (n div 10) @ [char_of (48 + nat (n mod 10))]"

definition clock_digits :: "int \<Rightarrow> string" where
  "clock_digits s = padded 2 (s div 3600) @ padded 2 (s div 60 mod 60) @ padded 2 (s mod 60)"

definition date_digits :: "int \<times> int \<times> int \<Rightarrow> string" where
  "date_digits ymd = padded 4 (fst ymd) @ padded 2 (fst (snd ymd)) @ padded 2 (snd (snd ymd))"

definition compact_stamp :: "time \<Rightarrow> string" where
  "compact_stamp t = date_digits (civil_of_days (t div (24 * hour))) @ ''T'' @ clock_digits (t mod (24 * hour) div second) @ ''Z''"

lemma civil_samples:
  "map civil_of_days [-1, 0, 58, 59, 60, 364, 365, 10956, 11015, 11016, 20000, 47540, 2932896] =
    [(1969, 12, 31), (1970, 1, 1), (1970, 2, 28), (1970, 3, 1), (1970, 3, 2), (1970, 12, 31), (1971, 1, 1), (1999, 12, 31), (2000, 2, 28), (2000, 2, 29), (2024, 10, 4), (2100, 2, 28), (9999, 12, 31)]"
  by (simp add: civil_of_days_def civil_date_def march_month_def month_day_def day_of_year_def year_of_era_def)

lemma numeral_4_eq_4: "4 = Suc (Suc (Suc (Suc 0)))"
  by simp

lemma stamp_sample: "compact_stamp (20551 * 24 * hour + 785 * minute + 7 * second + 5) = ''20260408T130507Z''"
proof -
  have p: "padded 4 n = padded 2 (n div 100) @ padded 2 n"
    "padded 2 n = [char_of (48 + nat (n div 10 mod 10)), char_of (48 + nat (n mod 10))]" for n
    by (simp_all add: numeral_2_eq_2 numeral_4_eq_4 zdiv_zmult2_eq [symmetric])
  show ?thesis
    by (simp add: compact_stamp_def date_digits_def clock_digits_def civil_of_days_def civil_date_def march_month_def
        month_day_def day_of_year_def year_of_era_def p char_of_def bit_0)
qed

end
