(* ===== verification/Backups.thy ===== *)
theory Backups
  imports Server
begin

text \<open>
  Backups: \<open>repository/backup.go\<close> and \<open>service/backup.go\<close>. A backup file is kept as the value its JSON text
  encodes; the encoder is a parameter, used for the size of the file alone. A row as \<open>row_to_json\<close> gives
  it is the row tagged with its table.
\<close>

section \<open>The repository\<close>

definition backup_insertable :: "db \<Rightarrow> backup \<Rightarrow> bool" where
  "backup_insertable d b \<longleftrightarrow> fresh_key bk_ID (backups d) (bk_ID b) \<and> bk_Kind b \<in> {''full'', ''incremental''}"

definition backups_Insert :: "backup \<Rightarrow> backup action" where
  "backups_Insert b =
     bindE (if bk_ID b = uuid_nil then new_uuid else ret (bk_ID b)) (\<lambda>i.
     bindE (if bk_TakenAt b = zero_time then now else ret (bk_TakenAt b)) (\<lambda>t.
     let b' = b\<lparr>bk_ID := i, bk_TakenAt := t\<rparr> in
     bindE (sql (\<lambda>_ d. if backup_insertable d b' then Inr ((), d\<lparr>backups := backups d @ [b']\<rparr>) else Inl DBError)) (\<lambda>_. ret b')))"

definition backups_List :: "int \<Rightarrow> backup list action" where
  "backups_List limit = query (\<lambda>d. Inr (take (nat (if limit \<le> 0 \<or> limit > 200 then 50 else limit)) (order_desc bk_TakenAt (backups d))))"

text \<open>No row is the driver's own error here, not \<open>ErrNotFound\<close>.\<close>

definition newest :: "backup list \<Rightarrow> backup option" where
  "newest bs = (case order_desc bk_TakenAt bs of [] \<Rightarrow> None | b # _ \<Rightarrow> Some b)"

definition backups_LastSuccessful :: "backup action" where
  "backups_LastSuccessful = query (\<lambda>d. case newest (backups d) of None \<Rightarrow> Inl DBError | Some b \<Rightarrow> Inr b)"

definition backups_LastFull :: "backup action" where
  "backups_LastFull = query (\<lambda>d. case newest (filter (\<lambda>b. bk_Kind b = ''full'') (backups d)) of None \<Rightarrow> Inl DBError | Some b \<Rightarrow> Inr b)"

definition incremental_after :: "time \<Rightarrow> backup \<Rightarrow> bool" where
  "incremental_after t b \<longleftrightarrow> bk_Kind b = ''incremental'' \<and> bk_TakenAt b > t"

definition backups_IncrementalsAfter :: "time \<Rightarrow> backup list action" where
  "backups_IncrementalsAfter t = query (\<lambda>d. Inr (order_asc bk_TakenAt (filter (incremental_after t) (backups d))))"

section \<open>What is dumped\<close>

datatype table_row =
    ResourceRow resource | GroupRow group_reservation | UserRow user | BookingRow booking | GroupBuyRow group_buy
  | ParticipantRow group_buy_participant | DocumentRow document | RevisionRow document_revision
  | NotificationRow notification | TodoRow todo | NotificationDeliveryRow notification_delivery
  | DictionaryRow data_dictionary_entry | TagRow tag | TaggingRow tagging | ConsentRow consent_record
  | WebhookRow webhook | WebhookDeliveryRow webhook_delivery | EventRow analytics_event
  | HourlyRow analytics_hourly | AnomalyRow anomaly_alert

definition backupTables :: "string list" where
  "backupTables = [''resources'', ''group_reservations'', ''users'', ''bookings'', ''group_buys'', ''group_buy_participants'',
     ''documents'', ''document_revisions'', ''notifications'', ''todos'', ''notification_deliveries'', ''data_dictionary'',
     ''tags'', ''taggings'', ''consent_records'', ''webhooks'', ''webhook_deliveries'', ''analytics_events'',
     ''analytics_hourly'', ''anomaly_alerts'']"

definition table_rows :: "db \<Rightarrow> (string \<times> table_row list) list" where
  "table_rows d =
     [(''resources'', map ResourceRow (resources d)), (''group_reservations'', map GroupRow (group_reservations d)),
      (''users'', map UserRow (users d)), (''bookings'', map BookingRow (bookings d)),
      (''group_buys'', map GroupBuyRow (group_buys d)), (''group_buy_participants'', map ParticipantRow (participants d)),
      (''documents'', map DocumentRow (documents d)), (''document_revisions'', map RevisionRow (revisions d)),
      (''notifications'', map NotificationRow (notifications d)), (''todos'', map TodoRow (todos d)),
      (''notification_deliveries'', map NotificationDeliveryRow (notification_deliveries d)),
      (''data_dictionary'', map DictionaryRow (data_dictionary d)), (''tags'', map TagRow (tags d)),
      (''taggings'', map TaggingRow (taggings d)), (''consent_records'', map ConsentRow (consent_records d)),
      (''webhooks'', map WebhookRow (webhooks d)), (''webhook_deliveries'', map WebhookDeliveryRow (webhook_deliveries d)),
      (''analytics_events'', map EventRow (analytics_events d)), (''analytics_hourly'', map HourlyRow (analytics_hourly_rows d)),
      (''anomaly_alerts'', map AnomalyRow (anomaly_alerts d))]"

definition tableHasUpdatedAt :: "string \<Rightarrow> bool" where
  "tableHasUpdatedAt table = (table \<in> set [''users'', ''bookings'', ''group_reservations'', ''group_buys'', ''documents'', ''todos''])"

fun updated_at :: "table_row \<Rightarrow> time option" where
  "updated_at (UserRow u) = Some (u_UpdatedAt u)"
| "updated_at (BookingRow b) = Some (b_UpdatedAt b)"
| "updated_at (GroupRow g) = Some (g_UpdatedAt g)"
| "updated_at (GroupBuyRow g) = Some (gb_UpdatedAt g)"
| "updated_at (DocumentRow x) = Some (d_UpdatedAt x)"
| "updated_at (TodoRow x) = Some (t_UpdatedAt x)"
| "updated_at _ = None"

text \<open>The tables of the migrations that have the column.\<close>

definition updated_at_columns :: "string list" where
  "updated_at_columns = [''users'', ''group_reservations'', ''bookings'', ''group_buys'', ''documents'', ''todos'']"

text \<open>\<open>WHERE updated_at > $1\<close>, when the clause is there; on a table without the column it is an error.\<close>

definition newer_row :: "string \<Rightarrow> time \<Rightarrow> table_row \<Rightarrow> bool" where
  "newer_row table since r \<longleftrightarrow> (since \<noteq> zero_time \<and> tableHasUpdatedAt table \<longrightarrow>
     (case updated_at r of None \<Rightarrow> False | Some t \<Rightarrow> t > since))"

definition dumpTable :: "string \<Rightarrow> time \<Rightarrow> table_row list action" where
  "dumpTable table since = query (\<lambda>d. case map_of (table_rows d) table of
     None \<Rightarrow> Inl DBError
   | Some rows \<Rightarrow>
       if since \<noteq> zero_time \<and> tableHasUpdatedAt table \<and> table \<notin> set updated_at_columns then Inl DBError
       else Inr (filter (newer_row table since) rows))"

text \<open>The loop over the tables: one that fails is logged and left out of the dump.\<close>

fun dump_tables :: "time \<Rightarrow> string list \<Rightarrow> (string \<times> table_row list) list action" where
  "dump_tables since [] = ret []"
| "dump_tables since (table # tables) =
     attempt (dumpTable table since) (\<lambda>r. case r of
       Inl _ \<Rightarrow> dump_tables since tables
     | Inr rows \<Rightarrow> bindE (dump_tables since tables) (\<lambda>dump. ret ((table, rows) # dump)))"

definition rowCounts :: "(string \<times> table_row list) list \<Rightarrow> (string \<times> nat) list" where
  "rowCounts dump = map (\<lambda>(table, rows). (table, length rows)) dump"

record backup_file =
  bf_kind :: string
  bf_taken_at :: time
  bf_since :: time
  bf_row_counts :: "(string \<times> nat) list"
  bf_tables :: "(string \<times> table_row list) list"

section \<open>The service\<close>

text \<open>\<open>s.target\<close> is a clean path without a trailing slash (\<open>/backups\<close>), so \<open>filepath.Join\<close> adds one.\<close>

record backup_service =
  bs_target :: string
  bs_encode :: "backup_file \<Rightarrow> string"

definition backup_path :: "backup_service \<Rightarrow> string \<Rightarrow> time \<Rightarrow> string" where
  "backup_path s kind t = bs_target s @ ''/'' @ ''harborworks-'' @ kind @ ''-'' @ compact_stamp t @ ''.json''"

definition write_file :: "string \<Rightarrow> 'f \<Rightarrow> (('v, 'f) server, unit) io" where
  "write_file path content = os_call (\<lambda>s. ((), s\<lparr>sv_files := (sv_files s)(path \<mapsto> content)\<rparr>))"

definition BackupService_take :: "backup_service \<Rightarrow> string \<Rightarrow> time \<Rightarrow> (('v, backup_file) server, backup) io" where
  "BackupService_take s kind since =
     bindE (os_call (\<lambda>st. ((), st))) (\<lambda>_.
     bindE now (\<lambda>t.
     bindE (on_db (dump_tables since backupTables)) (\<lambda>dump.
     let content = \<lparr>bf_kind = kind, bf_taken_at = t, bf_since = since, bf_row_counts = rowCounts dump, bf_tables = dump\<rparr> in
     bindE (write_file (backup_path s kind t) content) (\<lambda>_.
     on_db (backups_Insert \<lparr>bk_ID = uuid_nil, bk_Kind = kind, bk_Path = backup_path s kind t,
       bk_SizeBytes = int (length (bs_encode s content)), bk_TakenAt = t,
       bk_Detail = ''tables='' @ go_decimal (int (length dump))\<rparr>)))))"

definition BackupService_TakeFull :: "backup_service \<Rightarrow> (('v, backup_file) server, backup) io" where
  "BackupService_TakeFull s = BackupService_take s ''full'' zero_time"

definition BackupService_TakeIncremental :: "backup_service \<Rightarrow> (('v, backup_file) server, backup) io" where
  "BackupService_TakeIncremental s =
     attempt (on_db backups_LastSuccessful) (\<lambda>r.
       BackupService_take s ''incremental'' (case r of Inl _ \<Rightarrow> zero_time | Inr b \<Rightarrow> bk_TakenAt b))"

definition BackupService_List :: "int \<Rightarrow> backup list action" where
  "BackupService_List limit = backups_List limit"

definition BackupService_PlanRestore :: "backup list action" where
  "BackupService_PlanRestore =
     attempt backups_LastFull (\<lambda>r. case r of
       Inl _ \<Rightarrow> fail OtherError
     | Inr full \<Rightarrow> bindE (backups_IncrementalsAfter (bk_TakenAt full)) (\<lambda>incrementals. ret (full # incrementals)))"

section \<open>A backup over a working database\<close>

definition rows_of :: "db \<Rightarrow> string \<Rightarrow> table_row list" where
  "rows_of d table = (case map_of (table_rows d) table of None \<Rightarrow> [] | Some rows \<Rightarrow> rows)"

lemma backed_up_tables: "map fst (table_rows d) = backupTables"
  by (simp add: table_rows_def backupTables_def)

lemma known_table: "table \<in> set backupTables \<Longrightarrow> map_of (table_rows d) table = Some (rows_of d table)"
proof -
  assume "table \<in> set backupTables"
  then have "map_of (table_rows d) table \<noteq> None"
    by (metis backed_up_tables list.set_map map_of_eq_None_iff)
  then show ?thesis by (auto simp: rows_of_def)
qed

lemma rows_of_other: "rows_of (d\<lparr>backups := bs\<rparr>) table = rows_of d table"
  by (simp add: rows_of_def table_rows_def)

lemma filtered_tables: "tableHasUpdatedAt table \<Longrightarrow> table \<in> set updated_at_columns"
  by (auto simp: tableHasUpdatedAt_def updated_at_columns_def)

definition dump_of :: "time \<Rightarrow> db \<Rightarrow> string list \<Rightarrow> (string \<times> table_row list) list" where
  "dump_of since d tables = map (\<lambda>table. (table, filter (newer_row table since) (rows_of d table))) tables"

lemma dump_tables_calm:
  assumes "calm w" "set tables \<subseteq> set backupTables"
  shows "\<exists>w'. dump_tables since tables w = (Inr (dump_of since (store w) tables), w') \<and> store w' = store w \<and> calm w' \<and> clock w' = clock w \<and> uuids w' = uuids w"
  using assms
proof (induction tables arbitrary: w)
  case Nil
  then show ?case by (simp add: ret_def dump_of_def)
next
  case (Cons table tables)
  let ?w = "w\<lparr>readings := Suc (readings w), stmts := Suc (stmts w)\<rparr>"
  have one: "dumpTable table since w = (Inr (filter (newer_row table since) (rows_of (store w) table)), ?w)"
    using Cons.prems filtered_tables [of table] by (auto simp: dumpTable_def query_calm known_table)
  obtain w' where "dump_tables since tables ?w = (Inr (dump_of since (store w) tables), w')"
    "store w' = store w" "calm w'" "clock w' = clock w" "uuids w' = uuids w"
    using Cons.IH [of ?w] Cons.prems by auto
  with one show ?case by (simp add: attempt_def bindE_def ret_def dump_of_def)
qed

definition snapshot_of :: "string \<Rightarrow> time \<Rightarrow> time \<Rightarrow> db \<Rightarrow> backup_file" where
  "snapshot_of kind t since d = (let dump = dump_of since d backupTables in
     \<lparr>bf_kind = kind, bf_taken_at = t, bf_since = since, bf_row_counts = rowCounts dump, bf_tables = dump\<rparr>)"

lemma Insert_calm:
  assumes "calm u" "backups_Insert row u = (Inr b, u')" "bk_ID row = uuid_nil" "bk_TakenAt row \<noteq> zero_time"
  shows "b = row\<lparr>bk_ID := uuids u (minted u)\<rparr>" "store u' = (store u)\<lparr>backups := backups (store u) @ [b]\<rparr>"
    "calm u'" "clock u' = clock u"
  using assms by (auto simp: backups_Insert_def Let_def bindE_def ret_def new_uuid_def sql_calm split: if_splits)

definition index_row :: "backup_service \<Rightarrow> string \<Rightarrow> time \<Rightarrow> time \<Rightarrow> db \<Rightarrow> backup" where
  "index_row s kind t since d = \<lparr>bk_ID = uuid_nil, bk_Kind = kind, bk_Path = backup_path s kind t,
     bk_SizeBytes = int (length (bs_encode s (snapshot_of kind t since d))), bk_TakenAt = t,
     bk_Detail = ''tables='' @ go_decimal (int (length (dump_of since d backupTables)))\<rparr>"

lemma take_reaches_index:
  assumes "calm w"
  obtains v where "BackupService_take s kind since w =
      on_db (backups_Insert (index_row s kind (clock w (readings w)) since (sv_db (store w)))) v"
    "store v = (store w)\<lparr>sv_files := (sv_files (store w))(backup_path s kind (clock w (readings w)) \<mapsto>
      snapshot_of kind (clock w (readings w)) since (sv_db (store w)))\<rparr>"
    "calm v" "clock v = clock w" "uuids v = uuids w"
proof -
  let ?t = "clock w (readings w)" and ?d = "sv_db (store w)"
  let ?w1 = "w\<lparr>stmts := Suc (stmts w)\<rparr>"
  let ?w2 = "?w1\<lparr>readings := Suc (readings w)\<rparr>"
  obtain v where v: "dump_tables since backupTables (with_store ?d ?w2) = (Inr (dump_of since ?d backupTables), v)"
    "store v = ?d" "calm v" "clock v = clock w" "uuids v = uuids w"
    using dump_tables_calm [of "with_store ?d ?w2" backupTables since] assms by auto
  let ?w3 = "with_store (store w) v"
  let ?w4 = "?w3\<lparr>stmts := Suc (stmts v), store := (store w)\<lparr>sv_files := (sv_files (store w))(backup_path s kind ?t \<mapsto> snapshot_of kind ?t since ?d)\<rparr>\<rparr>"
  have "on_db (dump_tables since backupTables) ?w2 = (Inr (dump_of since ?d backupTables), ?w3)"
    using on_db_run [of "dump_tables since backupTables" ?w2] v by simp
  moreover have "write_file (backup_path s kind ?t) (snapshot_of kind ?t since ?d) ?w3 = (Inr (), ?w4)"
    using v(3) by (simp add: write_file_def os_call_calm)
  ultimately have "BackupService_take s kind since w = on_db (backups_Insert (index_row s kind ?t since ?d)) ?w4"
    using assms by (simp add: BackupService_take_def os_call_calm bindE_def now_def snapshot_of_def index_row_def Let_def)
  then show thesis using v by (intro that [of ?w4]) simp_all
qed

text \<open>What a successful backup has done: one file, one row in the index.\<close>

lemma take_calm:
  assumes "calm w" "BackupService_take s kind since w = (Inr b, w')" "\<And>n. clock w n \<noteq> zero_time"
  shows "bk_Kind b = kind \<and> bk_Path b = backup_path s kind (bk_TakenAt b) \<and> bk_TakenAt b = clock w (readings w) \<and>
    bk_ID b \<in> range (uuids w) \<and> store w' = (store w)\<lparr>sv_db := (sv_db (store w))\<lparr>backups := backups (sv_db (store w)) @ [b]\<rparr>,
      sv_files := (sv_files (store w))(bk_Path b \<mapsto> snapshot_of kind (bk_TakenAt b) since (sv_db (store w)))\<rparr> \<and>
    calm w' \<and> clock w' = clock w"
proof -
  let ?row = "index_row s kind (clock w (readings w)) since (sv_db (store w))"
  obtain v where take: "BackupService_take s kind since w = on_db (backups_Insert ?row) v"
    and v: "store v = (store w)\<lparr>sv_files := (sv_files (store w))(backup_path s kind (clock w (readings w)) \<mapsto>
      snapshot_of kind (clock w (readings w)) since (sv_db (store w)))\<rparr>" "calm v" "clock v = clock w" "uuids v = uuids w"
    using take_reaches_index [OF assms(1)] .
  obtain v' where ins: "backups_Insert ?row (with_store (sv_db (store v)) v) = (Inr b, v')"
    and w': "w' = with_store ((store v)\<lparr>sv_db := store v'\<rparr>) v'"
    using assms(2) unfolding take on_db_returns by auto
  have ok: "calm (with_store (sv_db (store v)) v)" "bk_ID ?row = uuid_nil" "bk_TakenAt ?row \<noteq> zero_time"
    using v(2) assms(3) by (simp_all add: index_row_def)
  note fin = Insert_calm [OF ok(1) ins ok(2,3)]
  have sel: "bk_Kind b = kind" "bk_Path b = backup_path s kind (clock w (readings w))" "bk_TakenAt b = clock w (readings w)"
    "bk_ID b \<in> range (uuids w)"
    unfolding fin(1) by (simp_all add: index_row_def v(4))
  show ?thesis
    using w' v fin(2-4) by (simp add: sel)
qed

lemma take_succeeds:
  assumes "calm w" "kind \<in> {''full'', ''incremental''}" "clock w (readings w) \<noteq> zero_time"
    and "\<And>n. uuids w n \<notin> bk_ID ` set (backups (sv_db (store w)))"
  shows "\<exists>b w'. BackupService_take s kind since w = (Inr b, w')"
proof -
  let ?row = "index_row s kind (clock w (readings w)) since (sv_db (store w))"
  obtain v where take: "BackupService_take s kind since w = on_db (backups_Insert ?row) v"
    and st: "store v = (store w)\<lparr>sv_files := (sv_files (store w))(backup_path s kind (clock w (readings w)) \<mapsto>
      snapshot_of kind (clock w (readings w)) since (sv_db (store w)))\<rparr>" and v: "calm v" "uuids v = uuids w"
    using take_reaches_index [OF assms(1)] .
  have db: "sv_db (store v) = sv_db (store w)" using st by simp
  have "\<exists>b v'. backups_Insert ?row (with_store (sv_db (store v)) v) = (Inr b, v')"
    using db v assms(2-4)
    by (auto simp: backups_Insert_def index_row_def bindE_def ret_def new_uuid_def sql_calm backup_insertable_def fresh_key_def Let_def)
  then show ?thesis unfolding take on_db_def by auto
qed

section \<open>A small server\<close>

definition demo_member :: "uuid \<Rightarrow> user" where
  "demo_member i = \<lparr>u_ID = i, u_Username = ''member'', u_PasswordHash = [], u_IsBlacklisted = False,
     u_BlacklistReason = [], u_IsAdmin = False, u_MustRotatePassword = False, u_AnonymizedAt = None,
     u_FailedAttempts = 0, u_LockedUntil = None, u_LastLoginAt = None, u_CreatedAt = 0, u_UpdatedAt = 0\<rparr>"

definition demo_server :: "(unit, backup_file) server world" where
  "demo_server = with_store \<lparr>sv_db = empty_db\<lparr>users := [demo_member 1, demo_member 2]\<rparr>, sv_cache = (), sv_files = (\<lambda>_. None)\<rparr>
     ((demo_world empty_db 0)\<lparr>uuids := (\<lambda>_. 1)\<rparr>)"

definition demo_backups :: backup_service where
  "demo_backups = \<lparr>bs_target = ''/backups'', bs_encode = (\<lambda>_. [])\<rparr>"

end
