(* ===== verification/Cache.thy ===== *)
theory Cache
  imports "HOL-Library.AList" Backups
begin

text \<open>
  The response cache: \<open>infrastructure/cache/cache.go\<close>. The Go map is an association list with one entry
  per key; the mutex makes each access one step. What the middleware needs of a cache is the locale
  \<open>ttl_cache\<close>, over what the cache holds under a key and until when; the code's cache interprets it.
\<close>

section \<open>The cache\<close>

definition DefaultTTL :: duration where
  "DefaultTTL = 60 * second"

record entry =
  en_Value :: string
  en_ExpiresAt :: time

type_synonym cache = "(string \<times> entry) list"

type_synonym 'a app = "((cache, backup_file) server, 'a) io"

definition cache_ttl :: "duration \<Rightarrow> duration" where
  "cache_ttl ttl = (if ttl \<le> 0 then DefaultTTL else ttl)"

definition the_cache :: "('d \<Rightarrow> 'a) \<Rightarrow> ('d, 'a) io" where
  "the_cache f w = (Inr (f (store w)), w)"

definition set_cache :: "(cache \<Rightarrow> cache) \<Rightarrow> unit app" where
  "set_cache f w = (Inr (), w\<lparr>store := (store w)\<lparr>sv_cache := f (sv_cache (store w))\<rparr>\<rparr>)"

definition Cache_Invalidate :: "string \<Rightarrow> unit app" where
  "Cache_Invalidate key = set_cache (AList.delete key)"

definition Cache_Get :: "string \<Rightarrow> string option app" where
  "Cache_Get key =
     bindE (the_cache (\<lambda>s. map_of (sv_cache s) key)) (\<lambda>found.
     case found of
       None \<Rightarrow> ret None
     | Some e \<Rightarrow>
         bindE now (\<lambda>t.
         if t > en_ExpiresAt e then bindE (set_cache (AList.delete key)) (\<lambda>_. ret None)
         else ret (Some (en_Value e))))"

definition Cache_Set :: "duration \<Rightarrow> string \<Rightarrow> string \<Rightarrow> unit app" where
  "Cache_Set ttl key v =
     bindE now (\<lambda>t. set_cache (AList.update key \<lparr>en_Value = v, en_ExpiresAt = t + ttl\<rparr>))"

definition Cache_Purge :: "unit app" where
  "Cache_Purge = set_cache (\<lambda>_. [])"

definition Cache_Stats :: "duration \<Rightarrow> (nat \<times> duration) app" where
  "Cache_Stats ttl = bindE (the_cache (\<lambda>s. length (sv_cache s))) (\<lambda>n. ret (n, ttl))"

text \<open>One tick of the collector.\<close>

definition Cache_gc :: "unit app" where
  "Cache_gc = bindE now (\<lambda>t. set_cache (filter (\<lambda>(_, e). \<not> t > en_ExpiresAt e)))"

section \<open>What the middleware needs of a cache\<close>

locale ttl_cache =
  fixes get :: "string \<Rightarrow> string option app" and put :: "string \<Rightarrow> string \<Rightarrow> unit app"
    and holds :: "(cache, backup_file) server \<Rightarrow> string \<Rightarrow> (string \<times> time) option" and ttl :: duration
  assumes get_fresh: "holds (store w) key = Some (v, expires) \<Longrightarrow> clock w (readings w) \<le> expires \<Longrightarrow>
      \<exists>w'. get key w = (Inr (Some v), w') \<and> store w' = store w"
    and get_nothing: "holds (store w) key = None \<Longrightarrow> get key w = (Inr None, w)"
    and set_holds: "put key v w = (r, w') \<Longrightarrow>
      r = Inr () \<and> holds (store w') key = Some (v, clock w (readings w) + ttl) \<and> sv_db (store w') = sv_db (store w)"
    and set_elsewhere: "put key v w = (r, w') \<Longrightarrow> key' \<noteq> key \<Longrightarrow> holds (store w') key' = holds (store w) key'"
begin

text \<open>A value is served again until its time is over.\<close>

lemma get_after_set:
  assumes "put key v w = (r, w1)" and "holds (store w2) key = holds (store w1) key"
    and "clock w2 (readings w2) \<le> clock w (readings w) + ttl"
  shows "\<exists>w3. get key w2 = (Inr (Some v), w3) \<and> store w3 = store w2"
  using get_fresh [of w2 key v] set_holds [OF assms(1)] assms(2,3) by simp

end

definition cache_holds :: "(cache, 'f) server \<Rightarrow> string \<Rightarrow> (string \<times> time) option" where
  "cache_holds s key = map_option (\<lambda>e. (en_Value e, en_ExpiresAt e)) (map_of (sv_cache s) key)"

interpretation response_cache: ttl_cache Cache_Get "Cache_Set ttl" cache_holds ttl for ttl
proof
  show "\<exists>w'. Cache_Get key w = (Inr (Some v), w') \<and> store w' = store w"
    if "cache_holds (store w) key = Some (v, expires)" "clock w (readings w) \<le> expires" for w key v expires
    using that by (auto simp: Cache_Get_def cache_holds_def bindE_def the_cache_def now_def ret_def)
  show "Cache_Get key w = (Inr None, w)" if "cache_holds (store w) key = None" for w key
    using that by (simp add: Cache_Get_def cache_holds_def bindE_def the_cache_def ret_def)
  show "r = Inr () \<and> cache_holds (store w') key = Some (v, clock w (readings w) + ttl) \<and> sv_db (store w') = sv_db (store w)"
    if "Cache_Set ttl key v w = (r, w')" for key v w r w'
    using that by (auto simp: Cache_Set_def cache_holds_def bindE_def now_def set_cache_def update_conv)
  show "cache_holds (store w') key' = cache_holds (store w) key'"
    if "Cache_Set ttl key v w = (r, w')" "key' \<noteq> key" for key v w r w' key'
    using that by (auto simp: Cache_Set_def cache_holds_def bindE_def now_def set_cache_def update_conv)
qed

text \<open>The collector drops what is stale and nothing else.\<close>

lemma map_of_filter_value: "distinct (map fst xs) \<Longrightarrow> map_of (filter (\<lambda>(_, e). p e) xs) key =
    (case map_of xs key of None \<Rightarrow> None | Some e \<Rightarrow> if p e then Some e else None)"
  by (induction xs) (auto split: option.splits simp: map_of_eq_None_iff image_iff dest: map_of_SomeD)

lemma gc_keeps_fresh:
  assumes "Cache_gc w = (r, w')" "distinct (map fst (sv_cache (store w)))"
  shows "cache_holds (store w') key =
    (case cache_holds (store w) key of None \<Rightarrow> None
     | Some (v, expires) \<Rightarrow> if clock w (readings w) \<le> expires then Some (v, expires) else None)"
  using assms by (auto simp: Cache_gc_def bindE_def now_def set_cache_def cache_holds_def map_of_filter_value split: option.splits)

end
