(* ===== verification/Web.thy ===== *)
theory Web
  imports Booking_Service Group_Buy_Service Auth_Service Idempotency Documents Governance Availability
    Webhooks Group_Reservations Cache
begin

text \<open>
  The HTTP surface below the handlers: what a response can carry, the libraries the handlers call, and
  the middleware \<open>api/middleware/auth.go\<close> and \<open>api/middleware/cache.go\<close>.

  A response body is a value of \<open>payload\<close> (one constructor per JSON shape) or of \<open>page\<close> (one per HTML view),
  turned into bytes by the parameters \<open>wb_encode\<close> and \<open>wb_render\<close>. The record \<open>web\<close> holds what the handlers take
  from outside the program: the JSON encoder, the views, the binding of requests to structs, UUID
  parsing, cookies and the router's match, next to the configuration of the services.
\<close>

section \<open>Response bodies\<close>

datatype (plugins only: code) payload =
    P_Error string | P_Blacklisted string string | P_Rotation string string
  | P_Locked string string duration | P_CaptchaRequired string string time | P_CaptchaIncorrect string string
  | P_User user | P_Login user time | P_Status string | P_Captcha string string time
  | P_Booking booking | P_Bookings "booking list"
  | P_Group group_reservation | P_Groups "group_reservation list"
  | P_GroupBuy group_buy | P_GroupBuys "group_buy list" | P_Joined group_buy group_buy_participant
  | P_Progress progress | P_Participants "(group_buy_participant \<times> string) list"
  | P_Resources "resource list" | P_Availability availability_result | P_Remaining uuid time time int int int
  | P_Generated document int | P_Documents "document list" | P_Document document
  | P_Notifications "notification list" | P_Unread int | P_Todo todo | P_Todos "todo list"
  | P_NotificationDeliveries "notification_delivery list"
  | P_Top "top_session list" | P_Trends string "trend_bucket list option" "trend_bucket list option" "trend_bucket list option"
  | P_Anomalies "anomaly_alert list"
  | P_Dictionary "data_dictionary_entry list" | P_Tags "tag list" | P_Consent string string
  | P_Consents "consent_record list" | P_Scheduled time
  | P_ImportRejected "csv_validation_error list" | P_Imported int
  | P_CacheStats nat duration
  | P_Webhook webhook | P_Webhooks "webhook list" | P_WebhookDeliveries "webhook_delivery list"
  | P_Backup backup | P_Backups "backup list" | P_RestorePlan "backup list"
  | P_Alive | P_Ready | P_Degraded

datatype (plugins only: code) page =
    Page_Landing | Page_MyBookings string bool string "booking list" | Page_NewBooking string "resource list" string
  | Page_Register string | Page_Login string string string
  | Page_Availability string "resource list" "availability_result option"
  | Page_Groups string "group_reservation list" | Page_Group string group_reservation
  | Page_GroupBuys string "group_buy list"
  | Page_GroupBuy string group_buy "progress option" "(group_buy_participant \<times> string) list" bool
  | Page_Documents string "document list" | Page_Notifications string "notification list" "todo list" string
  | Page_Analytics string "top_session list" "trend_bucket list option" "trend_bucket list option"
      "trend_bucket list option" "anomaly_alert list" string

section \<open>Requests bound to structs\<close>

record bookingRequest =
  br_ResourceID :: string
  br_GroupID :: string
  br_PartySize :: int
  br_StartTime :: string
  br_EndTime :: string
  br_Notes :: string
  br_SecureNotes :: string

record registerRequest =
  rr_Username :: string
  rr_Password :: string

record loginRequest =
  lq_Username :: string
  lq_Password :: string
  lq_CaptchaToken :: string
  lq_CaptchaAnswer :: string

record changePasswordRequest =
  cp_CurrentPassword :: string
  cp_NewPassword :: string

record groupRequest =
  gq_Name :: string
  gq_OrganizerName :: string
  gq_OrganizerEmail :: string
  gq_Capacity :: int
  gq_Notes :: string

record createGroupBuyRequest =
  gr_ResourceID :: string
  gr_Title :: string
  gr_Description :: string
  gr_Threshold :: int
  gr_Capacity :: int
  gr_StartsAt :: string
  gr_EndsAt :: string
  gr_DeadlineAt :: string

record generateRequest =
  ge_RelatedType :: string
  ge_RelatedID :: string
  ge_Title :: string
  ge_Fields :: "(string \<times> string) list"

text \<open>The payload of a to-do: absent, a value that encodes to a JSON text, or one that does not encode.\<close>

record createTodoRequest =
  td_TaskType :: string
  td_Title :: string
  td_Payload :: "string option option"
  td_DueAt :: string

record trackRequest =
  tr_EventType :: string
  tr_TargetType :: string
  tr_TargetID :: string

record consentRequest =
  cs_Scope :: string
  cs_Version :: string

record webhookCreateRequest =
  wc_Name :: string
  wc_TargetURL :: string
  wc_EventFilter :: "string list option"
  wc_FieldMapping :: "(string \<times> string) list"
  wc_Secret :: string

text \<open>A bind gives the struct or the text of its error.\<close>

type_synonym 'r bind = "request \<Rightarrow> string + 'r"

record binds =
  bind_booking :: "bookingRequest bind"
  bind_transition :: "string bind"
  bind_register :: "registerRequest bind"
  bind_login :: "loginRequest bind"
  bind_change :: "changePasswordRequest bind"
  bind_group :: "groupRequest bind"
  bind_group_buy :: "createGroupBuyRequest bind"
  bind_quantity :: "request \<Rightarrow> int"
  bind_generate :: "generateRequest bind"
  bind_todo :: "createTodoRequest bind"
  bind_todo_status :: "string bind"
  bind_track :: "trackRequest bind"
  bind_consent :: "consentRequest bind"
  bind_webhook :: "webhookCreateRequest bind"
  form_file :: "request \<Rightarrow> string option"

text \<open>\<open>wb_route\<close> is the router's choice: the method and pattern of a route, and the value of its \<open>:id\<close>.\<close>

record web =
  wb_encode :: "payload \<Rightarrow> string"
  wb_render :: "page \<Rightarrow> string"
  wb_error :: "go_error \<Rightarrow> string"
  wb_parse_uuid :: "string \<Rightarrow> uuid option"
  wb_uuid_text :: "uuid \<Rightarrow> string"
  wb_query :: "request \<Rightarrow> string \<Rightarrow> string option"
  wb_cookie :: "request \<Rightarrow> string option"
  wb_set_cookie :: "string \<Rightarrow> int \<Rightarrow> bool \<Rightarrow> string"
  wb_user_agent :: "request \<Rightarrow> string"
  wb_client_ip :: "request \<Rightarrow> string"
  wb_route :: "request \<Rightarrow> (string \<times> string \<times> string) option"
  wb_binds :: binds
  wb_digest :: "string \<Rightarrow> string"
  wb_auth_env :: auth_env
  wb_auth :: auth_settings
  wb_booking :: booking_service
  wb_analytics :: analytics_service
  wb_governance :: governance_service
  wb_network :: network
  wb_backups :: backup_service
  wb_jsonb :: "string \<Rightarrow> string option"
  wb_rasterise :: "paint list \<Rightarrow> go_error + string"
  wb_is_print :: "rune \<Rightarrow> bool"
  wb_collate :: "string \<Rightarrow> int"
  wb_ttl :: duration

type_synonym endpoint = "request \<Rightarrow> response app"

section \<open>Writing responses\<close>

definition json :: "web \<Rightarrow> int \<Rightarrow> payload \<Rightarrow> response" where
  "json wb status p = \<lparr>rs_Status = status, rs_ContentType = ''application/json; charset=utf-8'', rs_Headers = [],
     rs_Body = wb_encode wb p\<rparr>"

definition respond :: "web \<Rightarrow> int \<Rightarrow> payload \<Rightarrow> ('d, response) io" where
  "respond wb status p = ret (json wb status p)"

definition renderTempl :: "web \<Rightarrow> int \<Rightarrow> page \<Rightarrow> ('d, response) io" where
  "renderTempl wb status pg = ret \<lparr>rs_Status = status, rs_ContentType = ''text/html; charset=utf-8'', rs_Headers = [],
     rs_Body = wb_render wb pg\<rparr>"

definition plain_text :: "int \<Rightarrow> string \<Rightarrow> ('d, response) io" where
  "plain_text status msg = ret \<lparr>rs_Status = status, rs_ContentType = ''text/plain; charset=utf-8'', rs_Headers = [], rs_Body = msg\<rparr>"

text \<open>Headers set by a middleware come before those of the handlers it wraps.\<close>

definition with_header :: "string \<times> string \<Rightarrow> ('d, response) io \<Rightarrow> ('d, response) io" where
  "with_header h m = bindE m (\<lambda>resp. ret (resp\<lparr>rs_Headers := h # rs_Headers resp\<rparr>))"

definition set_cookie :: "web \<Rightarrow> string \<Rightarrow> int \<Rightarrow> string \<times> string" where
  "set_cookie wb v maxAge = (''Set-Cookie'', wb_set_cookie wb v maxAge (CookieSecure (wb_auth wb)))"

section \<open>Sessions and gates\<close>

definition unauthorized :: "web \<Rightarrow> string \<Rightarrow> ('d, response) io" where
  "unauthorized wb msg = respond wb 401 (P_Error msg)"

text \<open>\<open>strings.Contains\<close>.\<close>

fun has_substring :: "string \<Rightarrow> string \<Rightarrow> bool" where
  "has_substring [] pat = (pat = [])"
| "has_substring (c # s) pat = (take (length pat) (c # s) = pat \<or> has_substring s pat)"

definition isHTMLRoute :: "request \<Rightarrow> bool" where
  "isHTMLRoute req =
     (let accept = rq_Header req ''Accept''
      in rq_Method req = ''GET'' \<and> (accept = [] \<or> has_substring accept ''text/html'' \<or> has_substring accept ''*/*''))"

definition wantsHTML :: "web \<Rightarrow> request \<Rightarrow> ('d, response) io" where
  "wantsHTML wb req =
     (if isHTMLRoute req
      then ret \<lparr>rs_Status = 302, rs_ContentType = ''text/html; charset=utf-8'', rs_Headers = [(''Location'', ''/auth/login'')],
                rs_Body = ''<a href='' @ quoted ''/auth/login'' @ ''>Found</a>.'' @ [char_of (10 :: nat), char_of (10 :: nat)]\<rparr>
      else unauthorized wb ''authentication required'')"

definition Authenticator :: "web \<Rightarrow> bool \<Rightarrow> endpoint \<Rightarrow> endpoint" where
  "Authenticator wb required next req =
     (let cookie = (case wb_cookie wb req of None \<Rightarrow> [] | Some c \<Rightarrow> c) in
      if cookie = [] then (if required then wantsHTML wb req else next req)
      else attempt (on_db (AuthService_ResolveSession (wb_auth wb) cookie)) (\<lambda>r.
      case r of
        Inl e \<Rightarrow>
          with_header (set_cookie wb [] (-1))
            (if required
             then (if e = ErrSessionExpired then unauthorized wb ''session expired due to inactivity''
                   else if e = ErrUnauthorized then unauthorized wb ''authentication required''
                   else unauthorized wb ''authentication error'')
             else next req)
      | Inr (user, sess) \<Rightarrow>
          with_header (set_cookie wb (s_ID sess) (SessionInactivity (wb_auth wb) div second))
            (next (req\<lparr>rq_User := Some user\<rparr>))))"

definition CurrentUser :: "request \<Rightarrow> user option" where
  "CurrentUser req = rq_User req"

definition RequireAdmin :: "web \<Rightarrow> endpoint \<Rightarrow> endpoint" where
  "RequireAdmin wb next req =
     (case CurrentUser req of
        None \<Rightarrow> unauthorized wb ''authentication required''
      | Some u \<Rightarrow> if \<not> u_IsAdmin u then respond wb 403 (P_Error ''admin only'') else next req)"

definition RequireNotBlacklisted :: "web \<Rightarrow> endpoint \<Rightarrow> endpoint" where
  "RequireNotBlacklisted wb next req =
     (case CurrentUser req of
        None \<Rightarrow> unauthorized wb ''authentication required''
      | Some u \<Rightarrow> if u_IsBlacklisted u then respond wb 403 (P_Blacklisted ''user is blacklisted'' (u_BlacklistReason u))
                  else next req)"

definition rotation_exempt :: "string list" where
  "rotation_exempt = [''/api/auth/change-password'', ''/api/auth/logout'', ''/api/auth/me'']"

definition RequirePasswordRotated :: "web \<Rightarrow> endpoint \<Rightarrow> endpoint" where
  "RequirePasswordRotated wb next req =
     (case CurrentUser req of
        None \<Rightarrow> next req
      | Some u \<Rightarrow>
          if \<not> u_MustRotatePassword u then next req
          else if rq_Path req \<in> set rotation_exempt then next req
          else respond wb 403 (P_Rotation ''password rotation required''
                 (''POST '' @ ''/api/auth/change-password'' @ '' with current_password + new_password'')))"

section \<open>The read-through cache\<close>

definition CacheBypassHeader :: string where
  "CacheBypassHeader = ''X-Cache-Bypass''"

text \<open>\<open>strings.EqualFold\<close> against the word \<open>true\<close>, which no rune beyond ASCII folds into.\<close>

definition isAdminBypass :: "request \<Rightarrow> bool" where
  "isAdminBypass req \<longleftrightarrow> ascii_lower (rq_Header req CacheBypassHeader) = ''true'' \<and>
     (case CurrentUser req of None \<Rightarrow> False | Some u \<Rightarrow> u_IsAdmin u)"

definition cache_key :: "request \<Rightarrow> string" where
  "cache_key req = rq_Path req @ ''?'' @ rq_RawQuery req"

definition cached_response :: "string \<Rightarrow> response" where
  "cached_response body = \<lparr>rs_Status = 200, rs_ContentType = ''application/json'', rs_Headers = [(''X-Cache'', ''HIT'')], rs_Body = body\<rparr>"

definition ReadThroughCache ::
  "(string \<Rightarrow> string option app) \<Rightarrow> (string \<Rightarrow> string \<Rightarrow> unit app) \<Rightarrow> endpoint \<Rightarrow> endpoint" where
  "ReadThroughCache get put next req =
     (if rq_Method req \<noteq> ''GET'' then next req
      else if isAdminBypass req then with_header (''X-Cache'', ''BYPASS'') (next req)
      else bindE (get (cache_key req)) (\<lambda>found.
      case found of
        Some body \<Rightarrow> ret (cached_response body)
      | None \<Rightarrow>
          bindE (with_header (''X-Cache'', ''MISS'') (next req)) (\<lambda>resp.
          if 200 \<le> rs_Status resp \<and> rs_Status resp < 300 \<and> has_prefix (rs_Body resp) ''{''
          then bindE (put (cache_key req) (rs_Body resp)) (\<lambda>_. ret resp)
          else ret resp)))"

section \<open>Errors of the services\<close>

definition writeServiceError :: "web \<Rightarrow> go_error \<Rightarrow> ('d, response) io" where
  "writeServiceError wb e =
     (if e = ErrNotFound then respond wb 404 (P_Error (wb_error wb e))
      else if e = ErrInvalidInput then respond wb 400 (P_Error (wb_error wb e))
      else if e \<in> {ErrLeadTime, ErrCutoff, ErrDailyLimit, ErrOverlap, ErrInvalidTransition, ErrCapacityExceed, ErrConflict}
      then respond wb 409 (P_Error (wb_error wb e))
      else if e \<in> {ErrBlacklisted, ErrForbidden} then respond wb 403 (P_Error (wb_error wb e))
      else respond wb 500 (P_Error ''internal error''))"

definition writeGroupBuyError :: "web \<Rightarrow> go_error \<Rightarrow> ('d, response) io" where
  "writeGroupBuyError wb e =
     (if e = ErrOversold then respond wb 409 (P_Error ''no remaining capacity'')
      else if e = ErrAlreadyJoined then respond wb 409 (P_Error ''already joined this group buy'')
      else if e = ErrDeadlinePassed then respond wb 409 (P_Error ''deadline has passed'')
      else if e = ErrOptimisticLock then respond wb 409 (P_Error ''please retry: high contention'')
      else writeServiceError wb e)"

definition writeAuthError :: "web \<Rightarrow> go_error \<Rightarrow> http" where
  "writeAuthError wb e =
     (if e = ErrPasswordPolicy \<or> e = ErrInvalidInput then respond wb 400 (P_Error (wb_error wb e))
      else if e = ErrConflict then respond wb 409 (P_Error (wb_error wb e))
      else if e = ErrCredentialInvalid then respond wb 401 (P_Error ''invalid username or password'')
      else if e = ErrLocked then respond wb 423 (P_Locked ''account temporarily locked'' (wb_error wb e) (LockoutDuration (wb_auth wb)))
      else if e = ErrCaptchaRequired then
        attempt (AuthService_IssueCaptcha (wb_auth wb)) (\<lambda>r. case r of
          Inl _ \<Rightarrow> respond wb 500 (P_Error ''captcha unavailable'')
        | Inr ch \<Rightarrow> respond wb 401 (P_CaptchaRequired (c_Token ch) (c_Question ch) (c_ExpiresAt ch)))
      else if e = ErrCaptchaInvalid then
        attempt (AuthService_IssueCaptcha (wb_auth wb)) (\<lambda>r. case r of
          Inl _ \<Rightarrow> respond wb 500 (P_Error ''captcha unavailable'')
        | Inr ch \<Rightarrow> respond wb 401 (P_CaptchaIncorrect (c_Token ch) (c_Question ch)))
      else respond wb 500 (P_Error ''internal error''))"

text \<open>The service call of a handler: its error is written, its value goes on.\<close>

definition serving :: "web \<Rightarrow> ('d, 'a) io \<Rightarrow> ('a \<Rightarrow> ('d, response) io) \<Rightarrow> ('d, response) io" where
  "serving wb m k = attempt m (\<lambda>r. case r of Inl e \<Rightarrow> writeServiceError wb e | Inr x \<Rightarrow> k x)"

end
