(* ===== verification/Handlers.thy ===== *)
theory Handlers
  imports Web
begin

text \<open>
  The handlers of bookings, accounts, group reservations, group buys and resources:
  \<open>handlers/booking.go\<close>, \<open>auth.go\<close>, \<open>group.go\<close>, \<open>groupbuy.go\<close>, \<open>resource.go\<close> and \<open>health.go\<close>. A handler is an action
  on the database that ends in a response; a handler behind a session dereferences the current user, so
  that without one it panics (\<open>with_user\<close>).
\<close>

section \<open>What handlers share\<close>

definition with_user :: "request \<Rightarrow> (user \<Rightarrow> ('d, 'a) io) \<Rightarrow> ('d, 'a) io" where
  "with_user req k = (case CurrentUser req of None \<Rightarrow> fail OtherError | Some u \<Rightarrow> k u)"

definition parsing_uuid :: "web \<Rightarrow> string \<Rightarrow> string \<Rightarrow> (uuid \<Rightarrow> ('d, response) io) \<Rightarrow> ('d, response) io" where
  "parsing_uuid wb msg s k = (case wb_parse_uuid wb s of None \<Rightarrow> respond wb 400 (P_Error msg) | Some i \<Rightarrow> k i)"

definition binding :: "web \<Rightarrow> string + 'r \<Rightarrow> ('r \<Rightarrow> ('d, response) io) \<Rightarrow> ('d, response) io" where
  "binding wb bound k = (case bound of Inl msg \<Rightarrow> respond wb 400 (P_Error msg) | Inr x \<Rightarrow> k x)"

definition query_default :: "web \<Rightarrow> request \<Rightarrow> string \<Rightarrow> string \<Rightarrow> string" where
  "query_default wb req key dflt = (case wb_query wb req key of None \<Rightarrow> dflt | Some v \<Rightarrow> v)"

definition query_int :: "web \<Rightarrow> request \<Rightarrow> string \<Rightarrow> string \<Rightarrow> int" where
  "query_int wb req key dflt = atoi_value (query_default wb req key dflt)"

definition parseTime :: "string \<Rightarrow> time option" where
  "parseTime s = (case parse_RFC3339 s of Some t \<Rightarrow> Some t | None \<Rightarrow> parse_minutes s)"

definition parsing_time :: "web \<Rightarrow> string \<Rightarrow> string \<Rightarrow> (time \<Rightarrow> ('d, response) io) \<Rightarrow> ('d, response) io" where
  "parsing_time wb field s k =
     (case parseTime s of
        None \<Rightarrow> respond wb 400 (P_Error (field @ '' must be RFC3339 or YYYY-MM-DDTHH:MM''))
      | Some t \<Rightarrow> k t)"

definition usernameOf :: "user option \<Rightarrow> string" where
  "usernameOf u = (case u of None \<Rightarrow> [] | Some u \<Rightarrow> u_Username u)"

section \<open>Bookings\<close>

definition booking_input :: "user \<Rightarrow> bookingRequest \<Rightarrow> uuid \<Rightarrow> uuid option \<Rightarrow> time \<Rightarrow> time \<Rightarrow> create_input" where
  "booking_input user rq rid gid s e = \<lparr>in_UserID = u_ID user, in_ResourceID = rid, in_GroupID = gid,
     in_PartySize = br_PartySize rq, in_StartTime = s, in_EndTime = e, in_Notes = br_Notes rq,
     in_SecureNotes = br_SecureNotes rq\<rparr>"

definition BookingHandler_Create :: "web \<Rightarrow> handler" where
  "BookingHandler_Create wb req =
     binding wb (bind_booking (wb_binds wb) req) (\<lambda>rq.
     parsing_uuid wb ''resource_id must be a valid UUID'' (br_ResourceID rq) (\<lambda>rid.
     parsing_time wb ''start_time'' (br_StartTime rq) (\<lambda>s.
     parsing_time wb ''end_time'' (br_EndTime rq) (\<lambda>e.
     with_user req (\<lambda>user.
     let create = (\<lambda>gid. serving wb (BookingService_Create (wb_booking wb) (booking_input user rq rid gid s e))
                           (\<lambda>b. respond wb 201 (P_Booking b))) in
     if br_GroupID rq = [] then create None
     else parsing_uuid wb ''group_id must be a valid UUID'' (br_GroupID rq) (\<lambda>gid. create (Some gid)))))))"

definition BookingHandler_ListMine :: "web \<Rightarrow> handler" where
  "BookingHandler_ListMine wb req =
     with_user req (\<lambda>user.
     serving wb (BookingService_ListByUser (u_ID user) (query_int wb req ''limit'' ''50'') (query_int wb req ''offset'' ''0''))
       (\<lambda>bs. respond wb 200 (P_Bookings bs)))"

definition BookingHandler_Get :: "web \<Rightarrow> string \<Rightarrow> handler" where
  "BookingHandler_Get wb param req =
     parsing_uuid wb ''invalid id'' param (\<lambda>i.
     with_user req (\<lambda>user.
     serving wb (BookingService_GetForOwner (wb_booking wb) (u_ID user) i) (\<lambda>b.
     if b_UserID b \<noteq> u_ID user then respond wb 403 (P_Error ''forbidden'')
     else respond wb 200 (P_Booking b))))"

definition BookingHandler_Transition :: "web \<Rightarrow> string \<Rightarrow> handler" where
  "BookingHandler_Transition wb param req =
     parsing_uuid wb ''invalid id'' param (\<lambda>i.
     binding wb (bind_transition (wb_binds wb) req) (\<lambda>target.
     with_user req (\<lambda>user.
     serving wb (BookingService_Transition (wb_booking wb) (u_ID user) i (booking_status_of target))
       (\<lambda>b. respond wb 200 (P_Booking b)))))"

definition BookingHandler_Index :: "web \<Rightarrow> handler" where
  "BookingHandler_Index wb req =
     (case CurrentUser req of
        None \<Rightarrow> renderTempl wb 200 Page_Landing
      | Some user \<Rightarrow>
          serving wb (BookingService_ListByUser (u_ID user) 50 0) (\<lambda>bs.
          renderTempl wb 200 (Page_MyBookings (u_Username user) (u_IsBlacklisted user) (u_BlacklistReason user) bs)))"

definition BookingHandler_NewPage :: "web \<Rightarrow> handler" where
  "BookingHandler_NewPage wb req =
     serving wb (ResourceService_List (wb_collate wb)) (\<lambda>resources.
     with_user req (\<lambda>user. renderTempl wb 200 (Page_NewBooking (u_Username user) resources (query_default wb req ''error'' []))))"

section \<open>Accounts\<close>

text \<open>The service call of an account handler: its error is written by \<open>writeAuthError\<close>.\<close>

definition authenticating :: "web \<Rightarrow> 'a action \<Rightarrow> ('a \<Rightarrow> http) \<Rightarrow> http" where
  "authenticating wb m k = attempt m (\<lambda>r. case r of Inl e \<Rightarrow> writeAuthError wb e | Inr x \<Rightarrow> k x)"

definition AuthHandler_Register :: "web \<Rightarrow> handler" where
  "AuthHandler_Register wb req =
     binding wb (bind_register (wb_binds wb) req) (\<lambda>rq.
     authenticating wb (AuthService_Register (wb_auth_env wb) (wb_auth wb) (rr_Username rq) (rr_Password rq))
       (\<lambda>user. respond wb 201 (P_User user)))"

definition AuthHandler_Login :: "web \<Rightarrow> handler" where
  "AuthHandler_Login wb req =
     binding wb (bind_login (wb_binds wb) req) (\<lambda>rq.
     authenticating wb (AuthService_Login (wb_auth_env wb) (wb_auth wb)
         \<lparr>li_Username = lq_Username rq, li_Password = lq_Password rq, li_CaptchaToken = lq_CaptchaToken rq,
          li_CaptchaAnswer = lq_CaptchaAnswer rq, li_UserAgent = wb_user_agent wb req, li_IP = wb_client_ip wb req\<rparr>)
       (\<lambda>res. with_header (set_cookie wb (s_ID (lr_Session res)) (SessionInactivity (wb_auth wb) div second))
                (respond wb 200 (P_Login (lr_User res) (s_ExpiresAt (lr_Session res))))))"

definition AuthHandler_Logout :: "web \<Rightarrow> handler" where
  "AuthHandler_Logout wb req =
     (let answer = with_header (set_cookie wb [] (-1)) (respond wb 200 (P_Status ''logged_out''))
      in case wb_cookie wb req of None \<Rightarrow> answer | Some cookie \<Rightarrow> ignoring (AuthService_Logout cookie) answer)"

text \<open>A nil user encodes as \<open>null\<close>; behind a session there is one.\<close>

definition AuthHandler_Me :: "web \<Rightarrow> handler" where
  "AuthHandler_Me wb req = with_user req (\<lambda>user. respond wb 200 (P_User user))"

definition AuthHandler_ChangePassword :: "web \<Rightarrow> handler" where
  "AuthHandler_ChangePassword wb req =
     binding wb (bind_change (wb_binds wb) req) (\<lambda>rq.
     with_user req (\<lambda>user.
     authenticating wb (AuthService_ChangePassword (wb_auth_env wb) (wb_auth wb) (u_ID user) (cp_CurrentPassword rq) (cp_NewPassword rq))
       (\<lambda>_. respond wb 200 (P_Status ''rotated''))))"

definition AuthHandler_Captcha :: "web \<Rightarrow> handler" where
  "AuthHandler_Captcha wb req =
     attempt (AuthService_IssueCaptcha (wb_auth wb)) (\<lambda>r. case r of
       Inl _ \<Rightarrow> respond wb 500 (P_Error ''captcha unavailable'')
     | Inr ch \<Rightarrow> respond wb 200 (P_Captcha (c_Token ch) (c_Question ch) (c_ExpiresAt ch)))"

definition AuthHandler_RegisterPage :: "web \<Rightarrow> handler" where
  "AuthHandler_RegisterPage wb req = renderTempl wb 200 (Page_Register (query_default wb req ''error'' []))"

definition AuthHandler_LoginPage :: "web \<Rightarrow> handler" where
  "AuthHandler_LoginPage wb req = renderTempl wb 200 (Page_Login (query_default wb req ''error'' [])
     (query_default wb req ''captcha_token'' []) (query_default wb req ''captcha_question'' []))"

section \<open>Group reservations\<close>

definition group_of_request :: "groupRequest \<Rightarrow> user option \<Rightarrow> group_reservation" where
  "group_of_request rq user = \<lparr>g_ID = uuid_nil, g_Name = gq_Name rq, g_OrganizerID = map_option u_ID user,
     g_OrganizerName = gq_OrganizerName rq, g_OrganizerEmail = gq_OrganizerEmail rq, g_Capacity = gq_Capacity rq,
     g_Notes = gq_Notes rq, g_CreatedAt = zero_time, g_UpdatedAt = zero_time, g_Bookings = []\<rparr>"

definition GroupHandler_Create :: "web \<Rightarrow> handler" where
  "GroupHandler_Create wb req =
     binding wb (bind_group (wb_binds wb) req) (\<lambda>rq.
     serving wb (GroupService_Create (group_of_request rq (CurrentUser req))) (\<lambda>created.
     respond wb 201 (P_Group created)))"

definition GroupHandler_List :: "web \<Rightarrow> handler" where
  "GroupHandler_List wb req =
     serving wb (GroupService_List (query_int wb req ''limit'' ''50'') (query_int wb req ''offset'' ''0'')) (\<lambda>groups.
     respond wb 200 (P_Groups (map (projectGroup (CurrentUser req)) groups)))"

definition GroupHandler_Get :: "web \<Rightarrow> string \<Rightarrow> handler" where
  "GroupHandler_Get wb param req =
     parsing_uuid wb ''invalid id'' param (\<lambda>i.
     serving wb (GroupService_Get i) (\<lambda>g. respond wb 200 (P_Group (projectGroup (CurrentUser req) g))))"

definition GroupHandler_IndexHTML :: "web \<Rightarrow> handler" where
  "GroupHandler_IndexHTML wb req =
     serving wb (GroupService_List 25 0) (\<lambda>groups.
     renderTempl wb 200 (Page_Groups (usernameOf (CurrentUser req)) (map (projectGroup (CurrentUser req)) groups)))"

definition GroupHandler_DetailHTML :: "web \<Rightarrow> string \<Rightarrow> handler" where
  "GroupHandler_DetailHTML wb param req =
     (case wb_parse_uuid wb param of
        None \<Rightarrow> plain_text 400 ''invalid id''
      | Some i \<Rightarrow>
          serving wb (GroupService_Get i) (\<lambda>g.
          renderTempl wb 200 (Page_Group (usernameOf (CurrentUser req)) (projectGroup (CurrentUser req) g))))"

section \<open>Group buys\<close>

definition group_buy_input :: "user \<Rightarrow> createGroupBuyRequest \<Rightarrow> uuid \<Rightarrow> time \<Rightarrow> time \<Rightarrow> time option \<Rightarrow> create_group_buy_input" where
  "group_buy_input user rq rid s e dl = \<lparr>cg_OrganizerID = u_ID user, cg_ResourceID = rid, cg_Title = gr_Title rq,
     cg_Description = gr_Description rq, cg_Threshold = gr_Threshold rq, cg_Capacity = gr_Capacity rq,
     cg_StartsAt = s, cg_EndsAt = e, cg_Deadline = dl\<rparr>"

definition GroupBuyHandler_Create :: "web \<Rightarrow> handler" where
  "GroupBuyHandler_Create wb req =
     binding wb (bind_group_buy (wb_binds wb) req) (\<lambda>rq.
     parsing_uuid wb ''resource_id must be UUID'' (gr_ResourceID rq) (\<lambda>rid.
     parsing_time wb ''starts_at'' (gr_StartsAt rq) (\<lambda>s.
     parsing_time wb ''ends_at'' (gr_EndsAt rq) (\<lambda>e.
     with_user req (\<lambda>user.
     let create = (\<lambda>dl. serving wb (GroupBuyService_Create (group_buy_input user rq rid s e dl)) (\<lambda>g. respond wb 201 (P_GroupBuy g))) in
     if gr_DeadlineAt rq = [] then create None
     else parsing_time wb ''deadline'' (gr_DeadlineAt rq) (\<lambda>dl. create (Some dl)))))))"

definition GroupBuyHandler_Join :: "web \<Rightarrow> string \<Rightarrow> handler" where
  "GroupBuyHandler_Join wb param req =
     parsing_uuid wb ''invalid id'' param (\<lambda>i.
     let qty = (if bind_quantity (wb_binds wb) req \<le> 0 then 1 else bind_quantity (wb_binds wb) req) in
     with_user req (\<lambda>user.
     attempt (GroupBuyService_Join (wb_is_print wb) i (u_ID user) qty) (\<lambda>r. case r of
       Inl e \<Rightarrow> writeGroupBuyError wb e
     | Inr (g, p) \<Rightarrow>
         ignoring (AnalyticsService_Track (wb_analytics wb) ''favorite'' ''group_buy'' i (u_ID user))
           (respond wb 200 (P_Joined g p)))))"

definition GroupBuyHandler_Get :: "web \<Rightarrow> string \<Rightarrow> handler" where
  "GroupBuyHandler_Get wb param req =
     parsing_uuid wb ''invalid id'' param (\<lambda>i.
     serving wb (GroupBuyService_Get i) (\<lambda>g.
     case CurrentUser req of
       None \<Rightarrow> respond wb 200 (P_GroupBuy g)
     | Some u \<Rightarrow> ignoring (AnalyticsService_Track (wb_analytics wb) ''view'' ''group_buy'' i (u_ID u)) (respond wb 200 (P_GroupBuy g))))"

definition GroupBuyHandler_List :: "web \<Rightarrow> handler" where
  "GroupBuyHandler_List wb req =
     serving wb (GroupBuyService_List (query_int wb req ''limit'' ''50'') (query_int wb req ''offset'' ''0''))
       (\<lambda>gs. respond wb 200 (P_GroupBuys gs))"

definition GroupBuyHandler_Progress :: "web \<Rightarrow> string \<Rightarrow> handler" where
  "GroupBuyHandler_Progress wb param req =
     parsing_uuid wb ''invalid id'' param (\<lambda>i.
     serving wb (GroupBuyService_Progress i) (\<lambda>p. respond wb 200 (P_Progress p)))"

definition masked_participant :: "web \<Rightarrow> group_buy_participant \<Rightarrow> group_buy_participant \<times> string" where
  "masked_participant wb p = (p, MaskName (take 8 (wb_uuid_text wb (p_UserID p))))"

definition GroupBuyHandler_Participants :: "web \<Rightarrow> string \<Rightarrow> handler" where
  "GroupBuyHandler_Participants wb param req =
     parsing_uuid wb ''invalid id'' param (\<lambda>i.
     serving wb (GroupBuyService_Participants i) (\<lambda>ps. respond wb 200 (P_Participants (map (masked_participant wb) ps))))"

definition GroupBuyHandler_IndexHTML :: "web \<Rightarrow> handler" where
  "GroupBuyHandler_IndexHTML wb req =
     serving wb (GroupBuyService_List 50 0) (\<lambda>gs. renderTempl wb 200 (Page_GroupBuys (usernameOf (CurrentUser req)) gs))"

definition is_member :: "user option \<Rightarrow> group_buy_participant list \<Rightarrow> bool" where
  "is_member user ps = (case user of None \<Rightarrow> False | Some u \<Rightarrow> list_ex (\<lambda>p. p_UserID p = u_ID u) ps)"

definition GroupBuyHandler_DetailHTML :: "web \<Rightarrow> string \<Rightarrow> handler" where
  "GroupBuyHandler_DetailHTML wb param req =
     (case wb_parse_uuid wb param of
        None \<Rightarrow> plain_text 400 ''invalid id''
      | Some i \<Rightarrow>
          serving wb (GroupBuyService_Get i) (\<lambda>g.
          attempt (GroupBuyService_Progress i) (\<lambda>pr.
          serving wb (GroupBuyService_Participants i) (\<lambda>ps.
          renderTempl wb 200 (Page_GroupBuy (usernameOf (CurrentUser req)) g
            (case pr of Inl _ \<Rightarrow> None | Inr p \<Rightarrow> Some p) (map (masked_participant wb) ps) (is_member (CurrentUser req) ps))))))"

section \<open>Resources\<close>

definition ResourceHandler_List :: "web \<Rightarrow> handler" where
  "ResourceHandler_List wb req =
     serving wb (ResourceService_List (wb_collate wb)) (\<lambda>rs. respond wb 200 (P_Resources rs))"

definition availability_on :: "web \<Rightarrow> uuid \<Rightarrow> string \<Rightarrow> http" where
  "availability_on wb rid date =
     (case parse_date date of
        None \<Rightarrow> respond wb 400 (P_Error ''date must be YYYY-MM-DD'')
      | Some day \<Rightarrow> serving wb (ResourceService_Availability rid day) (\<lambda>a. respond wb 200 (P_Availability a)))"

definition ResourceHandler_Availability :: "web \<Rightarrow> handler" where
  "ResourceHandler_Availability wb req =
     parsing_uuid wb ''resource_id must be a valid UUID'' (query_default wb req ''resource_id'' []) (\<lambda>rid.
     let date = query_default wb req ''date'' [] in
     if date = [] then bindE now (\<lambda>t. availability_on wb rid (format_date t))
     else availability_on wb rid date)"

definition ResourceHandler_RemainingSeats :: "web \<Rightarrow> string \<Rightarrow> handler" where
  "ResourceHandler_RemainingSeats wb param req =
     parsing_uuid wb ''id must be a UUID'' param (\<lambda>rid.
     case parse_RFC3339 (query_default wb req ''start'' []) of
       None \<Rightarrow> respond wb 400 (P_Error ''start must be RFC3339'')
     | Some s \<Rightarrow>
         (case parse_RFC3339 (query_default wb req ''end'' []) of
            None \<Rightarrow> respond wb 400 (P_Error ''end must be RFC3339'')
          | Some e \<Rightarrow>
              serving wb (ResourceService_RemainingSeats rid s e) (\<lambda>(capacity, active, remaining).
              respond wb 200 (P_Remaining rid s e capacity active remaining))))"

definition page_availability :: "web \<Rightarrow> request \<Rightarrow> uuid \<Rightarrow> availability_result option action" where
  "page_availability wb req rid =
     bindE now (\<lambda>t.
     case parse_date (query_default wb req ''date'' (format_date t)) of
       None \<Rightarrow> ret None
     | Some day \<Rightarrow> attempt (ResourceService_Availability rid day) (\<lambda>r. ret (case r of Inl _ \<Rightarrow> None | Inr a \<Rightarrow> Some a)))"

definition ResourceHandler_AvailabilityPage :: "web \<Rightarrow> handler" where
  "ResourceHandler_AvailabilityPage wb req =
     serving wb (ResourceService_List (wb_collate wb)) (\<lambda>resources.
     let rid = query_default wb req ''resource_id'' [] in
     bindE (if rid = [] then ret None
            else case wb_parse_uuid wb rid of None \<Rightarrow> ret None | Some i \<Rightarrow> page_availability wb req i) (\<lambda>result.
     renderTempl wb 200 (Page_Availability (usernameOf (CurrentUser req)) resources result)))"

section \<open>Health\<close>

definition HealthHandler_Liveness :: "web \<Rightarrow> handler" where
  "HealthHandler_Liveness wb req = respond wb 200 P_Alive"

definition HealthHandler_Readiness :: "web \<Rightarrow> handler" where
  "HealthHandler_Readiness wb req =
     attempt (sql (\<lambda>_ d. Inr ((), d))) (\<lambda>r. case r of Inl _ \<Rightarrow> respond wb 503 P_Degraded | Inr _ \<Rightarrow> respond wb 200 P_Ready)"

end
