(* ===== verification/Admin_Handlers.thy ===== *)
theory Admin_Handlers
  imports Handlers
begin

text \<open>
  The handlers of documents, notifications, analytics, governance and administration:
  \<open>handlers/document.go\<close>, \<open>notification.go\<close>, \<open>analytics.go\<close>, \<open>governance.go\<close> and \<open>admin.go\<close>. Those that touch the
  cache or the backup files are actions of the server.
\<close>

section \<open>Documents\<close>

definition generating ::
  "web \<Rightarrow> request \<Rightarrow> (uuid \<Rightarrow> string \<Rightarrow> uuid \<Rightarrow> string \<Rightarrow> (string \<times> string) list \<Rightarrow> (document \<times> document_revision) action) \<Rightarrow> http" where
  "generating wb req generate =
     binding wb (bind_generate (wb_binds wb) req) (\<lambda>rq.
     parsing_uuid wb ''related_id must be UUID'' (ge_RelatedID rq) (\<lambda>rid.
     with_user req (\<lambda>user.
     serving wb (generate (u_ID user) (ge_RelatedType rq) rid (ge_Title rq) (ge_Fields rq)) (\<lambda>(doc, rvn).
     respond wb 201 (P_Generated doc (rev_Revision rvn))))))"

definition DocumentHandler_Confirmation :: "web \<Rightarrow> handler" where
  "DocumentHandler_Confirmation wb req = generating wb req GenerateConfirmation"

definition DocumentHandler_CheckinPass :: "web \<Rightarrow> handler" where
  "DocumentHandler_CheckinPass wb req = generating wb req (GenerateCheckinPass (wb_rasterise wb))"

definition DocumentHandler_List :: "web \<Rightarrow> handler" where
  "DocumentHandler_List wb req =
     with_user req (\<lambda>user.
     serving wb (DocumentService_ListByOwner (u_ID user)) (\<lambda>ds. respond wb 200 (P_Documents ds)))"

definition DocumentHandler_Get :: "web \<Rightarrow> string \<Rightarrow> handler" where
  "DocumentHandler_Get wb param req =
     parsing_uuid wb ''invalid id'' param (\<lambda>i.
     serving wb (DocumentService_Get i) (\<lambda>d.
     with_user req (\<lambda>user.
     if d_OwnerUserID d \<noteq> u_ID user then respond wb 403 (P_Error ''forbidden'')
     else respond wb 200 (P_Document d))))"

definition content_response :: "document \<Rightarrow> document_revision \<Rightarrow> response" where
  "content_response meta rvn = \<lparr>rs_Status = 200, rs_ContentType = rev_ContentType rvn,
     rs_Headers = [(''Content-Disposition'', ''inline; filename='' @ quoted (d_Title meta)),
                   (''X-Revision'', go_decimal (rev_Revision rvn))] @
                  (if rev_Superseded rvn then [(''X-Superseded'', ''true'')] else []),
     rs_Body = rev_Content rvn\<rparr>"

definition serve_revision :: "web \<Rightarrow> user \<Rightarrow> document \<Rightarrow> uuid \<Rightarrow> document_revision \<Rightarrow> http" where
  "serve_revision wb user meta i rvn =
     ignoring (AnalyticsService_Track (wb_analytics wb) ''download'' ''document'' i (u_ID user)) (ret (content_response meta rvn))"

definition DocumentHandler_Content :: "web \<Rightarrow> string \<Rightarrow> handler" where
  "DocumentHandler_Content wb param req =
     parsing_uuid wb ''invalid id'' param (\<lambda>i.
     serving wb (DocumentService_Get i) (\<lambda>meta.
     with_user req (\<lambda>user.
     if d_OwnerUserID meta \<noteq> u_ID user then respond wb 403 (P_Error ''forbidden'')
     else
       let r = query_default wb req ''revision'' [] in
       if r \<noteq> []
       then (case go_atoi r of
               None \<Rightarrow> respond wb 400 (P_Error ''revision must be int'')
             | Some n \<Rightarrow> serving wb (DocumentService_GetRevision i n) (serve_revision wb user meta i))
       else serving wb (DocumentService_GetCurrent i) (serve_revision wb user meta i))))"

text \<open>A document whose history does not load is shown without it.\<close>

fun load_histories :: "document list \<Rightarrow> document list action" where
  "load_histories [] = ret []"
| "load_histories (d # ds) =
     attempt (DocumentService_Get (d_ID d)) (\<lambda>r.
     bindE (load_histories ds) (\<lambda>rest. ret ((case r of Inl _ \<Rightarrow> d | Inr fd \<Rightarrow> fd) # rest)))"

definition DocumentHandler_CenterHTML :: "web \<Rightarrow> handler" where
  "DocumentHandler_CenterHTML wb req =
     with_user req (\<lambda>user.
     serving wb (DocumentService_ListByOwner (u_ID user)) (\<lambda>ds.
     bindE (load_histories ds) (\<lambda>full. renderTempl wb 200 (Page_Documents (u_Username user) full))))"

section \<open>Notifications and to-dos\<close>

definition NotificationHandler_List :: "web \<Rightarrow> handler" where
  "NotificationHandler_List wb req =
     with_user req (\<lambda>user.
     let unread = (query_default wb req ''unread'' [] = ''1'' \<or> query_default wb req ''unread'' [] = ''true'') in
     serving wb (NotificationService_List (u_ID user) unread (query_int wb req ''limit'' ''50''))
       (\<lambda>ns. respond wb 200 (P_Notifications ns)))"

definition NotificationHandler_MarkRead :: "web \<Rightarrow> string \<Rightarrow> handler" where
  "NotificationHandler_MarkRead wb param req =
     parsing_uuid wb ''invalid id'' param (\<lambda>i.
     with_user req (\<lambda>user.
     serving wb (NotificationService_MarkRead (u_ID user) i) (\<lambda>_. respond wb 200 (P_Status ''read''))))"

definition NotificationHandler_UnreadCount :: "web \<Rightarrow> handler" where
  "NotificationHandler_UnreadCount wb req =
     with_user req (\<lambda>user.
     serving wb (NotificationService_UnreadCount (u_ID user)) (\<lambda>n. respond wb 200 (P_Unread n)))"

text \<open>\<open>due_at\<close> is read and dropped.\<close>

definition NotificationHandler_CreateTodo :: "web \<Rightarrow> handler" where
  "NotificationHandler_CreateTodo wb req =
     binding wb (bind_todo (wb_binds wb) req) (\<lambda>rq.
     with_user req (\<lambda>user.
     serving wb (NotificationService_CreateTodo (wb_jsonb wb) (u_ID user) (td_TaskType rq) (td_Title rq) (td_Payload rq) None)
       (\<lambda>t. respond wb 201 (P_Todo t))))"

definition NotificationHandler_ListTodos :: "web \<Rightarrow> handler" where
  "NotificationHandler_ListTodos wb req =
     with_user req (\<lambda>user.
     serving wb (NotificationService_ListTodos (u_ID user) (query_default wb req ''status'' []) (query_int wb req ''limit'' ''50''))
       (\<lambda>ts. respond wb 200 (P_Todos ts)))"

definition NotificationHandler_UpdateTodoStatus :: "web \<Rightarrow> string \<Rightarrow> handler" where
  "NotificationHandler_UpdateTodoStatus wb param req =
     parsing_uuid wb ''invalid id'' param (\<lambda>i.
     binding wb (bind_todo_status (wb_binds wb) req) (\<lambda>status.
     with_user req (\<lambda>user.
     serving wb (NotificationService_UpdateTodoStatus (u_ID user) i status) (\<lambda>_. respond wb 200 (P_Status status)))))"

definition NotificationHandler_AdminDeliveries :: "web \<Rightarrow> handler" where
  "NotificationHandler_AdminDeliveries wb req =
     serving wb (NotificationService_AdminDeliveries (query_int wb req ''limit'' ''100''))
       (\<lambda>ds. respond wb 200 (P_NotificationDeliveries ds))"

definition NotificationHandler_CenterHTML :: "web \<Rightarrow> handler" where
  "NotificationHandler_CenterHTML wb req =
     with_user req (\<lambda>user.
     serving wb (NotificationService_List (u_ID user) False 50) (\<lambda>ns.
     let statusFilter = query_default wb req ''status'' [] in
     serving wb (NotificationService_ListTodos (u_ID user) statusFilter 50) (\<lambda>ts.
     renderTempl wb 200 (Page_Notifications (u_Username user) ns ts statusFilter))))"

section \<open>Analytics\<close>

definition AnalyticsHandler_Track :: "web \<Rightarrow> handler" where
  "AnalyticsHandler_Track wb req =
     binding wb (bind_track (wb_binds wb) req) (\<lambda>rq.
     parsing_uuid wb ''target_id must be UUID'' (tr_TargetID rq) (\<lambda>tid.
     let userID = (case CurrentUser req of None \<Rightarrow> uuid_nil | Some u \<Rightarrow> u_ID u) in
     serving wb (AnalyticsService_Track (wb_analytics wb) (tr_EventType rq) (tr_TargetType rq) tid userID)
       (\<lambda>_. respond wb 202 (P_Status ''tracked''))))"

definition AnalyticsHandler_Top :: "web \<Rightarrow> handler" where
  "AnalyticsHandler_Top wb req =
     serving wb (AnalyticsService_TopSessions (query_int wb req ''days'' ''7'') (query_int wb req ''limit'' ''10''))
       (\<lambda>top. respond wb 200 (P_Top top))"

definition AnalyticsHandler_Trends :: "web \<Rightarrow> handler" where
  "AnalyticsHandler_Trends wb req =
     (let et = query_default wb req ''event_type'' ''view'' in
      serving wb (AnalyticsService_Trends et) (\<lambda>out. respond wb 200 (P_Trends et (out 7) (out 30) (out 90))))"

definition AnalyticsHandler_Anomalies :: "web \<Rightarrow> handler" where
  "AnalyticsHandler_Anomalies wb req =
     serving wb (AnalyticsService_Anomalies (query_int wb req ''limit'' ''50'')) (\<lambda>xs. respond wb 200 (P_Anomalies xs))"

text \<open>\<open>x, _ := m()\<close>: the zero value on an error.\<close>

definition or_zero :: "('d, 'a) io \<Rightarrow> 'a \<Rightarrow> ('a \<Rightarrow> ('d, 'b) io) \<Rightarrow> ('d, 'b) io" where
  "or_zero m zero k = attempt m (\<lambda>r. k (case r of Inl _ \<Rightarrow> zero | Inr x \<Rightarrow> x))"

definition AnalyticsHandler_DashboardHTML :: "web \<Rightarrow> handler" where
  "AnalyticsHandler_DashboardHTML wb req =
     (case CurrentUser req of
        None \<Rightarrow> plain_text 403 ''admin only''
      | Some u \<Rightarrow>
          if \<not> u_IsAdmin u then plain_text 403 ''admin only''
          else
            let eventType = query_default wb req ''event_type'' ''view'' in
            or_zero (AnalyticsService_TopSessions 7 10) [] (\<lambda>top.
            or_zero (AnalyticsService_Trends eventType) (\<lambda>_. None) (\<lambda>trends.
            or_zero (AnalyticsService_Anomalies 20) [] (\<lambda>anomalies.
            renderTempl wb 200 (Page_Analytics (u_Username u) top (trends 7) (trends 30) (trends 90) anomalies eventType)))))"

section \<open>Governance\<close>

definition GovernanceHandler_Dictionary :: "web \<Rightarrow> handler" where
  "GovernanceHandler_Dictionary wb req =
     serving wb (GovernanceService_Dictionary (wb_governance wb)) (\<lambda>es. respond wb 200 (P_Dictionary es))"

definition GovernanceHandler_Tags :: "web \<Rightarrow> handler" where
  "GovernanceHandler_Tags wb req =
     serving wb (GovernanceService_Tags (wb_governance wb)) (\<lambda>ts. respond wb 200 (P_Tags ts))"

definition consent_version :: "consentRequest \<Rightarrow> string" where
  "consent_version rq = (if cs_Version rq = [] then ''v1'' else cs_Version rq)"

definition GovernanceHandler_GrantConsent :: "web \<Rightarrow> handler" where
  "GovernanceHandler_GrantConsent wb req =
     binding wb (bind_consent (wb_binds wb) req) (\<lambda>rq.
     with_user req (\<lambda>user.
     serving wb (GovernanceService_GrantConsent (u_ID user) (cs_Scope rq) (consent_version rq))
       (\<lambda>_. respond wb 200 (P_Consent ''granted'' (cs_Scope rq)))))"

definition GovernanceHandler_WithdrawConsent :: "web \<Rightarrow> handler" where
  "GovernanceHandler_WithdrawConsent wb req =
     binding wb (bind_consent (wb_binds wb) req) (\<lambda>rq.
     with_user req (\<lambda>user.
     serving wb (GovernanceService_WithdrawConsent (u_ID user) (cs_Scope rq) (consent_version rq))
       (\<lambda>_. respond wb 200 (P_Consent ''withdrawn'' (cs_Scope rq)))))"

definition GovernanceHandler_ListConsent :: "web \<Rightarrow> handler" where
  "GovernanceHandler_ListConsent wb req =
     with_user req (\<lambda>user.
     serving wb (GovernanceService_ConsentHistory (u_ID user)) (\<lambda>cs. respond wb 200 (P_Consents cs)))"

definition GovernanceHandler_RequestDeletion :: "web \<Rightarrow> handler" where
  "GovernanceHandler_RequestDeletion wb req =
     with_user req (\<lambda>user.
     serving wb (GovernanceService_RequestDeletion (u_ID user)) (\<lambda>q. respond wb 202 (P_Scheduled (dr_ProcessAfter q))))"

definition GovernanceHandler_CancelDeletion :: "web \<Rightarrow> handler" where
  "GovernanceHandler_CancelDeletion wb req =
     with_user req (\<lambda>user.
     serving wb (GovernanceService_CancelDeletion (u_ID user)) (\<lambda>_. respond wb 200 (P_Status ''canceled'')))"

definition GovernanceHandler_ImportResources :: "web \<Rightarrow> handler" where
  "GovernanceHandler_ImportResources wb req =
     (case form_file (wb_binds wb) req of
        None \<Rightarrow> respond wb 400 (P_Error ''expected multipart 'file' field'')
      | Some body \<Rightarrow>
          attempt (GovernanceService_ImportResourcesCSV (wb_governance wb) body) (\<lambda>r. case r of
            Inl e \<Rightarrow> respond wb 400 (P_Error (wb_error wb e))
          | Inr (inserted, errs) \<Rightarrow>
              if errs \<noteq> [] then respond wb 422 (P_ImportRejected errs)
              else respond wb 200 (P_Imported inserted)))"

text \<open>The headers are set first, and an error is then written under the content type of the file.\<close>

definition as_attachment :: "response \<Rightarrow> response" where
  "as_attachment resp = resp\<lparr>rs_ContentType := ''text/csv'',
     rs_Headers := (''Content-Disposition'', ''attachment; filename='' @ quoted ''resources.csv'') # rs_Headers resp\<rparr>"

definition GovernanceHandler_ExportResources :: "web \<Rightarrow> handler" where
  "GovernanceHandler_ExportResources wb req =
     bindE (attempt (GovernanceService_ExportResourcesCSV (wb_governance wb)) (\<lambda>r. case r of
         Inl e \<Rightarrow> writeServiceError wb e
       | Inr bytes \<Rightarrow> plain_text 200 bytes))
       (\<lambda>resp. ret (as_attachment resp))"

section \<open>Administration\<close>

definition AdminHandler_CacheStats :: "web \<Rightarrow> endpoint" where
  "AdminHandler_CacheStats wb req = bindE (Cache_Stats (wb_ttl wb)) (\<lambda>(n, ttl). respond wb 200 (P_CacheStats n ttl))"

definition AdminHandler_CachePurge :: "web \<Rightarrow> endpoint" where
  "AdminHandler_CachePurge wb req = bindE Cache_Purge (\<lambda>_. respond wb 200 (P_Status ''purged''))"

definition AdminHandler_WebhookCreate :: "web \<Rightarrow> handler" where
  "AdminHandler_WebhookCreate wb req =
     binding wb (bind_webhook (wb_binds wb) req) (\<lambda>rq.
     serving wb (WebhookService_Create (wb_network wb)
         \<lparr>w_ID = uuid_nil, w_Name = wc_Name rq, w_TargetURL = wc_TargetURL rq, w_EventFilter = wc_EventFilter rq,
          w_FieldMapping = wc_FieldMapping rq, w_Secret = wc_Secret rq, w_Enabled = True, w_CreatedAt = zero_time\<rparr>)
       (\<lambda>h. respond wb 201 (P_Webhook h)))"

definition AdminHandler_WebhookList :: "web \<Rightarrow> handler" where
  "AdminHandler_WebhookList wb req = serving wb WebhookService_List (\<lambda>hs. respond wb 200 (P_Webhooks hs))"

definition AdminHandler_WebhookDisable :: "web \<Rightarrow> string \<Rightarrow> handler" where
  "AdminHandler_WebhookDisable wb param req =
     parsing_uuid wb ''invalid id'' param (\<lambda>i.
     serving wb (WebhookService_Disable i) (\<lambda>_. respond wb 200 (P_Status ''disabled'')))"

definition AdminHandler_WebhookDeliveries :: "web \<Rightarrow> handler" where
  "AdminHandler_WebhookDeliveries wb req =
     serving wb (WebhookService_Deliveries (query_int wb req ''limit'' ''50'')) (\<lambda>ds. respond wb 200 (P_WebhookDeliveries ds))"

definition AdminHandler_BackupFull :: "web \<Rightarrow> endpoint" where
  "AdminHandler_BackupFull wb req = serving wb (BackupService_TakeFull (wb_backups wb)) (\<lambda>b. respond wb 201 (P_Backup b))"

definition AdminHandler_BackupIncremental :: "web \<Rightarrow> endpoint" where
  "AdminHandler_BackupIncremental wb req =
     serving wb (BackupService_TakeIncremental (wb_backups wb)) (\<lambda>b. respond wb 201 (P_Backup b))"

definition AdminHandler_BackupList :: "web \<Rightarrow> handler" where
  "AdminHandler_BackupList wb req =
     serving wb (BackupService_List (query_int wb req ''limit'' ''50'')) (\<lambda>bs. respond wb 200 (P_Backups bs))"

definition AdminHandler_BackupRestorePlan :: "web \<Rightarrow> handler" where
  "AdminHandler_BackupRestorePlan wb req =
     attempt BackupService_PlanRestore (\<lambda>r. case r of
       Inl e \<Rightarrow> respond wb 424 (P_Error (wb_error wb e))
     | Inr plan \<Rightarrow> respond wb 200 (P_RestorePlan plan))"

end
