(* ===== verification/Router.thy ===== *)
theory Router
  imports Admin_Handlers
begin

text \<open>
  The route table of \<open>api/router.go\<close> and how a request runs through it: the router picks a route, the
  route's middleware runs in order, then the handler. The access policy of the routes is stated on its
  own, and the table is shown to enforce it.
\<close>

section \<open>The table\<close>

text \<open>
  \<open>soft\<close> and \<open>must\<close> are the two authenticators; \<open>idem\<close> always stands right before a handler, so it is part of
  the target. A target takes the value of the route's \<open>:id\<close>.
\<close>

datatype middleware = Soft | Must | Rotated | NotBlacklisted | AdminOnly | Cached

datatype target =
    Handler "web \<Rightarrow> string \<Rightarrow> handler"
  | Idempotent "web \<Rightarrow> string \<Rightarrow> handler"
  | ServerHandler "web \<Rightarrow> endpoint"

type_synonym route = "(string \<times> string) \<times> middleware list \<times> target"

abbreviation (input) plain :: "(web \<Rightarrow> handler) \<Rightarrow> target" where
  "plain h \<equiv> Handler (\<lambda>wb _. h wb)"

definition page_routes :: "route list" where
  "page_routes =
    [((''GET'', ''/healthz''), [], plain HealthHandler_Liveness),
     ((''GET'', ''/readyz''), [], plain HealthHandler_Readiness),
     ((''GET'', ''/''), [Soft], plain BookingHandler_Index),
     ((''GET'', ''/auth/login''), [], plain AuthHandler_LoginPage),
     ((''GET'', ''/auth/register''), [], plain AuthHandler_RegisterPage),
     ((''GET'', ''/availability''), [Soft], plain ResourceHandler_AvailabilityPage),
     ((''GET'', ''/bookings/new''), [Must, Rotated, NotBlacklisted], plain BookingHandler_NewPage),
     ((''GET'', ''/groups''), [Soft], plain GroupHandler_IndexHTML),
     ((''GET'', ''/groups/:id''), [Soft], Handler GroupHandler_DetailHTML),
     ((''GET'', ''/group-buys''), [Soft], plain GroupBuyHandler_IndexHTML),
     ((''GET'', ''/group-buys/:id''), [Soft], Handler GroupBuyHandler_DetailHTML),
     ((''GET'', ''/documents''), [Must, Rotated], plain DocumentHandler_CenterHTML),
     ((''GET'', ''/notifications''), [Must, Rotated], plain NotificationHandler_CenterHTML),
     ((''GET'', ''/admin/analytics''), [Must, Rotated], plain AnalyticsHandler_DashboardHTML)]"

definition account_routes :: "route list" where
  "account_routes =
    [((''POST'', ''/api/auth/register''), [], plain AuthHandler_Register),
     ((''POST'', ''/api/auth/login''), [], plain AuthHandler_Login),
     ((''POST'', ''/api/auth/logout''), [Soft], plain AuthHandler_Logout),
     ((''GET'', ''/api/auth/me''), [Must], plain AuthHandler_Me),
     ((''GET'', ''/api/auth/captcha''), [], plain AuthHandler_Captcha),
     ((''POST'', ''/api/auth/change-password''), [Must], plain AuthHandler_ChangePassword)]"

definition booking_routes :: "route list" where
  "booking_routes =
    [((''GET'', ''/api/resources''), [Soft, Cached], plain ResourceHandler_List),
     ((''GET'', ''/api/resources/:id/remaining''), [Soft], Handler ResourceHandler_RemainingSeats),
     ((''GET'', ''/api/availability''), [Soft, Cached], plain ResourceHandler_Availability),
     ((''POST'', ''/api/bookings''), [Must, Rotated, NotBlacklisted], Idempotent (\<lambda>wb _. BookingHandler_Create wb)),
     ((''GET'', ''/api/bookings''), [Must, Rotated], plain BookingHandler_ListMine),
     ((''GET'', ''/api/bookings/:id''), [Must, Rotated], Handler BookingHandler_Get),
     ((''POST'', ''/api/bookings/:id/transition''), [Must, Rotated], Idempotent BookingHandler_Transition)]"

definition group_routes :: "route list" where
  "group_routes =
    [((''POST'', ''/api/groups''), [Must, Rotated], plain GroupHandler_Create),
     ((''GET'', ''/api/groups''), [Soft, Cached], plain GroupHandler_List),
     ((''GET'', ''/api/groups/:id''), [Soft], Handler GroupHandler_Get),
     ((''POST'', ''/api/group-buys''), [Must, Rotated, NotBlacklisted], Idempotent (\<lambda>wb _. GroupBuyHandler_Create wb)),
     ((''GET'', ''/api/group-buys''), [Soft, Cached], plain GroupBuyHandler_List),
     ((''GET'', ''/api/group-buys/:id''), [Soft], Handler GroupBuyHandler_Get),
     ((''GET'', ''/api/group-buys/:id/progress''), [Soft], Handler GroupBuyHandler_Progress),
     ((''GET'', ''/api/group-buys/:id/participants''), [Soft], Handler GroupBuyHandler_Participants),
     ((''POST'', ''/api/group-buys/:id/join''), [Must, Rotated, NotBlacklisted], Idempotent GroupBuyHandler_Join)]"

definition document_routes :: "route list" where
  "document_routes =
    [((''POST'', ''/api/documents/confirmation''), [Must, Rotated], Idempotent (\<lambda>wb _. DocumentHandler_Confirmation wb)),
     ((''POST'', ''/api/documents/checkin-pass''), [Must, Rotated], Idempotent (\<lambda>wb _. DocumentHandler_CheckinPass wb)),
     ((''GET'', ''/api/documents''), [Must, Rotated], plain DocumentHandler_List),
     ((''GET'', ''/api/documents/:id''), [Must, Rotated], Handler DocumentHandler_Get),
     ((''GET'', ''/api/documents/:id/content''), [Must, Rotated], Handler DocumentHandler_Content),
     ((''GET'', ''/api/notifications''), [Must, Rotated], plain NotificationHandler_List),
     ((''GET'', ''/api/notifications/unread-count''), [Must, Rotated], plain NotificationHandler_UnreadCount),
     ((''POST'', ''/api/notifications/:id/read''), [Must, Rotated], Handler NotificationHandler_MarkRead),
     ((''POST'', ''/api/todos''), [Must, Rotated], plain NotificationHandler_CreateTodo),
     ((''GET'', ''/api/todos''), [Must, Rotated], plain NotificationHandler_ListTodos),
     ((''POST'', ''/api/todos/:id/status''), [Must, Rotated], Handler NotificationHandler_UpdateTodoStatus)]"

definition governance_routes :: "route list" where
  "governance_routes =
    [((''POST'', ''/api/analytics/track''), [Soft], plain AnalyticsHandler_Track),
     ((''GET'', ''/api/analytics/top''), [Soft, Cached], plain AnalyticsHandler_Top),
     ((''GET'', ''/api/analytics/trends''), [Soft, Cached], plain AnalyticsHandler_Trends),
     ((''GET'', ''/api/governance/dictionary''), [Soft, Cached], plain GovernanceHandler_Dictionary),
     ((''GET'', ''/api/governance/tags''), [Soft, Cached], plain GovernanceHandler_Tags),
     ((''POST'', ''/api/consent/grant''), [Must, Rotated], plain GovernanceHandler_GrantConsent),
     ((''POST'', ''/api/consent/withdraw''), [Must, Rotated], plain GovernanceHandler_WithdrawConsent),
     ((''GET'', ''/api/consent''), [Must, Rotated], plain GovernanceHandler_ListConsent),
     ((''POST'', ''/api/account/delete''), [Must, Rotated], plain GovernanceHandler_RequestDeletion),
     ((''POST'', ''/api/account/delete/cancel''), [Must, Rotated], plain GovernanceHandler_CancelDeletion)]"

definition admin_routes :: "route list" where
  "admin_routes = map (\<lambda>(mp, t). (mp, [Must, Rotated, AdminOnly], t))
    [((''GET'', ''/api/admin/notification-deliveries''), plain NotificationHandler_AdminDeliveries),
     ((''GET'', ''/api/admin/anomalies''), plain AnalyticsHandler_Anomalies),
     ((''POST'', ''/api/admin/import/resources''), plain GovernanceHandler_ImportResources),
     ((''GET'', ''/api/admin/export/resources.csv''), plain GovernanceHandler_ExportResources),
     ((''GET'', ''/api/admin/cache/stats''), ServerHandler AdminHandler_CacheStats),
     ((''POST'', ''/api/admin/cache/purge''), ServerHandler AdminHandler_CachePurge),
     ((''POST'', ''/api/admin/webhooks''), plain AdminHandler_WebhookCreate),
     ((''GET'', ''/api/admin/webhooks''), plain AdminHandler_WebhookList),
     ((''POST'', ''/api/admin/webhooks/:id/disable''), Handler AdminHandler_WebhookDisable),
     ((''GET'', ''/api/admin/webhooks/deliveries''), plain AdminHandler_WebhookDeliveries),
     ((''POST'', ''/api/admin/backups/full''), ServerHandler AdminHandler_BackupFull),
     ((''POST'', ''/api/admin/backups/incremental''), ServerHandler AdminHandler_BackupIncremental),
     ((''GET'', ''/api/admin/backups''), plain AdminHandler_BackupList),
     ((''GET'', ''/api/admin/backups/restore-plan''), plain AdminHandler_BackupRestorePlan)]"

definition routes :: "route list" where
  "routes = page_routes @ account_routes @ booking_routes @ group_routes @ document_routes @ governance_routes @ admin_routes"

section \<open>Running a request\<close>

fun run_target :: "web \<Rightarrow> string \<Rightarrow> target \<Rightarrow> endpoint" where
  "run_target wb param (Handler h) req = on_db (h wb param req)"
| "run_target wb param (Idempotent h) req = on_db (Idempotency idemRepo (wb_digest wb) (h wb param) req)"
| "run_target wb param (ServerHandler e) req = e wb req"

fun wrap :: "web \<Rightarrow> middleware \<Rightarrow> endpoint \<Rightarrow> endpoint" where
  "wrap wb Soft next = Authenticator wb False next"
| "wrap wb Must next = Authenticator wb True next"
| "wrap wb Rotated next = RequirePasswordRotated wb next"
| "wrap wb NotBlacklisted next = RequireNotBlacklisted wb next"
| "wrap wb AdminOnly next = RequireAdmin wb next"
| "wrap wb Cached next = ReadThroughCache Cache_Get (Cache_Set (wb_ttl wb)) next"

fun run_chain :: "web \<Rightarrow> string \<Rightarrow> middleware list \<Rightarrow> target \<Rightarrow> endpoint" where
  "run_chain wb param [] t = run_target wb param t"
| "run_chain wb param (m # ms) t = wrap wb m (run_chain wb param ms t)"

text \<open>gin's own recovery: a panic ends in a response 500 without a body.\<close>

definition Recovery :: "('d, response) io \<Rightarrow> ('d, response) io" where
  "Recovery m = attempt m (\<lambda>r. ret (case r of
     Inl _ \<Rightarrow> \<lparr>rs_Status = 500, rs_ContentType = [], rs_Headers = [], rs_Body = []\<rparr> | Inr resp \<Rightarrow> resp))"

text \<open>gin's answer to a path without a route; its content type has no charset.\<close>

definition no_route :: "('d, response) io" where
  "no_route = ret \<lparr>rs_Status = 404, rs_ContentType = ''text/plain'', rs_Headers = [], rs_Body = ''404 page not found''\<rparr>"

definition serve :: "web \<Rightarrow> endpoint" where
  "serve wb req = Recovery
     (case wb_route wb req of
        None \<Rightarrow> no_route
      | Some (m, p, param) \<Rightarrow>
          (case map_of routes (m, p) of
             None \<Rightarrow> no_route
           | Some (ms, t) \<Rightarrow> run_chain wb param ms t req))"

section \<open>The access policy\<close>

datatype access = Public | SignedIn | InGoodStanding | Member | Administrator

definition policy_of :: "string \<times> string \<Rightarrow> access" where
  "policy_of mp =
     (case mp of (m, p) \<Rightarrow>
        if has_prefix p ''/api/admin/'' then Administrator
        else if mp \<in> set [(''POST'', ''/api/bookings''), (''POST'', ''/api/group-buys''), (''POST'', ''/api/group-buys/:id/join''),
                         (''GET'', ''/bookings/new'')] then Member
        else if list_ex (has_prefix p) [''/api/bookings'', ''/api/documents'', ''/api/notifications'', ''/api/todos'',
                 ''/api/consent'', ''/api/account'', ''/documents'', ''/notifications'', ''/admin/''] then InGoodStanding
        else if mp = (''POST'', ''/api/groups'') then InGoodStanding
        else if mp \<in> set [(''GET'', ''/api/auth/me''), (''POST'', ''/api/auth/change-password'')] then SignedIn
        else Public)"

definition in_good_standing :: "request \<Rightarrow> user \<Rightarrow> bool" where
  "in_good_standing req u \<longleftrightarrow> \<not> u_MustRotatePassword u \<or> rq_Path req \<in> set rotation_exempt"

fun allowed :: "access \<Rightarrow> request \<Rightarrow> user \<Rightarrow> bool" where
  "allowed Public req u = True"
| "allowed SignedIn req u = True"
| "allowed InGoodStanding req u = in_good_standing req u"
| "allowed Member req u = (in_good_standing req u \<and> \<not> u_IsBlacklisted u)"
| "allowed Administrator req u = (in_good_standing req u \<and> u_IsAdmin u)"

text \<open>The gates of a route, and those a policy calls for.\<close>

fun passes :: "request \<Rightarrow> user \<Rightarrow> middleware \<Rightarrow> bool" where
  "passes req u Rotated = in_good_standing req u"
| "passes req u NotBlacklisted = (\<not> u_IsBlacklisted u)"
| "passes req u AdminOnly = u_IsAdmin u"
| "passes req u m = True"

definition gates :: "middleware list" where
  "gates = [Rotated, NotBlacklisted, AdminOnly]"

fun needed :: "access \<Rightarrow> middleware list" where
  "needed Public = []" | "needed SignedIn = []" | "needed InGoodStanding = [Rotated]"
| "needed Member = [Rotated, NotBlacklisted]" | "needed Administrator = [Rotated, AdminOnly]"

definition enforces :: "route \<Rightarrow> bool" where
  "enforces r = (case r of (mp, ms, t) \<Rightarrow>
     policy_of mp = Public \<or>
     (ms \<noteq> [] \<and> hd ms = Must \<and> list_all (\<lambda>m. m \<in> set gates) (tl ms) \<and> list_all (\<lambda>m. m \<in> set (tl ms)) (needed (policy_of mp))))"

lemma table_enforces_policy: "list_all enforces routes"
  by (simp add: routes_def page_routes_def account_routes_def booking_routes_def group_routes_def document_routes_def
      governance_routes_def admin_routes_def enforces_def policy_of_def has_prefix_def gates_def)

section \<open>The table enforces the policy\<close>

lemma passes_same [simp]: "passes (req\<lparr>rq_User := u'\<rparr>) u m = passes req u m" "in_good_standing (req\<lparr>rq_User := u'\<rparr>) u = in_good_standing req u"
  by (cases m) (simp_all add: in_good_standing_def)

lemma needed_allowed: "list_all (passes req u) (needed a) \<Longrightarrow> allowed a req u"
  by (cases a) simp_all

text \<open>With a user, a gate lets the request through to what follows or answers 403 itself.\<close>

lemma gate_runs:
  assumes "m \<in> set gates" "rq_User req = Some u"
  shows "passes req u m \<Longrightarrow> wrap wb m next req = next req"
    and "\<not> passes req u m \<Longrightarrow> \<exists>resp. rs_Status resp = 403 \<and> wrap wb m next req w = (Inr resp, w) \<and>
      (\<forall>next'. wrap wb m next' req w = (Inr resp, w))"
  using assms
  by (auto simp: gates_def RequirePasswordRotated_def RequireNotBlacklisted_def RequireAdmin_def CurrentUser_def
      in_good_standing_def respond_def json_def ret_def)

lemma gates_run:
  assumes "list_all (\<lambda>m. m \<in> set gates) ms" "rq_User req = Some u"
  shows "(list_all (passes req u) ms \<and> (\<forall>t. run_chain wb param ms t req w = run_target wb param t req w)) \<or>
    (\<exists>resp. rs_Status resp = 403 \<and> (\<forall>t. run_chain wb param ms t req w = (Inr resp, w)))"
  using assms(1)
proof (induction ms)
  case (Cons m ms)
  show ?case
  proof (cases "passes req u m")
    case True
    then show ?thesis
      using Cons gate_runs(1) [of m req u wb] assms(2) by auto
  next
    case False
    then obtain resp where "rs_Status resp = 403" "\<forall>next. wrap wb m next req w = (Inr resp, w)"
      using gate_runs(2) [of m req u wb] Cons.prems assms(2) by (metis list.pred_inject(2))
    then show ?thesis by auto
  qed
qed simp

lemma ResolveSession_touches_sessions:
  assumes "on_db (AuthService_ResolveSession cfg c) w = (r, w')"
  shows "store w' = (store w)\<lparr>sv_db := (sv_db (store w))\<lparr>sessions := sessions (sv_db (store w'))\<rparr>\<rparr>"
proof -
  have "preserves (\<lambda>d. d\<lparr>sessions := []\<rparr> = e) (AuthService_ResolveSession cfg c)" for e
    unfolding AuthService_ResolveSession_def Let_def sessions_Delete_def sessions_Touch_def
    by (intro store_rules preserves_sql) auto
  moreover obtain v where v: "AuthService_ResolveSession cfg c (with_store (sv_db (store w)) w) = (r, v)"
    "w' = with_store ((store w)\<lparr>sv_db := store v\<rparr>) v"
    using assms by (auto simp: on_db_returns)
  ultimately have "(store v)\<lparr>sessions := []\<rparr> = (sv_db (store w))\<lparr>sessions := []\<rparr>"
    using preservesD by fastforce
  then have "store v = (sv_db (store w))\<lparr>sessions := sessions (store v)\<rparr>"
    by (metis (no_types, lifting) db.surjective db.update_convs(2))
  then show ?thesis using v(2) by simp
qed

text \<open>The user a request is signed in as, and a refusal: an answer that leaves all but sessions alone.\<close>

definition signed_in :: "web \<Rightarrow> request \<Rightarrow> (cache, backup_file) server world \<Rightarrow> user \<Rightarrow> (cache, backup_file) server world \<Rightarrow> string \<times> string \<Rightarrow> bool" where
  "signed_in wb req w u w1 hdr \<longleftrightarrow> (\<exists>c s. wb_cookie wb req = Some c \<and>
     on_db (AuthService_ResolveSession (wb_auth wb) c) w = (Inr (u, s), w1) \<and>
     hdr = set_cookie wb (s_ID s) (SessionInactivity (wb_auth wb) div second))"

definition refusal :: "(cache, backup_file) server world \<Rightarrow> response \<Rightarrow> (cache, backup_file) server world \<Rightarrow> bool" where
  "refusal w resp w' \<longleftrightarrow> rs_Status resp \<in> {302, 401, 403} \<and>
     store w' = (store w)\<lparr>sv_db := (sv_db (store w))\<lparr>sessions := sessions (sv_db (store w'))\<rparr>\<rparr>"

lemma refused_at_once: "rs_Status resp \<in> {302, 401, 403} \<Longrightarrow> refusal w resp w"
  by (simp add: refusal_def)

lemma with_header_run: "m w = (Inr resp, w') \<Longrightarrow> with_header h m w = (Inr (resp\<lparr>rs_Headers := h # rs_Headers resp\<rparr>), w')"
  by (simp add: with_header_def bindE_def ret_def)

lemma must_runs:
  assumes "list_all (\<lambda>m. m \<in> set gates) ms"
  shows "(\<exists>u w1 hdr. signed_in wb req w u w1 hdr \<and> list_all (passes req u) ms \<and>
      (\<forall>t. run_chain wb param (Must # ms) t req w = with_header hdr (run_target wb param t (req\<lparr>rq_User := Some u\<rparr>)) w1)) \<or>
    (\<exists>resp w'. refusal w resp w' \<and> (\<forall>t. run_chain wb param (Must # ms) t req w = (Inr resp, w')))"
proof (cases "wb_cookie wb req = None \<or> wb_cookie wb req = Some []")
  case True
  then have "run_chain wb param (Must # ms) t req w = wantsHTML wb req w" for t
    by (auto simp: Authenticator_def)
  moreover obtain resp where "wantsHTML wb req w = (Inr resp, w)" "rs_Status resp \<in> {302, 401}"
    by (cases "isHTMLRoute req") (auto simp: wantsHTML_def unauthorized_def respond_def json_def ret_def)
  ultimately show ?thesis using refused_at_once [of resp w] by auto
next
  case False
  then obtain c where c: "wb_cookie wb req = Some c" "c \<noteq> []" by auto
  obtain r w1 where r: "on_db (AuthService_ResolveSession (wb_auth wb) c) w = (r, w1)" by fastforce
  note st = ResolveSession_touches_sessions [OF r]
  show ?thesis
  proof (cases r)
    case (Inl e)
    define msg where "msg = (if e = ErrSessionExpired then ''session expired due to inactivity''
      else if e = ErrUnauthorized then ''authentication required'' else ''authentication error'')"
    have "run_chain wb param (Must # ms) t req w = with_header (set_cookie wb [] (-1)) (unauthorized wb msg) w1" for t
      using c r Inl by (simp add: Authenticator_def attempt_def msg_def)
    then have "run_chain wb param (Must # ms) t req w =
        (Inr ((json wb 401 (P_Error msg))\<lparr>rs_Headers := [set_cookie wb [] (-1)]\<rparr>), w1)" for t
      by (simp add: with_header_def unauthorized_def respond_def bindE_def ret_def json_def)
    moreover have "refusal w ((json wb 401 (P_Error msg))\<lparr>rs_Headers := [set_cookie wb [] (-1)]\<rparr>) w1"
      using st by (simp add: refusal_def json_def)
    ultimately show ?thesis by blast
  next
    case (Inr us)
    obtain u s where us: "us = (u, s)" by fastforce
    let ?hdr = "set_cookie wb (s_ID s) (SessionInactivity (wb_auth wb) div second)" and ?req = "req\<lparr>rq_User := Some u\<rparr>"
    have run: "run_chain wb param (Must # ms) t req w = with_header ?hdr (run_chain wb param ms t ?req) w1" for t
      using c r Inr us by (simp add: Authenticator_def attempt_def)
    have u: "signed_in wb req w u w1 ?hdr"
      using c r Inr us by (auto simp: signed_in_def)
    have rq: "rq_User ?req = Some u" by simp
    from gates_run [OF assms rq, of wb param w1]
    show ?thesis
    proof (elim disjE conjE exE)
      assume ok: "list_all (passes ?req u) ms" and same: "\<forall>t. run_chain wb param ms t ?req w1 = run_target wb param t ?req w1"
      have "list_all (passes req u) ms" using ok by (simp add: list_all_iff)
      moreover have "with_header ?hdr (run_chain wb param ms t ?req) w1 = with_header ?hdr (run_target wb param t ?req) w1" for t
        by (simp add: with_header_def bindE_def same)
      ultimately have "signed_in wb req w u w1 ?hdr \<and> list_all (passes req u) ms \<and>
          (\<forall>t. run_chain wb param (Must # ms) t req w = with_header ?hdr (run_target wb param t ?req) w1)"
        using run u by simp
      then show ?thesis by blast
    next
      fix resp assume no: "rs_Status resp = 403" "\<forall>t. run_chain wb param ms t ?req w1 = (Inr resp, w1)"
      then have "run_chain wb param (Must # ms) t req w = (Inr (resp\<lparr>rs_Headers := ?hdr # rs_Headers resp\<rparr>), w1)" for t
        using run by (simp add: with_header_run)
      moreover have "refusal w (resp\<lparr>rs_Headers := ?hdr # rs_Headers resp\<rparr>) w1"
        using no(1) st by (simp add: refusal_def)
      ultimately show ?thesis by blast
    qed
  qed
qed

definition recovered :: "go_error + response \<Rightarrow> response" where
  "recovered r = (case r of Inl _ \<Rightarrow> \<lparr>rs_Status = 500, rs_ContentType = [], rs_Headers = [], rs_Body = []\<rparr> | Inr resp \<Rightarrow> resp)"

lemma Recovery_run: "m w = (r, w') \<Longrightarrow> Recovery m w = (Inr (recovered r), w')"
  by (simp add: Recovery_def attempt_def ret_def recovered_def)

lemma route_enforces:
  assumes "map_of routes mp = Some (ms, t)" "policy_of mp \<noteq> Public"
  obtains gs where "ms = Must # gs" "list_all (\<lambda>m. m \<in> set gates) gs" "list_all (\<lambda>m. m \<in> set gs) (needed (policy_of mp))"
proof -
  have "enforces (mp, ms, t)"
    using table_enforces_policy map_of_SomeD [OF assms(1)] by (simp add: list_all_iff)
  then show thesis
    using assms(2) that by (cases ms) (auto simp: enforces_def)
qed

text \<open>
  C37. The route table enforces the access policy. A request on a route that is not public either is signed
  in by its cookie as a user the policy allows (a live session; with the password rotated, and not
  blacklisted or an administrator, where the route calls for it), and is then answered by the handler of
  the route running as that user; or it is refused with 302, 401 or 403, nothing but sessions changes, and
  the answer is the same whatever the handler is.
\<close>

theorem routes_enforce_the_policy:
  assumes "wb_route wb req = Some (m, p, param)" and "map_of routes (m, p) = Some (ms, t)"
    and "policy_of (m, p) \<noteq> Public"
    and "serve wb req w = (Inr resp, w')"
  shows "(\<exists>u w1 hdr r. signed_in wb req w u w1 hdr \<and> allowed (policy_of (m, p)) req u \<and>
      with_header hdr (run_target wb param t (req\<lparr>rq_User := Some u\<rparr>)) w1 = (r, w') \<and> resp = recovered r) \<or>
    (refusal w resp w' \<and> (\<forall>t'. run_chain wb param ms t' req w = (Inr resp, w')))"
proof -
  obtain gs where ms: "ms = Must # gs" and ok: "list_all (\<lambda>m. m \<in> set gates) gs"
    and needs: "list_all (\<lambda>m. m \<in> set gs) (needed (policy_of (m, p)))"
    using route_enforces [OF assms(2,3)] .
  obtain r v where run: "run_chain wb param ms t req w = (r, v)" by fastforce
  have s: "resp = recovered r" "w' = v"
    using assms(1,2,4) Recovery_run [of "run_chain wb param ms t req" w r v, OF run] by (simp_all add: serve_def)
  from must_runs [OF ok, of wb req w param]
  show ?thesis
  proof (elim disjE conjE exE)
    fix u w1 hdr
    assume u: "signed_in wb req w u w1 hdr" and pass: "list_all (passes req u) gs"
      and same: "\<forall>t. run_chain wb param (Must # gs) t req w = with_header hdr (run_target wb param t (req\<lparr>rq_User := Some u\<rparr>)) w1"
    have "list_all (passes req u) (needed (policy_of (m, p)))"
      using needs pass by (auto simp: list_all_iff)
    moreover have "with_header hdr (run_target wb param t (req\<lparr>rq_User := Some u\<rparr>)) w1 = (r, w')"
      using same run s ms by metis
    ultimately show ?thesis
      using u needed_allowed s(1) by blast
  next
    fix resp' v'
    assume no: "refusal w resp' v'" "\<forall>t. run_chain wb param (Must # gs) t req w = (Inr resp', v')"
    then have "r = Inr resp'" "v = v'" using run ms by auto
    then show ?thesis using no s ms by (simp add: recovered_def)
  qed
qed

lemma Recovery_answers: "\<exists>resp w'. Recovery m w = (Inr resp, w')"
  using Recovery_run [of m w "fst (m w)" "snd (m w)"] by auto

lemma serve_answers: "\<exists>resp w'. serve wb req w = (Inr resp, w')"
  unfolding serve_def by (rule Recovery_answers)

section \<open>What the cache makes of a group list\<close>

lemma group_list_route: "map_of routes (''GET'', ''/api/groups'') = Some ([Soft, Cached], plain GroupHandler_List)"
  by (simp add: routes_def page_routes_def account_routes_def booking_routes_def group_routes_def)

lemma ResolveSession_oracles: "keeps_oracles (AuthService_ResolveSession cfg c)"
  unfolding AuthService_ResolveSession_def sessions_Get_def users_GetByID_def sessions_Delete_def sessions_Touch_def Let_def
  by (intro oracle_rules)

text \<open>The rows of a page of groups, and the answer the handler gives a user.\<close>

definition group_page :: "web \<Rightarrow> request \<Rightarrow> db \<Rightarrow> group_reservation list" where
  "group_page wb req d =
     (let limit = query_int wb req ''limit'' ''50''
      in page (if limit \<le> 0 \<or> limit > 200 then 50 else limit) (query_int wb req ''offset'' ''0'')
           (order_desc g_CreatedAt (group_reservations d)))"

lemma group_list_answer:
  assumes "calm w" "0 \<le> query_int wb req ''offset'' ''0''"
  shows "\<exists>w'. on_db (GroupHandler_List wb req) w =
      (Inr (json wb 200 (P_Groups (map (projectGroup (CurrentUser req)) (group_page wb req (sv_db (store w)))))), w') \<and>
    store w' = store w \<and> clock w' = clock w"
proof -
  let ?w = "w\<lparr>readings := Suc (readings w), stmts := Suc (stmts w)\<rparr>"
  have "GroupService_List l off (with_store (sv_db (store w)) w) =
      (Inr (page (if l \<le> 0 \<or> l > 200 then 50 else l) off (order_desc g_CreatedAt (group_reservations (sv_db (store w))))),
       with_store (sv_db (store w)) ?w)" if "0 \<le> off" for l off
    using assms(1) that by (simp add: GroupService_List_def groups_List_def query_calm)
  then have "GroupHandler_List wb req (with_store (sv_db (store w)) w) =
      (Inr (json wb 200 (P_Groups (map (projectGroup (CurrentUser req)) (group_page wb req (sv_db (store w)))))),
       with_store (sv_db (store w)) ?w)"
    using assms(2) by (simp add: GroupHandler_List_def serving_def attempt_def respond_def ret_def group_page_def Let_def)
  then show ?thesis by (auto simp: on_db_def)
qed

text \<open>A miss of the cache stores the answer under the path and the query, whoever asked.\<close>

lemma cached_miss:
  assumes "rq_Method req = ''GET''" "\<not> isAdminBypass req" "cache_holds (store w) (cache_key req) = None"
    and "next req w = (Inr resp, w1)" "rs_Status resp = 200" "has_prefix (rs_Body resp) ''{''"
  shows "\<exists>w2. ReadThroughCache Cache_Get (Cache_Set ttl) next req w = (Inr (resp\<lparr>rs_Headers := (''X-Cache'', ''MISS'') # rs_Headers resp\<rparr>), w2) \<and>
    cache_holds (store w2) (cache_key req) = Some (rs_Body resp, clock w1 (readings w1) + ttl)"
proof -
  obtain r w2 where put: "Cache_Set ttl (cache_key req) (rs_Body resp) w1 = (r, w2)" by fastforce
  note held = response_cache.set_holds [OF put]
  have "ReadThroughCache Cache_Get (Cache_Set ttl) next req w = (Inr (resp\<lparr>rs_Headers := (''X-Cache'', ''MISS'') # rs_Headers resp\<rparr>), w2)"
    using assms put held response_cache.get_nothing [OF assms(3)]
    by (simp add: ReadThroughCache_def bindE_def with_header_def ret_def)
  with held show ?thesis by blast
qed

lemma cached_hit:
  assumes "rq_Method req = ''GET''" "\<not> isAdminBypass req" "cache_holds (store w) (cache_key req) = Some (body, expires)"
    and "clock w (readings w) \<le> expires"
  shows "\<exists>w1. ReadThroughCache Cache_Get (Cache_Set ttl) next req w = (Inr (cached_response body), w1) \<and> store w1 = store w"
  using assms response_cache.get_fresh [OF assms(3,4)]
  by (auto simp: ReadThroughCache_def bindE_def ret_def)


section \<open>An example\<close>

text \<open>
  A small configuration: cookies are the \<open>Cookie\<close> header, routes are taken by their path, and a list of groups
  encodes to its email addresses in braces. User 1 is an administrator with a session.
\<close>

definition demo_binds :: binds where
  "demo_binds = \<lparr>bind_booking = (\<lambda>_. Inl []), bind_transition = (\<lambda>_. Inl []), bind_register = (\<lambda>_. Inl []),
     bind_login = (\<lambda>_. Inl []), bind_change = (\<lambda>_. Inl []), bind_group = (\<lambda>_. Inl []), bind_group_buy = (\<lambda>_. Inl []),
     bind_quantity = (\<lambda>_. 1), bind_generate = (\<lambda>_. Inl []), bind_todo = (\<lambda>_. Inl []), bind_todo_status = (\<lambda>_. Inl []),
     bind_track = (\<lambda>_. Inl []), bind_consent = (\<lambda>_. Inl []), bind_webhook = (\<lambda>_. Inl []), form_file = (\<lambda>_. None)\<rparr>"

definition demo_web :: web where
  "demo_web = \<lparr>wb_encode = (\<lambda>p. case p of P_Groups gs \<Rightarrow> ''{'' @ concat (map g_OrganizerEmail gs) @ ''}'' | _ \<Rightarrow> ''{}''),
     wb_render = (\<lambda>_. []), wb_error = (\<lambda>_. []), wb_parse_uuid = (\<lambda>_. None), wb_uuid_text = (\<lambda>_. []), wb_query = (\<lambda>_ _. None),
     wb_cookie = (\<lambda>r. if rq_Header r ''Cookie'' = [] then None else Some (rq_Header r ''Cookie'')),
     wb_set_cookie = (\<lambda>v _ _. v), wb_user_agent = (\<lambda>_. []), wb_client_ip = (\<lambda>_. []),
     wb_route = (\<lambda>r. Some (rq_Method r, rq_Path r, [])), wb_binds = demo_binds, wb_digest = (\<lambda>s. s), wb_auth_env = toy_env,
     wb_auth = DefaultAuthSettings 10, wb_booking = demo_service, wb_analytics = demo_analytics,
     wb_governance = demo_governance, wb_network = demo_network, wb_backups = demo_backups, wb_jsonb = (\<lambda>s. Some s),
     wb_rasterise = (\<lambda>_. Inr []), wb_is_print = (\<lambda>_. True), wb_collate = (\<lambda>_. 0), wb_ttl = DefaultTTL\<rparr>"

definition page_request :: "string \<Rightarrow> string \<Rightarrow> request" where
  "page_request path cookie = \<lparr>rq_Method = ''GET'', rq_Path = path, rq_RawQuery = [],
     rq_Header = (\<lambda>h. if h = ''Cookie'' then cookie else []), rq_Body = Some [], rq_User = None\<rparr>"

definition demo_admin :: user where
  "demo_admin = (demo_member 1)\<lparr>u_IsAdmin := True\<rparr>"

definition demo_session :: session where
  "demo_session = \<lparr>s_ID = ''sid'', s_UserID = 1, s_CreatedAt = 0, s_LastActivityAt = 0, s_ExpiresAt = hour, s_UserAgent = [], s_IP = []\<rparr>"

definition demo_group :: group_reservation where
  "demo_group = \<lparr>g_ID = 5, g_Name = ''regatta'', g_OrganizerID = Some 1, g_OrganizerName = ''Ann Arbor'',
     g_OrganizerEmail = ''ann@example.org'', g_Capacity = 4, g_Notes = [], g_CreatedAt = 0, g_UpdatedAt = 0, g_Bookings = []\<rparr>"

definition demo_site :: "(cache, backup_file) server world" where
  "demo_site = with_store \<lparr>sv_db = empty_db\<lparr>users := [demo_admin], sessions := [demo_session], group_reservations := [demo_group]\<rparr>,
     sv_cache = [], sv_files = (\<lambda>_. None)\<rparr> (demo_world empty_db second)"

theorem routes_enforce_the_policy_witness:
  "\<exists>resp w'. serve demo_web (page_request ''/api/admin/anomalies'' []) demo_site = (Inr resp, w') \<and> refusal demo_site resp w'"
proof -
  let ?req = "page_request ''/api/admin/anomalies'' []"
  have route: "wb_route demo_web ?req = Some (''GET'', ''/api/admin/anomalies'', [])" and anon: "wb_cookie demo_web ?req = None"
    by (simp_all add: demo_web_def page_request_def)
  have entry: "map_of routes (''GET'', ''/api/admin/anomalies'') = Some ([Must, Rotated, AdminOnly], plain AnalyticsHandler_Anomalies)"
    by (simp add: routes_def page_routes_def account_routes_def booking_routes_def group_routes_def document_routes_def
        governance_routes_def admin_routes_def)
  have pol: "policy_of (''GET'', ''/api/admin/anomalies'') \<noteq> Public"
    by (simp add: policy_of_def has_prefix_def)
  obtain resp w' where run: "serve demo_web ?req demo_site = (Inr resp, w')"
    using serve_answers by blast
  from routes_enforce_the_policy [OF route entry pol run] anon run show ?thesis
    by (auto simp: signed_in_def)
qed


end
