(* ===== verification/Startup.thy ===== *)
theory Startup
  imports "HOL-Library.Word" Router
begin

text \<open>
  How the server comes up: \<open>infrastructure/config/config.go\<close>, \<open>infrastructure/logger/logger.go\<close> (the level),
  \<open>infrastructure/database/postgres.go\<close> (waiting for the database), \<open>infrastructure/crypto/aes.go\<close> (the key
  file) and the seeding of accounts in \<open>cmd/server/main.go\<close>. The migrations are run by a library
  and not modelled, the rows of \<open>seed/seed.sql\<close> are; the connection pool, AES and bcrypt are parameters.
\<close>

section \<open>Configuration\<close>

datatype config_error = InvalidMaxConns | ErrMissingAnalyticsSalt

record config =
  AppEnv :: string
  AppHost :: string
  AppPort :: string
  LogLevel :: string
  DBHost :: string
  DBPort :: string
  DBUser :: string
  DBPassword :: string
  DBName :: string
  DBSSLMode :: string
  DBMaxConns :: int
  RunMigrations :: bool
  RunSeed :: bool
  ConfigCookieSecure :: bool
  AnalyticsAnonSalt :: string

text \<open>\<open>os.Getenv\<close> gives the empty string for a variable that is not set.\<close>

type_synonym environment = "string \<Rightarrow> string"

definition getenv :: "environment \<Rightarrow> string \<Rightarrow> string \<Rightarrow> string" where
  "getenv env key def = (if env key = [] then def else env key)"

text \<open>\<open>strings.ToLower\<close> takes no rune beyond ASCII to a letter of these words.\<close>

definition parseBool :: "string \<Rightarrow> bool" where
  "parseBool v \<longleftrightarrow> ascii_lower (trim_space v) \<in> set [''1'', ''true'', ''yes'', ''on'']"

definition Load :: "environment \<Rightarrow> config_error + config" where
  "Load env =
     (case go_atoi (getenv env ''DB_MAX_CONNS'' ''10'') of
        None \<Rightarrow> Inl InvalidMaxConns
      | Some maxConns \<Rightarrow>
          if maxConns \<le> 0 then Inl InvalidMaxConns
          else if trim_space (env ''ANALYTICS_ANON_SALT'') = [] then Inl ErrMissingAnalyticsSalt
          else Inr
            \<lparr>AppEnv = getenv env ''APP_ENV'' ''production'', AppHost = getenv env ''APP_HOST'' ''0.0.0.0'',
             AppPort = getenv env ''APP_PORT'' ''8080'', LogLevel = getenv env ''LOG_LEVEL'' ''info'',
             DBHost = getenv env ''DB_HOST'' ''db'', DBPort = getenv env ''DB_PORT'' ''5432'',
             DBUser = getenv env ''DB_USER'' ''harbor'', DBPassword = getenv env ''DB_PASSWORD'' ''harbor_secret'',
             DBName = getenv env ''DB_NAME'' ''harborworks'', DBSSLMode = getenv env ''DB_SSLMODE'' ''disable'',
             DBMaxConns = maxConns, RunMigrations = parseBool (getenv env ''RUN_MIGRATIONS'' ''true''),
             RunSeed = parseBool (getenv env ''RUN_SEED'' ''true''),
             ConfigCookieSecure = parseBool (getenv env ''COOKIE_SECURE'' ''true''),
             AnalyticsAnonSalt = trim_space (env ''ANALYTICS_ANON_SALT'')\<rparr>)"

definition DSN :: "config \<Rightarrow> string" where
  "DSN c = ''host='' @ DBHost c @ '' port='' @ DBPort c @ '' user='' @ DBUser c @ '' password='' @ DBPassword c @
     '' dbname='' @ DBName c @ '' sslmode='' @ DBSSLMode c"

lemma default_true: "parseBool ''true''"
proof -
  have "trim_space ''true'' = ''true''" by (rule trim_space_plain) simp
  then show ?thesis by (simp add: parseBool_def ascii_lower_def lower_char_def)
qed

lemma Load_RunSeed: "Load env = Inr c \<Longrightarrow> RunSeed c = parseBool (getenv env ''RUN_SEED'' ''true'')"
  by (auto simp: Load_def split: option.splits if_splits)

lemma Load_sound:
  "Load env = Inr c \<Longrightarrow> AnalyticsAnonSalt c \<noteq> [] \<and> 0 < DBMaxConns c \<and> DBMaxConns c < 2 ^ 63"
  by (auto simp: Load_def go_atoi_def Let_def split: option.splits if_splits)

datatype log_level = LevelDebug | LevelInfo | LevelWarn | LevelError

text \<open>No rune beyond ASCII lowers to a letter of these words but the Kelvin sign, which is in none of them.\<close>

definition log_level_of :: "string \<Rightarrow> log_level" where
  "log_level_of level =
     (let l = ascii_lower (trim_space level)
      in if l = ''debug'' then LevelDebug
         else if l \<in> set [''warn'', ''warning''] then LevelWarn
         else if l = ''error'' then LevelError
         else LevelInfo)"

section \<open>Waiting for the database\<close>

text \<open>
  What the libraries answer to the attempts: whether the context is canceled when an attempt begins or
  while it waits, and whether opening the pool and pinging it work. The result is the pool of an
  attempt (its number), an error, and the waits in between, in nanoseconds. \<open>int32(cfg.DBMaxConns)\<close>
  wraps.
\<close>

record connector =
  co_parses :: "string \<Rightarrow> bool"
  co_canceled :: "nat \<Rightarrow> bool"
  co_canceled_waiting :: "nat \<Rightarrow> bool"
  co_opens :: "int \<Rightarrow> nat \<Rightarrow> bool"
  co_pings :: "nat \<Rightarrow> bool"

datatype connect_error = ParsePoolConfig | Canceled | Unreachable

definition maxAttempts :: nat where
  "maxAttempts = 30"

definition pool_MaxConns :: "config \<Rightarrow> int" where
  "pool_MaxConns c = sint (word_of_int (DBMaxConns c) :: 32 word)"

function connect_from :: "connector \<Rightarrow> int \<Rightarrow> nat \<Rightarrow> (connect_error + nat) \<times> duration list" where
  "connect_from co conns attempt_no =
     (if attempt_no > maxAttempts then (Inl Unreachable, [])
      else if co_canceled co attempt_no then (Inl Canceled, [])
      else if co_opens co conns attempt_no \<and> co_pings co attempt_no then (Inr attempt_no, [])
      else if co_canceled_waiting co attempt_no then (Inl Canceled, [])
      else case connect_from co conns (Suc attempt_no) of
             (r, waits) \<Rightarrow> (r, (int attempt_no * (second div 2)) # waits))"
  by pat_completeness auto
termination
  by (relation "measure (\<lambda>(_, _, n). Suc maxAttempts - n)") auto

declare connect_from.simps [simp del]

definition Connect :: "connector \<Rightarrow> config \<Rightarrow> (connect_error + nat) \<times> duration list" where
  "Connect co c = (if \<not> co_parses co (DSN c) then (Inl ParsePoolConfig, []) else connect_from co (pool_MaxConns c) 1)"

text \<open>The attempt that comes after \<open>n\<close> failed ones, and the waits so far.\<close>

lemma connect_stops: "n > maxAttempts \<Longrightarrow> connect_from co k n = (Inl Unreachable, [])"
  by (simp add: connect_from.simps)

lemma connect_step:
  "n \<le> maxAttempts \<Longrightarrow> connect_from co k n =
     (if co_canceled co n then (Inl Canceled, [])
      else if co_opens co k n \<and> co_pings co n then (Inr n, [])
      else if co_canceled_waiting co n then (Inl Canceled, [])
      else (fst (connect_from co k (Suc n)), (int n * (second div 2)) # snd (connect_from co k (Suc n))))"
  by (subst connect_from.simps) (simp split: prod.split)

definition connect_outcome :: "connector \<Rightarrow> int \<Rightarrow> nat \<Rightarrow> connect_error + nat \<Rightarrow> bool" where
  "connect_outcome co k m r =
     (case r of
        Inr a \<Rightarrow> a = m \<and> m \<le> maxAttempts \<and> co_opens co k a \<and> co_pings co a
      | Inl e \<Rightarrow> e = Unreachable \<and> m = Suc maxAttempts \<or> e = Canceled \<and> (co_canceled co m \<or> co_canceled_waiting co m))"

lemma connect_waits:
  "n \<le> Suc maxAttempts \<Longrightarrow> \<exists>m \<le> Suc maxAttempts. n \<le> m \<and>
     snd (connect_from co k n) = map (\<lambda>i. int i * (second div 2)) [n..<m] \<and> connect_outcome co k m (fst (connect_from co k n))"
proof (induction "Suc maxAttempts - n" arbitrary: n)
  case 0
  then show ?case by (intro exI [of _ n]) (simp add: connect_stops connect_outcome_def)
next
  case (Suc j)
  then have le: "n \<le> maxAttempts" by simp
  show ?case
  proof (cases "co_canceled co n \<or> co_opens co k n \<and> co_pings co n \<or> co_canceled_waiting co n")
    case True
    then show ?thesis using le by (intro exI [of _ n]) (auto simp: connect_step connect_outcome_def)
  next
    case False
    have "\<exists>m \<le> Suc maxAttempts. Suc n \<le> m \<and> snd (connect_from co k (Suc n)) = map (\<lambda>i. int i * (second div 2)) [Suc n..<m] \<and>
        connect_outcome co k m (fst (connect_from co k (Suc n)))"
      by (rule Suc.hyps(1)) (use Suc.hyps(2) le in simp_all)
    then obtain m where m: "m \<le> Suc maxAttempts" "Suc n \<le> m" "connect_outcome co k m (fst (connect_from co k (Suc n)))"
      "snd (connect_from co k (Suc n)) = map (\<lambda>i. int i * (second div 2)) [Suc n..<m]" by blast
    moreover have "connect_from co k n = (fst (connect_from co k (Suc n)), (int n * (second div 2)) # snd (connect_from co k (Suc n)))"
      using False le by (simp add: connect_step)
    moreover have "[n..<m] = n # [Suc n..<m]" using m(2) by (simp add: upt_conv_Cons)
    ultimately show ?thesis by (intro exI [of _ m]) simp
  qed
qed

text \<open>The program waits at most 232.5 seconds: half a second times 1 + 2 + ... + 30.\<close>

lemma Connect_bounds:
  assumes "Connect co c = (r, waits)"
  shows "length waits \<le> 30 \<and> sum_list waits \<le> 465 * (second div 2)"
proof -
  have all: "sum_list (map (\<lambda>i. int i * (second div 2)) [1..<m]) \<le> 465 * (second div 2)" if "m \<le> 31" for m
  proof -
    have "sum_list (map (\<lambda>i. int i * (second div 2)) [1..<31]) =
        sum_list (map (\<lambda>i. int i * (second div 2)) [1..<m]) + sum_list (map (\<lambda>i. int i * (second div 2)) [m..<31])" if "1 \<le> m"
      using \<open>m \<le> 31\<close> that upt_add_eq_append [of 1 m "31 - m"] by simp
    moreover have "0 \<le> sum_list (map (\<lambda>i. int i * (second div 2)) [m..<31])" by (rule sum_list_nonneg) auto
    moreover have "sum_list (map (\<lambda>i. int i * (second div 2)) [1..<31]) = 465 * (second div 2)" by (simp add: upt_rec)
    ultimately show ?thesis by (cases "1 \<le> m") auto
  qed
  show ?thesis
    using assms connect_waits [of 1 co "pool_MaxConns c"] all
    by (auto simp: Connect_def maxAttempts_def split: if_splits)
qed

section \<open>The seed file\<close>

text \<open>The rows of \<open>seed/seed.sql\<close>; \<open>ON CONFLICT (id) DO NOTHING\<close> does not excuse a name that is taken.\<close>

definition seed_resources :: "time \<Rightarrow> resource list" where
  "seed_resources t = map (\<lambda>(i, name, description, capacity).
       \<lparr>r_ID = i, r_Name = name, r_Description = description, r_Capacity = capacity, r_CreatedAt = t\<rparr>)
    [(0xaaaa1111000000000000000000000001, ''Slip A1'', ''North dock, 30ft slip'', 1),
     (0xaaaa1111000000000000000000000002, ''Slip A2'', ''North dock, 40ft slip'', 1),
     (0xaaaa1111000000000000000000000003, ''Mooring M7'', ''Outer harbor mooring ball'', 1),
     (0xbbbb2222000000000000000000000001, ''Lighthouse Room'', ''Conference room, seats 12'', 12),
     (0xbbbb2222000000000000000000000002, ''Sunset Deck'', ''Open-air deck for events'', 40)]"

definition seed_groups :: "time \<Rightarrow> group_reservation list" where
  "seed_groups t = map (\<lambda>(i, name, organizer, email, capacity, notes).
       \<lparr>g_ID = i, g_Name = name, g_OrganizerID = None, g_OrganizerName = organizer, g_OrganizerEmail = email,
        g_Capacity = capacity, g_Notes = notes, g_CreatedAt = t, g_UpdatedAt = t, g_Bookings = []\<rparr>)
    [(0x11111111111111111111111111111111, ''Marina Wedding Party'', ''Alex Rivera'', ''alex@example.com'', 40,
      ''Beachfront ceremony, sunset dinner''),
     (0x22222222222222222222222222222222, ''Lighthouse Tech Retreat'', ''Priya Shah'', ''priya@example.com'', 25,
      ''Engineering offsite, 3 nights''),
     (0x33333333333333333333333333333333, ''Harbor Birding Club'', ''Sam Okafor'', ''sam@example.com'', 15,
      ''Early-morning departures requested'')]"

fun insert_resources_unless_there :: "resource list \<Rightarrow> db \<Rightarrow> db option" where
  "insert_resources_unless_there [] d = Some d"
| "insert_resources_unless_there (r # rs) d =
     (if row_by r_ID (r_ID r) (resources d) \<noteq> None then insert_resources_unless_there rs d
      else if resource_insertable d r then insert_resources_unless_there rs (d\<lparr>resources := resources d @ [r]\<rparr>)
      else None)"

fun insert_groups_unless_there :: "group_reservation list \<Rightarrow> db \<Rightarrow> db option" where
  "insert_groups_unless_there [] d = Some d"
| "insert_groups_unless_there (g # gs) d =
     (if row_by g_ID (g_ID g) (group_reservations d) \<noteq> None then insert_groups_unless_there gs d
      else if group_insertable d g then insert_groups_unless_there gs (d\<lparr>group_reservations := group_reservations d @ [g]\<rparr>)
      else None)"

definition seed_sql :: "time \<Rightarrow> db \<Rightarrow> db option" where
  "seed_sql t d = Option.bind (insert_resources_unless_there (seed_resources t) d) (insert_groups_unless_there (seed_groups t))"

text \<open>The file as it was read, \<open>None\<close> if it cannot be, and what the database makes of its text.\<close>

definition Seed :: "(string \<Rightarrow> time \<Rightarrow> db \<Rightarrow> db option) \<Rightarrow> string option \<Rightarrow> unit action" where
  "Seed exec file =
     (case file of
        None \<Rightarrow> fail OtherError
      | Some text \<Rightarrow>
          if text = [] then ret ()
          else transaction (sql (\<lambda>t d. case exec text t d of None \<Rightarrow> Inl DBError | Some d' \<Rightarrow> Inr ((), d'))))"

lemma resources_stay:
  "insert_resources_unless_there rs d = Some d' \<Longrightarrow>
     group_reservations d' = group_reservations d \<and> (\<exists>new. set new \<subseteq> set rs \<and> resources d' = resources d @ new) \<and>
     (\<forall>r \<in> set rs. row_by r_ID (r_ID r) (resources d') \<noteq> None)"
proof (induction rs arbitrary: d)
  case (Cons r rs)
  show ?case
  proof (cases "row_by r_ID (r_ID r) (resources d)")
    case None
    then have "insert_resources_unless_there rs (d\<lparr>resources := resources d @ [r]\<rparr>) = Some d'"
      using Cons.prems by (simp split: if_splits)
    from Cons.IH [OF this] obtain new where new: "set new \<subseteq> set rs" "resources d' = (resources d @ [r]) @ new"
      "group_reservations d' = group_reservations d" "\<forall>r \<in> set rs. row_by r_ID (r_ID r) (resources d') \<noteq> None" by auto
    then have "row_by r_ID (r_ID r) (resources d') \<noteq> None" by (simp add: row_by_append None) (simp add: row_by_def)
    then show ?thesis using new by (auto intro!: exI [of _ "r # new"])
  next
    case (Some x)
    then have "insert_resources_unless_there rs d = Some d'" using Cons.prems by simp
    from Cons.IH [OF this] obtain new where new: "set new \<subseteq> set rs" "resources d' = resources d @ new"
      "group_reservations d' = group_reservations d" "\<forall>r \<in> set rs. row_by r_ID (r_ID r) (resources d') \<noteq> None" by auto
    moreover have "row_by r_ID (r_ID r) (resources d') \<noteq> None" using Some by (simp add: new(2) row_by_append)
    ultimately show ?thesis by auto
  qed
qed simp

lemma resources_there: "\<forall>r \<in> set rs. row_by r_ID (r_ID r) (resources d) \<noteq> None \<Longrightarrow> insert_resources_unless_there rs d = Some d"
  by (induction rs) auto

lemma groups_stay:
  "insert_groups_unless_there gs d = Some d' \<Longrightarrow>
     resources d' = resources d \<and> (\<exists>new. group_reservations d' = group_reservations d @ new) \<and>
     (\<forall>g \<in> set gs. row_by g_ID (g_ID g) (group_reservations d') \<noteq> None)"
proof (induction gs arbitrary: d)
  case (Cons g gs)
  show ?case
  proof (cases "row_by g_ID (g_ID g) (group_reservations d)")
    case None
    then have "insert_groups_unless_there gs (d\<lparr>group_reservations := group_reservations d @ [g]\<rparr>) = Some d'"
      using Cons.prems by (simp split: if_splits)
    from Cons.IH [OF this] obtain new where new: "group_reservations d' = (group_reservations d @ [g]) @ new"
      "resources d' = resources d" "\<forall>g \<in> set gs. row_by g_ID (g_ID g) (group_reservations d') \<noteq> None" by auto
    then have "row_by g_ID (g_ID g) (group_reservations d') \<noteq> None" by (simp add: row_by_append None) (simp add: row_by_def)
    then show ?thesis using new by auto
  next
    case (Some x)
    then have "insert_groups_unless_there gs d = Some d'" using Cons.prems by simp
    from Cons.IH [OF this] obtain new where new: "group_reservations d' = group_reservations d @ new"
      "resources d' = resources d" "\<forall>g \<in> set gs. row_by g_ID (g_ID g) (group_reservations d') \<noteq> None" by auto
    moreover have "row_by g_ID (g_ID g) (group_reservations d') \<noteq> None" using Some by (simp add: new(1) row_by_append)
    ultimately show ?thesis by auto
  qed
qed simp

lemma groups_there: "\<forall>g \<in> set gs. row_by g_ID (g_ID g) (group_reservations d) \<noteq> None \<Longrightarrow> insert_groups_unless_there gs d = Some d"
  by (induction gs) auto

text \<open>The seed may be run at every start: it keeps the rows there are and finds nothing to do the second time.\<close>

lemma seed_ids:
  "map r_ID (seed_resources t) = map r_ID (seed_resources t')" "map g_ID (seed_groups t) = map g_ID (seed_groups t')"
  by (simp_all add: seed_resources_def seed_groups_def)

lemma seed_twice:
  assumes "seed_sql t d = Some d'"
  shows "seed_sql t' d' = Some d' \<and> (\<exists>rs gs. resources d' = resources d @ rs \<and> group_reservations d' = group_reservations d @ gs)"
proof -
  obtain m where m: "insert_resources_unless_there (seed_resources t) d = Some m" "insert_groups_unless_there (seed_groups t) m = Some d'"
    using assms by (auto simp: seed_sql_def bind_eq_Some_conv)
  note r = resources_stay [OF m(1)] and g = groups_stay [OF m(2)]
  have "\<forall>i \<in> set (map r_ID (seed_resources t)). row_by r_ID i (resources d') \<noteq> None" using r g by auto
  then have "\<forall>x \<in> set (seed_resources t'). row_by r_ID (r_ID x) (resources d') \<noteq> None"
    unfolding seed_ids(1) [of t t'] by simp
  moreover have "\<forall>i \<in> set (map g_ID (seed_groups t)). row_by g_ID i (group_reservations d') \<noteq> None" using g by auto
  then have "\<forall>x \<in> set (seed_groups t'). row_by g_ID (g_ID x) (group_reservations d') \<noteq> None"
    unfolding seed_ids(2) [of t t'] by simp
  ultimately have "seed_sql t' d' = Some d'"
    by (simp only: seed_sql_def resources_there groups_there bind.bind_lunit)
  then show ?thesis using r g by auto
qed

section \<open>The health check of the container\<close>

text \<open>\<open>get\<close> is the HTTP client: the status of the answer, or no answer. The result is the exit code.\<close>

definition runHealthcheck :: "environment \<Rightarrow> (string \<Rightarrow> int option) \<Rightarrow> int" where
  "runHealthcheck env get =
     (let port = (if env ''APP_PORT'' = [] then ''8080'' else env ''APP_PORT'')
      in case get (''http://127.0.0.1:'' @ port @ ''/healthz'') of
           None \<Rightarrow> 1
         | Some status \<Rightarrow> if status \<noteq> 200 then 1 else 0)"

section \<open>The key file\<close>

text \<open>
  A volume is a map from paths to contents; a call of the operating system fails or does all its work.
  \<open>aes_gcm\<close> is the AEAD of a key of 32 bytes.
\<close>

type_synonym volume = "string \<Rightarrow> string option"

definition LoadOrCreate :: "(string \<Rightarrow> key_manager) \<Rightarrow> string \<Rightarrow> (volume, key_manager) io" where
  "LoadOrCreate aes_gcm keyPath =
     bindE (os_call (\<lambda>v. ((), v))) (\<lambda>_.
     bindE (os_call (\<lambda>v. (v keyPath, v))) (\<lambda>data.
     case data of
       Some bytes \<Rightarrow> if length bytes \<noteq> 32 then fail OtherError else ret (aes_gcm bytes)
     | None \<Rightarrow>
         bindE (draw_bytes 32) (\<lambda>bytes.
         bindE (os_call (\<lambda>v. ((), v(keyPath \<mapsto> bytes)))) (\<lambda>_. ret (aes_gcm bytes)))))"

lemma os_call_returns [returns]:
  "os_call f w = (Inr x, w') \<longleftrightarrow> \<not> outage w (stmts w) \<and>
     (\<exists>d. f (store w) = (x, d) \<and> w' = w\<lparr>store := d, stmts := Suc (stmts w)\<rparr>)"
  by (auto simp: os_call_def Let_def split: prod.splits)

lemma LoadOrCreate_returns:
  assumes "LoadOrCreate aes path w = (Inr km, w')"
  shows "\<exists>bytes. length bytes = 32 \<and> km = aes bytes \<and> store w' path = Some bytes \<and>
    (store w path = Some bytes \<and> store w' = store w \<or> store w path = None \<and> store w' = (store w)(path \<mapsto> bytes))"
proof (cases "store w path")
  case None
  then show ?thesis using assms by (auto simp: LoadOrCreate_def bindE_returns os_call_returns draw_bytes_returns ret_returns)
next
  case (Some b)
  then show ?thesis using assms by (auto simp: LoadOrCreate_def bindE_returns os_call_returns if_returns ret_returns fail_returns)
qed

text \<open>A restart finds the same key, so notes encrypted before it decrypt after it.\<close>

lemma key_survives_restart:
  assumes "LoadOrCreate aes path w = (Inr km, w1)" and "store v path = store w1 path" "calm v"
    and "aead_ok km" "Encrypt km notes x = (Inr blob, y)"
  shows "\<exists>v'. LoadOrCreate aes path v = (Inr km, v') \<and> store v' = store v \<and> Decrypt km blob = Inr notes"
proof -
  obtain bytes where b: "length bytes = 32" "km = aes bytes" "store v path = Some bytes"
    using LoadOrCreate_returns [OF assms(1)] assms(2) by auto
  then have "LoadOrCreate aes path v = (Inr km, v\<lparr>stmts := Suc (Suc (stmts v))\<rparr>)"
    using assms(3) by (simp add: LoadOrCreate_def bindE_def os_call_calm ret_def)
  then show ?thesis using Decrypt_Encrypt [OF assms(4,5)] by simp
qed

section \<open>Seeding the accounts\<close>

definition initialAdminPasswordPath :: string where
  "initialAdminPasswordPath = ''/app/keys/initial_admin_password''"

definition generateInitialPassword :: "('d, string) io" where
  "generateInitialPassword = bindE (draw_bytes 18) (\<lambda>buf. ret (base64url buf @ ''A1!''))"

definition named :: "auth_env \<Rightarrow> string \<Rightarrow> db \<Rightarrow> user option" where
  "named env name d = row_by (\<lambda>u. pg_LOWER env (u_Username u)) (pg_LOWER env name) (users d)"

definition seeded_user :: "string \<Rightarrow> string \<Rightarrow> bool \<Rightarrow> bool \<Rightarrow> user" where
  "seeded_user name hash admin mustRotate = (new_user name hash)\<lparr>u_IsAdmin := admin, u_MustRotatePassword := mustRotate\<rparr>"

lemma seeded_user_ID [simp]: "u_ID (seeded_user name hash admin mustRotate) = uuid_nil"
  by (simp add: seeded_user_def new_user_def)

text \<open>The account under a name is promoted when it should be an administrator, or made.\<close>

definition promote :: "bool \<Rightarrow> user \<Rightarrow> unit action" where
  "promote admin existing =
     (if admin \<and> \<not> u_IsAdmin existing then ignoring (users_SetAdmin (u_ID existing) True) (ret ()) else ret ())"

definition make_account :: "auth_env \<Rightarrow> auth_settings \<Rightarrow> string \<Rightarrow> string \<Rightarrow> bool \<Rightarrow> bool \<Rightarrow> unit action" where
  "make_account env cfg name password admin mustRotate =
     bindE (hash_password env cfg password) (\<lambda>hash.
     bindE (users_Create (seeded_user name hash admin mustRotate)) (\<lambda>_. ret ()))"

type_synonym 'f secret_writer = "string \<Rightarrow> string \<Rightarrow> ((cache, 'f) server, unit) io"

definition seedAdminUser :: "auth_env \<Rightarrow> auth_settings \<Rightarrow> 'f secret_writer \<Rightarrow> ((cache, 'f) server, unit) io" where
  "seedAdminUser env cfg write =
     attempt (on_db (users_GetByUsername (pg_LOWER env) ''harbormaster'')) (\<lambda>r. case r of
       Inr existing \<Rightarrow> on_db (promote True existing)
     | Inl e \<Rightarrow>
         if e \<noteq> ErrNotFound then fail e else
         bindE generateInitialPassword (\<lambda>password.
         bindE (on_db (make_account env cfg ''harbormaster'' password True True)) (\<lambda>_.
         ignoring (write initialAdminPasswordPath (password @ [char_of (10 :: nat)])) (ret ()))))"

definition demo_accounts :: "(string \<times> string \<times> bool) list" where
  "demo_accounts = [(''admin'', ''Admin@Harbor2026!'', True), (''demouser'', ''User@Harbor2026!'', False)]"

definition seed_account :: "auth_env \<Rightarrow> auth_settings \<Rightarrow> string \<times> string \<times> bool \<Rightarrow> unit action" where
  "seed_account env cfg acc = (case acc of (name, password, admin) \<Rightarrow>
     attempt (users_GetByUsername (pg_LOWER env) name) (\<lambda>r. case r of
       Inr existing \<Rightarrow> promote admin existing
     | Inl e \<Rightarrow> if e \<noteq> ErrNotFound then fail e else make_account env cfg name password admin False))"

definition seedDemoUsers :: "auth_env \<Rightarrow> auth_settings \<Rightarrow> unit action" where
  "seedDemoUsers env cfg = for_each_or_return (seed_account env cfg) demo_accounts"

text \<open>The bootstrap of \<open>main\<close> gives the warnings it logs.\<close>

definition warning :: "string \<Rightarrow> go_error + unit \<Rightarrow> string list" where
  "warning msg r = (case r of Inl _ \<Rightarrow> [msg] | Inr _ \<Rightarrow> [])"

definition bootstrap ::
  "auth_env \<Rightarrow> auth_settings \<Rightarrow> 'f secret_writer \<Rightarrow> config \<Rightarrow> ((cache, 'f) server, string list) io" where
  "bootstrap env cfg write c =
     (if RunSeed c
      then attempt (seedAdminUser env cfg write) (\<lambda>r1.
           attempt (on_db (seedDemoUsers env cfg)) (\<lambda>r2.
           ret (warning ''admin seed skipped'' r1 @ warning ''demo user seed skipped'' r2)))
      else ret [])"

text \<open>\<open>main\<close> configures the authentication service with the defaults and the flag of the cookie.\<close>

definition main_auth_settings :: "int \<Rightarrow> config \<Rightarrow> auth_settings" where
  "main_auth_settings bcrypt_DefaultCost c = (DefaultAuthSettings bcrypt_DefaultCost)\<lparr>CookieSecure := ConfigCookieSecure c\<rparr>"

section \<open>What seeding does to the accounts\<close>

text \<open>One account is seeded: another name keeps its account, up to becoming an administrator.\<close>

definition kept :: "user \<Rightarrow> user \<Rightarrow> bool" where
  "kept u a \<longleftrightarrow> u_ID a = u_ID u \<and> u_PasswordHash a = u_PasswordHash u \<and>
     u_MustRotatePassword a = u_MustRotatePassword u \<and> (u_IsAdmin u \<longrightarrow> u_IsAdmin a)"

definition seeded :: "auth_env \<Rightarrow> string \<Rightarrow> string \<Rightarrow> bool \<Rightarrow> bool \<Rightarrow> db \<Rightarrow> db \<Rightarrow> bool" where
  "seeded env name password admin mustRotate d d' \<longleftrightarrow>
     (\<exists>a. named env name d' = Some a \<and> (admin \<longrightarrow> u_IsAdmin a) \<and>
        (case named env name d of Some u \<Rightarrow> kept u a
         | None \<Rightarrow> u_MustRotatePassword a = mustRotate \<and> bcrypt_compare env (u_PasswordHash a) password)) \<and>
     (\<forall>other. pg_LOWER env other \<noteq> pg_LOWER env name \<longrightarrow> rel_option kept (named env other d) (named env other d'))"

lemma kept_refl [simp]: "kept u u"
  by (simp add: kept_def)

lemma kept_trans: "kept u v \<Longrightarrow> kept v w \<Longrightarrow> kept u w"
  by (auto simp: kept_def)

lemma promote_seeds:
  assumes "named env name d = Some u" "calm w" "store w = d" "promote admin u w = (r, w')"
  shows "seeded env name password admin mustRotate d (store w') \<and> calm w'"
proof -
  let ?f = "\<lambda>t x. x\<lparr>u_IsAdmin := True, u_UpdatedAt := t\<rparr>"
  have upd: "named env n (d\<lparr>users := update_where (\<lambda>x. u_ID x = i) (?f t) (users d)\<rparr>) =
      map_option (\<lambda>x. if u_ID x = i then ?f t x else x) (named env n d)" for n i t
    unfolding named_def by (simp add: row_by_update)
  show ?thesis
  proof (cases "admin \<and> \<not> u_IsAdmin u")
    case True
    then have "store w' = d\<lparr>users := update_where (\<lambda>x. u_ID x = u_ID u) (?f (clock w (readings w))) (users d)\<rparr>" "calm w'"
      using assms(2-4) by (auto simp: promote_def users_SetAdmin_def ignoring_def attempt_def sql_calm ret_def)
    then show ?thesis
      using assms(1) by (auto simp: seeded_def upd kept_def option.rel_map intro!: option.rel_refl)
  next
    case False
    then show ?thesis
      using assms by (auto simp: promote_def ret_def seeded_def intro!: option.rel_refl)
  qed
qed

lemma make_account_seeds:
  assumes "bcrypt_ok env" "named env name d = None" "calm w" "store w = d"
    and "make_account env cfg name password admin mustRotate w = (Inr (), w')"
  shows "seeded env name password admin mustRotate d (store w') \<and> calm w'"
proof -
  obtain h v u where v: "hash_password env cfg password w = (Inr h, v)"
    and u: "users_Create (seeded_user name h admin mustRotate) v = (Inr u, w')"
    using assms(5) by (auto simp: make_account_def bindE_returns ret_returns)
  have h: "bcrypt_compare env h password"
    using v assms(1) by (auto simp: hash_password_def bindE_returns draw_bytes_returns bcrypt_ok_def fail_returns ret_returns split: option.splits)
  have same: "store v = d" using readonlyD [OF hash_password_readonly v] assms(4) by simp
  obtain i t where "store w' = d\<lparr>users := users d @ [(seeded_user name h admin mustRotate)\<lparr>u_ID := i, u_CreatedAt := t, u_UpdatedAt := t, u_AnonymizedAt := None\<rparr>]\<rparr>"
    using u same by (auto simp: users_Create_def bindE_returns let_returns now_returns new_uuid_returns sql_returns ret_returns split: if_splits)
  then have "named env n (store w') = (case named env n d of Some x \<Rightarrow> Some x
      | None \<Rightarrow> if pg_LOWER env name = pg_LOWER env n
                then Some ((seeded_user name h admin mustRotate)\<lparr>u_ID := i, u_CreatedAt := t, u_UpdatedAt := t, u_AnonymizedAt := None\<rparr>) else None)" for n
    by (simp add: named_def row_by_append seeded_user_def new_user_def) (auto simp: row_by_def seeded_user_def new_user_def split: option.splits)
  moreover have "keeps_oracles (make_account env cfg name password admin mustRotate)"
    unfolding make_account_def hash_password_def users_Create_def Let_def by (intro oracle_rules)
  then have "calm w'"
    using keeps_oracles_calm [of "make_account env cfg name password admin mustRotate" w "Inr ()" w', OF _ assms(5)] assms(3) by blast
  ultimately show ?thesis
    using assms(2) h by (auto simp: seeded_def seeded_user_def new_user_def split: option.splits)
qed

lemma lookup_calm:
  "calm w \<Longrightarrow> users_GetByUsername (pg_LOWER env) n w =
     ((case named env n (store w) of None \<Rightarrow> Inl ErrNotFound | Some u \<Rightarrow> Inr u),
      w\<lparr>readings := Suc (readings w), stmts := Suc (stmts w)\<rparr>)"
  by (simp add: users_GetByUsername_def query_calm named_def)

lemma seed_account_seeds:
  assumes "bcrypt_ok env" "calm w" "seed_account env cfg (name, password, admin) w = (Inr (), w')"
  shows "seeded env name password admin False (store w) (store w') \<and> calm w'"
proof (cases "named env name (store w)")
  case None
  then have "make_account env cfg name password admin False (w\<lparr>readings := Suc (readings w), stmts := Suc (stmts w)\<rparr>) = (Inr (), w')"
    using assms(2,3) by (simp add: seed_account_def attempt_def lookup_calm)
  from make_account_seeds [OF assms(1) None _ _ this] show ?thesis using assms(2) by simp
next
  case (Some u)
  then have "promote admin u (w\<lparr>readings := Suc (readings w), stmts := Suc (stmts w)\<rparr>) = (Inr (), w')"
    using assms(2,3) by (simp add: seed_account_def attempt_def lookup_calm)
  from promote_seeds [OF Some _ _ this] show ?thesis using assms(2) by simp
qed

lemma seedDemoUsers_seeds:
  assumes "bcrypt_ok env" "calm w" "seedDemoUsers env cfg w = (Inr (), w')"
  shows "\<exists>d. seeded env ''admin'' ''Admin@Harbor2026!'' True False (store w) d \<and>
    seeded env ''demouser'' ''User@Harbor2026!'' False False d (store w')"
proof -
  obtain w1 where one: "seed_account env cfg (''admin'', ''Admin@Harbor2026!'', True) w = (Inr (), w1)"
    and two: "seed_account env cfg (''demouser'', ''User@Harbor2026!'', False) w1 = (Inr (), w')"
    using assms(3) by (auto simp: seedDemoUsers_def demo_accounts_def bindE_returns ret_returns)
  from seed_account_seeds [OF assms(1,2) one] seed_account_seeds [OF assms(1) _ two] show ?thesis by blast
qed

definition secret_writer_ok :: "'f secret_writer \<Rightarrow> bool" where
  "secret_writer_ok write \<longleftrightarrow> (\<forall>p s v r v'. write p s v = (r, v') \<longrightarrow> sv_db (store v') = sv_db (store v) \<and> (calm v \<longrightarrow> calm v'))"

lemma seedAdminUser_seeds:
  assumes "bcrypt_ok env" "calm w" "secret_writer_ok write" "seedAdminUser env cfg write w = (Inr (), w')"
  shows "\<exists>pw. seeded env ''harbormaster'' pw True True (sv_db (store w)) (sv_db (store w')) \<and> calm w'"
proof -
  let ?w = "w\<lparr>readings := Suc (readings w), stmts := Suc (stmts w)\<rparr>"
  have look: "on_db (users_GetByUsername (pg_LOWER env) ''harbormaster'') w =
      ((case named env ''harbormaster'' (sv_db (store w)) of None \<Rightarrow> Inl ErrNotFound | Some u \<Rightarrow> Inr u), ?w)"
    using assms(2) by (simp add: users_GetByUsername_def on_db_query_calm named_def)
  show ?thesis
  proof (cases "named env ''harbormaster'' (sv_db (store w))")
    case (Some u)
    then obtain v where v: "promote True u (with_store (sv_db (store w)) ?w) = (Inr (), v)"
      "w' = with_store ((store w)\<lparr>sv_db := store v\<rparr>) v"
      using assms(4) look by (auto simp: seedAdminUser_def attempt_def on_db_returns)
    from promote_seeds [OF Some _ _ v(1)] show ?thesis using assms(2) v(2) by simp
  next
    case None
    then obtain pw v v2 r where pw: "generateInitialPassword ?w = (Inr pw, v)"
      and made: "on_db (make_account env cfg ''harbormaster'' pw True True) v = (Inr (), v2)"
      and put: "write initialAdminPasswordPath (pw @ [char_of (10 :: nat)]) v2 = (r, w')"
      using assms(4) look by (auto simp: seedAdminUser_def attempt_returns bindE_returns ignoring_returns ret_returns if_returns)
    have v: "store v = store w" "calm v"
      using pw assms(2) by (auto simp: generateInitialPassword_def bindE_returns draw_bytes_returns ret_returns)
    obtain v1 where "make_account env cfg ''harbormaster'' pw True True (with_store (sv_db (store v)) v) = (Inr (), v1)"
      "v2 = with_store ((store v)\<lparr>sv_db := store v1\<rparr>) v1"
      using made by (auto simp: on_db_returns)
    then have "seeded env ''harbormaster'' pw True True (sv_db (store w)) (sv_db (store v2)) \<and> calm v2"
      using make_account_seeds [OF assms(1) None, of "with_store (sv_db (store v)) v"] v by auto
    then show ?thesis using assms(3) put unfolding secret_writer_ok_def by metis
  qed
qed

lemma bootstrap_seeds:
  assumes "bcrypt_ok env" "calm w" "secret_writer_ok write" "RunSeed c" "bootstrap env cfg write c w = (Inr [], w')"
  shows "\<exists>pw d1 d2. seeded env ''harbormaster'' pw True True (sv_db (store w)) d1 \<and>
    seeded env ''admin'' ''Admin@Harbor2026!'' True False d1 d2 \<and> seeded env ''demouser'' ''User@Harbor2026!'' False False d2 (sv_db (store w'))"
proof -
  obtain r1 r2 w1 where one: "seedAdminUser env cfg write w = (r1, w1)" and two: "on_db (seedDemoUsers env cfg) w1 = (r2, w')"
    and none: "warning ''admin seed skipped'' r1 @ warning ''demo user seed skipped'' r2 = []"
    using assms(4,5) by (auto simp: bootstrap_def attempt_returns ret_returns)
  then have r: "r1 = Inr ()" "r2 = Inr ()" by (auto simp: warning_def split: sum.splits)
  obtain v where v: "seedDemoUsers env cfg (with_store (sv_db (store w1)) w1) = (Inr (), v)" "sv_db (store w') = store v"
    using two r by (auto simp: on_db_returns)
  from seedAdminUser_seeds [OF assms(1-3) one [unfolded r]] obtain pw where
    "seeded env ''harbormaster'' pw True True (sv_db (store w)) (sv_db (store w1))" "calm w1" by blast
  with seedDemoUsers_seeds [OF assms(1) _ v(1)] v(2) show ?thesis by auto
qed

lemma seeded_other:
  "seeded env name pw admin r d d' \<Longrightarrow> pg_LOWER env other \<noteq> pg_LOWER env name \<Longrightarrow> rel_option kept (named env other d) (named env other d')"
  by (simp add: seeded_def)

text \<open>
  C39. A server started with only the salt configured makes administrators out of names. After a bootstrap
  without warnings on a working database, the account found under \<open>admin\<close> is an administrator: if
  there was one, whoever registered it, it is that user with that user's own password; if not, it is
  a new one whom the published password lets in and whose password need not be rotated. The
  same goes for \<open>harbormaster\<close>, except that a new one must rotate its password.
\<close>

theorem seeding_makes_administrators:
  assumes "Load vars = Inr c" "vars ''RUN_SEED'' = []" "bcrypt_ok env" "calm w" "secret_writer_ok write"
    and "bootstrap env cfg write c w = (Inr [], w')"
    and "distinct (map (pg_LOWER env) [''harbormaster'', ''admin'', ''demouser''])"
  shows "(\<exists>a. named env ''admin'' (sv_db (store w')) = Some a \<and> u_IsAdmin a \<and>
      (case named env ''admin'' (sv_db (store w)) of
         Some u \<Rightarrow> u_ID a = u_ID u \<and> u_PasswordHash a = u_PasswordHash u
       | None \<Rightarrow> bcrypt_compare env (u_PasswordHash a) ''Admin@Harbor2026!'' \<and> \<not> u_MustRotatePassword a)) \<and>
    (\<exists>h. named env ''harbormaster'' (sv_db (store w')) = Some h \<and> u_IsAdmin h \<and>
      (case named env ''harbormaster'' (sv_db (store w)) of
         Some u \<Rightarrow> u_ID h = u_ID u \<and> u_PasswordHash h = u_PasswordHash u
       | None \<Rightarrow> u_MustRotatePassword h))"
proof -
  have "RunSeed c" using Load_RunSeed [OF assms(1)] assms(2) by (simp add: getenv_def default_true)
  with bootstrap_seeds [OF assms(3-5) _ assms(6)] obtain pw d1 d2 where
    h: "seeded env ''harbormaster'' pw True True (sv_db (store w)) d1" and
    a: "seeded env ''admin'' ''Admin@Harbor2026!'' True False d1 d2" and
    u: "seeded env ''demouser'' ''User@Harbor2026!'' False False d2 (sv_db (store w'))" by blast
  have ne: "pg_LOWER env ''admin'' \<noteq> pg_LOWER env ''harbormaster''" "pg_LOWER env ''admin'' \<noteq> pg_LOWER env ''demouser''"
    "pg_LOWER env ''harbormaster'' \<noteq> pg_LOWER env ''admin''" "pg_LOWER env ''harbormaster'' \<noteq> pg_LOWER env ''demouser''"
    using assms(7) by (auto dest: sym)
  note keep = seeded_other [OF h ne(1)] seeded_other [OF u ne(2)] seeded_other [OF a ne(3)] seeded_other [OF u ne(4)]
  obtain x where x: "named env ''admin'' d2 = Some x" "u_IsAdmin x"
    "case named env ''admin'' d1 of Some u \<Rightarrow> kept u x
       | None \<Rightarrow> u_MustRotatePassword x = False \<and> bcrypt_compare env (u_PasswordHash x) ''Admin@Harbor2026!''"
    using a by (auto simp: seeded_def)
  obtain y where y: "named env ''harbormaster'' d1 = Some y" "u_IsAdmin y"
    "case named env ''harbormaster'' (sv_db (store w)) of Some u \<Rightarrow> kept u y
       | None \<Rightarrow> u_MustRotatePassword y = True \<and> bcrypt_compare env (u_PasswordHash y) pw"
    using h by (auto simp: seeded_def)
  show ?thesis
    using x y keep by (auto simp: option_rel_Some1 option_rel_Some2 kept_def split: option.splits)
qed

text \<open>Somebody has registered as \<open>Admin\<close> before the server is started with the default configuration.\<close>

definition salt_only :: environment where
  "salt_only = (\<lambda>v. if v = ''ANALYTICS_ANON_SALT'' then ''pepper'' else [])"

definition squatted_site :: "(cache, backup_file) server world" where
  "squatted_site = with_store \<lparr>sv_db = empty_db\<lparr>users := [(demo_account 0)\<lparr>u_Username := ''Admin''\<rparr>]\<rparr>, sv_cache = [], sv_files = (\<lambda>_. None)\<rparr>
     (demo_world empty_db second)"

definition no_secret_file :: "backup_file secret_writer" where
  "no_secret_file p s = os_call (\<lambda>st. ((), st))"

lemma no_secret_file_ok: "secret_writer_ok no_secret_file"
  by (auto simp: secret_writer_ok_def no_secret_file_def os_call_def Let_def calm_def split: if_splits)

lemma salt_only_loads: "\<exists>c. Load salt_only = Inr c"
proof -
  have "trim_space ''pepper'' = ''pepper''" by (rule trim_space_plain) simp
  then show ?thesis
    by (simp add: Load_def salt_only_def getenv_def go_atoi_def is_digit_char_def digits_value_def digit_value_def)
qed

theorem seeding_makes_administrators_witness:
  "\<exists>c w' a. Load salt_only = Inr c \<and> bootstrap toy_env (DefaultAuthSettings 10) no_secret_file c squatted_site = (Inr [], w') \<and>
     named toy_env ''admin'' (sv_db (store w')) = Some a \<and> u_IsAdmin a \<and> u_ID a = 7 \<and> u_PasswordHash a = ''$Harbor-Pass-1''"
proof -
  obtain c where c: "Load salt_only = Inr c" using salt_only_loads by blast
  have on: "RunSeed c" using Load_RunSeed [OF c] by (simp add: getenv_def salt_only_def default_true)
  have lower: "ascii_lower ''harbormaster'' = ''harbormaster''" "ascii_lower ''admin'' = ''admin''" "ascii_lower ''demouser'' = ''demouser''"
    "ascii_lower ''Admin'' = ''admin''"
    by (simp_all add: ascii_lower_def lower_char_def char_of_def bit_0)
  have "\<exists>w'. bootstrap toy_env (DefaultAuthSettings 10) no_secret_file c squatted_site = (Inr [], w')"
    using on by (simp add: bootstrap_def seedAdminUser_def seedDemoUsers_def demo_accounts_def seed_account_def promote_def
        make_account_def generateInitialPassword_def hash_password_def users_Create_def users_SetAdmin_def
        users_GetByUsername_def no_secret_file_def os_call_def on_db_def squatted_site_def seeded_user_def warning_def
        user_insertable_def fresh_key_def row_by_def char_length_def is_cont_def update_where_def auth_demo lower run_defs
        base64url_def upt_rec)
  then obtain w' where w': "bootstrap toy_env (DefaultAuthSettings 10) no_secret_file c squatted_site = (Inr [], w')" by blast
  have "named toy_env ''admin'' (sv_db (store squatted_site)) = Some ((demo_account 0)\<lparr>u_Username := ''Admin''\<rparr>)"
    by (simp add: named_def row_by_def squatted_site_def toy_env_def demo_account_def new_user_def lower)
  with seeding_makes_administrators [OF c _ toy_bcrypt_ok _ no_secret_file_ok w'] w' c show ?thesis
    by (auto simp: salt_only_def squatted_site_def toy_env_def lower demo_account_def new_user_def)
qed

end
