(* ===== verification/Jobs.thy ===== *)
theory Jobs
  imports Startup
begin

text \<open>
  The background work: \<open>infrastructure/jobs/runner.go\<close> and the jobs \<open>cmd/server/main.go\<close> registers. A job is
  a name, an interval and an action on the server; one goroutine per job runs it at once, then at every
  tick, until the context is canceled. The goroutines are a step relation over their phases, the
  one-slot channels of the tickers, the wait group and the progress of \<open>Start\<close> and \<open>Stop\<close>.
\<close>

section \<open>The jobs\<close>

record job =
  j_Name :: string
  j_Interval :: duration
  j_Run :: "unit app"

text \<open>\<open>runOnce\<close> logs how the run went and how long it took.\<close>

definition runOnce :: "job \<Rightarrow> unit app" where
  "runOnce j = bindE now (\<lambda>_. attempt (j_Run j) (\<lambda>_. bindE now (\<lambda>_. ret ())))"

definition main_jobs :: "web \<Rightarrow> job list" where
  "main_jobs wb =
    [\<lparr>j_Name = ''analytics-aggregate'', j_Interval = minute, j_Run = on_db AnalyticsService_RunAggregation\<rparr>,
     \<lparr>j_Name = ''anomaly-detect'', j_Interval = 5 * minute, j_Run = on_db (AnalyticsService_RunAnomalyDetection (wb_analytics wb))\<rparr>,
     \<lparr>j_Name = ''groupbuy-sweep'', j_Interval = minute, j_Run = on_db (GroupBuyService_SweepExpired (wb_is_print wb))\<rparr>,
     \<lparr>j_Name = ''deletion-executor'', j_Interval = 5 * minute, j_Run = on_db (GovernanceService_RunDeletionExecutor (wb_governance wb))\<rparr>,
     \<lparr>j_Name = ''webhook-deliver'', j_Interval = 5 * second, j_Run = on_db (WebhookService_RunDeliveryCycle (wb_network wb))\<rparr>,
     \<lparr>j_Name = ''backup-incremental'', j_Interval = 24 * hour,
      j_Run = bindE (BackupService_TakeIncremental (wb_backups wb)) (\<lambda>_. ret ())\<rparr>,
     \<lparr>j_Name = ''backup-full-weekly'', j_Interval = 7 * 24 * hour,
      j_Run = bindE (BackupService_TakeFull (wb_backups wb)) (\<lambda>_. ret ())\<rparr>]"

section \<open>The goroutines\<close>

text \<open>\<open>Pausing\<close> is the select between the ticker and the context; when both are ready it takes either.\<close>

datatype phase = Working | Pausing | Gone

datatype lifecycle = Starting nat | Serving | Stopping | Stopped

record runner =
  r_life :: lifecycle
  r_phases :: "phase list"
  r_ticks :: "bool list"
  r_finished :: "nat list"
  r_wg :: int
  r_canceled :: bool

definition NewRunner :: runner where
  "NewRunner = \<lparr>r_life = Starting 0, r_phases = [], r_ticks = [], r_finished = [], r_wg = 0, r_canceled = False\<rparr>"

text \<open>
  \<open>n\<close> jobs have been added. \<open>Start\<close> spawns their goroutines one after the other; the parent context may
  be canceled at any time (a signal), and \<open>Stop\<close> comes after \<open>Start\<close>.
\<close>

inductive runner_step :: "nat \<Rightarrow> runner \<Rightarrow> runner \<Rightarrow> bool" for n where
  spawn: "r_life s = Starting k \<Longrightarrow> k < n \<Longrightarrow>
    runner_step n s (s\<lparr>r_life := Starting (Suc k), r_phases := r_phases s @ [Working], r_ticks := r_ticks s @ [False],
      r_finished := r_finished s @ [0], r_wg := r_wg s + 1\<rparr>)"
| started: "r_life s = Starting n \<Longrightarrow> runner_step n s (s\<lparr>r_life := Serving\<rparr>)"
| signal: "runner_step n s (s\<lparr>r_canceled := True\<rparr>)"
| finish: "i < length (r_phases s) \<Longrightarrow> r_phases s ! i = Working \<Longrightarrow>
    runner_step n s (s\<lparr>r_phases := (r_phases s)[i := Pausing], r_finished := (r_finished s)[i := Suc (r_finished s ! i)]\<rparr>)"
| tick: "i < length (r_phases s) \<Longrightarrow> 0 < r_finished s ! i \<Longrightarrow> r_phases s ! i \<noteq> Gone \<Longrightarrow>
    runner_step n s (s\<lparr>r_ticks := (r_ticks s)[i := True]\<rparr>)"
| wake: "i < length (r_phases s) \<Longrightarrow> r_phases s ! i = Pausing \<Longrightarrow> r_ticks s ! i \<Longrightarrow>
    runner_step n s (s\<lparr>r_phases := (r_phases s)[i := Working], r_ticks := (r_ticks s)[i := False]\<rparr>)"
| leave: "i < length (r_phases s) \<Longrightarrow> r_phases s ! i = Pausing \<Longrightarrow> r_canceled s \<Longrightarrow>
    runner_step n s (s\<lparr>r_phases := (r_phases s)[i := Gone], r_wg := r_wg s - 1\<rparr>)"
| stop: "r_life s = Serving \<Longrightarrow> runner_step n s (s\<lparr>r_life := Stopping, r_canceled := True\<rparr>)"
| stopped: "r_life s = Stopping \<Longrightarrow> r_wg s = 0 \<Longrightarrow> runner_step n s (s\<lparr>r_life := Stopped\<rparr>)"

inductive_cases runner_stepE: "runner_step n s s'"

definition alive :: "phase list \<Rightarrow> nat" where
  "alive ps = length (filter (\<lambda>p. p \<noteq> Gone) ps)"

text \<open>The wait group counts the goroutines that have not left, and each that has left has finished a run.\<close>

definition runner_inv :: "nat \<Rightarrow> runner \<Rightarrow> bool" where
  "runner_inv n s \<longleftrightarrow> r_wg s = int (alive (r_phases s)) \<and>
     length (r_ticks s) = length (r_phases s) \<and> length (r_finished s) = length (r_phases s) \<and>
     length (r_phases s) = (case r_life s of Starting k \<Rightarrow> k | _ \<Rightarrow> n) \<and> length (r_phases s) \<le> n \<and>
     (\<forall>i < length (r_phases s). r_phases s ! i \<noteq> Working \<longrightarrow> 0 < r_finished s ! i) \<and>
     (r_life s = Stopped \<longrightarrow> alive (r_phases s) = 0)"

lemma alive_append [simp]: "alive (ps @ qs) = alive ps + alive qs"
  by (simp add: alive_def)

lemma alive_Cons [simp]: "alive (p # ps) = (if p = Gone then alive ps else Suc (alive ps))" "alive [] = 0"
  by (simp_all add: alive_def)

lemma alive_pos: "i < length ps \<Longrightarrow> ps ! i \<noteq> Gone \<Longrightarrow> 0 < alive ps"
  by (induction ps arbitrary: i) (auto simp: nth_Cons split: nat.splits)

lemma alive_update: "i < length ps \<Longrightarrow> ps ! i \<noteq> Gone \<Longrightarrow> alive (ps[i := p]) = (if p = Gone then alive ps - 1 else alive ps)"
proof (induction ps arbitrary: i)
  case (Cons q qs)
  then show ?case using alive_pos [of "i - 1" qs] by (cases i) auto
qed simp

lemma none_alive: "alive ps = 0 \<longleftrightarrow> (\<forall>i < length ps. ps ! i = Gone)"
  by (auto simp: alive_def filter_empty_conv all_set_conv_all_nth)

lemma runner_inv_new: "runner_inv n NewRunner"
  by (simp add: runner_inv_def NewRunner_def)

lemma runner_inv_step:
  assumes "runner_step n s s'" "runner_inv n s"
  shows "runner_inv n s'"
  using assms
proof (cases rule: runner_step.cases)
  case (leave i)
  then show ?thesis
    using assms(2) alive_update [of i "r_phases s" Gone] alive_pos [of i "r_phases s"]
    by (auto simp: runner_inv_def nth_list_update split: lifecycle.splits)
qed (auto simp: runner_inv_def alive_update nth_list_update nth_append less_Suc_eq dest: alive_pos split: lifecycle.splits)

lemma runner_reaches_inv: "(runner_step n)\<^sup>*\<^sup>* NewRunner s \<Longrightarrow> runner_inv n s"
  by (induction rule: rtranclp_induct) (auto intro: runner_inv_new runner_inv_step)

text \<open>After \<open>Stop\<close> nothing moves but the flag of the context.\<close>

lemma stopped_stays:
  assumes "(runner_step n)\<^sup>*\<^sup>* s s'" "runner_inv n s" "r_life s = Stopped"
  shows "r_life s' = Stopped \<and> r_phases s' = r_phases s \<and> r_finished s' = r_finished s \<and> runner_inv n s'"
  using assms
proof (induction rule: rtranclp_induct)
  case (step s1 s2)
  then have inv: "runner_inv n s1" "r_life s1 = Stopped" "r_phases s1 = r_phases s" "r_finished s1 = r_finished s" by auto
  have gone: "\<not> (i < length (r_phases s1) \<and> r_phases s1 ! i \<noteq> Gone)" for i
    using inv alive_pos [of i "r_phases s1"] by (auto simp: runner_inv_def)
  from step.hyps(2) have "r_life s2 = Stopped \<and> r_phases s2 = r_phases s1 \<and> r_finished s2 = r_finished s1"
    using inv(2) gone by (cases rule: runner_step.cases) auto
  then show ?case using inv runner_inv_step [OF step.hyps(2) inv(1)] by simp
qed simp

text \<open>
  Once \<open>Stop\<close> has returned, the background work is over. Every registered job has been run to its
  end at least once, no goroutine is left that could run one, and none ever runs again; until then
  a run that is under way is waited for.
\<close>

lemma stopped_runner:
  assumes "runner_inv n s" and "r_life s = Stopped"
  shows "length (r_phases s) = n \<and> list_all (\<lambda>p. p = Gone) (r_phases s) \<and> list_all (\<lambda>k. 0 < k) (r_finished s)"
proof -
  have gone: "\<forall>i < length (r_phases s). r_phases s ! i = Gone" and len: "length (r_phases s) = n" "length (r_finished s) = n"
    using assms by (auto simp: runner_inv_def none_alive)
  then have "\<forall>i < n. 0 < r_finished s ! i" using assms(1) by (auto simp: runner_inv_def)
  then show ?thesis using gone len by (simp add: list_all_length)
qed

lemma stop_waits_for_the_jobs:
  assumes "(runner_step n)\<^sup>*\<^sup>* NewRunner s" and "r_life s = Stopped" and "(runner_step n)\<^sup>*\<^sup>* s s'"
  shows "length (r_phases s) = n \<and> list_all (\<lambda>p. p = Gone) (r_phases s) \<and> list_all (\<lambda>k. 0 < k) (r_finished s) \<and>
    r_phases s' = r_phases s \<and> r_finished s' = r_finished s"
  using stopped_runner stopped_stays [OF assms(3)] runner_reaches_inv [OF assms(1)] assms(2) by blast

end
