(* ===== verification/Answers.thy ===== *)
theory Answers
  imports Router
begin

text \<open>
  Every handler answers: whatever statements fail, it ends in a response, and the status of the response is
  one of those that \<open>api/handlers\<close> and \<open>api/middleware\<close> write. A handler that dereferences the current
  user does so when there is one; theory System shows that the routes see to that.
\<close>

section \<open>Answers\<close>

definition good_status :: "int \<Rightarrow> bool" where
  "good_status s \<longleftrightarrow> s \<in> set [200, 201, 202, 302, 400, 401, 403, 404, 409, 422, 423, 424, 500, 503]"

definition answers :: "('d \<Rightarrow> bool) \<Rightarrow> ('d, response) io \<Rightarrow> bool" where
  "answers J m \<longleftrightarrow> (\<forall>w. J (store w) \<longrightarrow> (\<exists>resp w'. m w = (Inr resp, w') \<and> good_status (rs_Status resp)))"

abbreviation always :: "('d, response) io \<Rightarrow> bool" where
  "always m \<equiv> answers (\<lambda>_. True) m"

text \<open>An action that never returns an error.\<close>

definition succeeds :: "('d, 'a) io \<Rightarrow> bool" where
  "succeeds m \<longleftrightarrow> (\<forall>w. \<exists>x w'. m w = (Inr x, w'))"

named_theorems answer_rules

lemma answersD: "answers J m \<Longrightarrow> J (store w) \<Longrightarrow> \<exists>resp w'. m w = (Inr resp, w') \<and> good_status (rs_Status resp)"
  by (simp add: answers_def)

lemma answers_weaken: "always m \<Longrightarrow> answers J m"
  by (simp add: answers_def)

lemma preserves_always [answer_rules]: "preserves (\<lambda>_. True) m"
  by (simp add: preserves_def)

lemma answers_write [answer_rules]:
  "good_status (rs_Status resp) \<Longrightarrow> answers J (ret resp)" "good_status st \<Longrightarrow> answers J (respond wb st p)"
  "good_status st \<Longrightarrow> answers J (renderTempl wb st pg)" "good_status st \<Longrightarrow> answers J (plain_text st msg)"
  by (simp_all add: answers_def ret_def respond_def renderTempl_def plain_text_def json_def)

lemma attempt_run: "attempt m k w = k (fst (m w)) (snd (m w))"
  by (simp add: attempt_def split_def)

lemma preserves_run: "preserves J m \<Longrightarrow> J (store w) \<Longrightarrow> J (store (snd (m w)))"
  using preservesD [of J m w "fst (m w)" "snd (m w)"] by simp

lemma answers_attempt [answer_rules]:
  "preserves J m \<Longrightarrow> (\<And>r. answers J (k r)) \<Longrightarrow> answers J (attempt m k)"
  by (simp add: answers_def attempt_run preserves_run)

lemma answers_ignoring [answer_rules]: "preserves J m \<Longrightarrow> answers J k \<Longrightarrow> answers J (ignoring m k)"
  unfolding ignoring_def by (rule answers_attempt)

lemma answers_after [answer_rules]:
  fixes m :: "('d, 'a) io"
  assumes "succeeds m" "preserves J m" "\<And>x. answers J (k x)"
  shows "answers J (bindE m k)"
proof -
  have "bindE m k w = k (projr (fst (m w))) (snd (m w))" for w :: "'d world"
    using assms(1) unfolding succeeds_def bindE_def by (auto dest!: spec [of _ w])
  then show ?thesis using assms(2,3) by (simp add: answers_def preserves_run)
qed

lemma answers_then:
  fixes m :: "('d, response) io"
  assumes "answers J m" "\<And>resp. good_status (rs_Status resp) \<Longrightarrow> always (k resp)"
  shows "answers J (bindE m k)"
  unfolding answers_def
proof (intro allI impI)
  fix w :: "'d world"
  assume "J (store w)"
  then obtain resp w' where "m w = (Inr resp, w')" "good_status (rs_Status resp)" using answersD [OF assms(1)] by blast
  then show "\<exists>resp w'. bindE m k w = (Inr resp, w') \<and> good_status (rs_Status resp)"
    using answersD [OF assms(2), of resp] by (simp add: bindE_def)
qed

lemma answers_cases [answer_rules]:
  "(c \<Longrightarrow> answers J m) \<Longrightarrow> (\<not> c \<Longrightarrow> answers J m') \<Longrightarrow> answers J (if c then m else m')"
  "answers J m \<Longrightarrow> (\<And>x. answers J (ko x)) \<Longrightarrow> answers J (case y of None \<Rightarrow> m | Some x \<Rightarrow> ko x)"
  "(\<And>e. answers J (ke e)) \<Longrightarrow> (\<And>x. answers J (kx x)) \<Longrightarrow> answers J (case z of Inl e \<Rightarrow> ke e | Inr x \<Rightarrow> kx x)"
  "(\<And>a b. answers J (kp a b)) \<Longrightarrow> answers J (case p of (a, b) \<Rightarrow> kp a b)"
  by (auto split: option.split sum.split prod.split)

lemma succeeds_bindE [answer_rules]:
  fixes m :: "('d, 'a) io"
  assumes "succeeds m" "\<And>x. succeeds (k x)"
  shows "succeeds (bindE m k)"
  unfolding succeeds_def
proof
  fix w :: "'d world"
  obtain x w1 where "m w = (Inr x, w1)" using assms(1) unfolding succeeds_def by blast
  then show "\<exists>y w'. bindE m k w = (Inr y, w')" using assms(2) [of x] by (simp add: bindE_def succeeds_def)
qed

lemma succeeds_rules [answer_rules]:
  "succeeds (ret x)" "succeeds now" "(\<And>r. succeeds (k r)) \<Longrightarrow> succeeds (attempt m k)"
  "succeeds a \<Longrightarrow> succeeds b \<Longrightarrow> succeeds (if c then a else b)"
  "succeeds a \<Longrightarrow> (\<And>y. succeeds (f y)) \<Longrightarrow> succeeds (case v of None \<Rightarrow> a | Some y \<Rightarrow> f y)"
  by (simp_all add: succeeds_def ret_def now_def attempt_run split: option.split)

lemma good_statuses [answer_rules]:
  "good_status 200" "good_status 201" "good_status 202" "good_status 302" "good_status 400" "good_status 401" "good_status 403"
  "good_status 404" "good_status 409" "good_status 422" "good_status 423" "good_status 424" "good_status 500" "good_status 503"
  by (simp_all add: good_status_def)

section \<open>Writing and parsing\<close>

lemma answers_errors [answer_rules]:
  "answers J (writeServiceError wb e)" "answers J (writeGroupBuyError wb e)" "answers J (unauthorized wb msg)" "answers J (wantsHTML wb req)"
  unfolding writeServiceError_def writeGroupBuyError_def unauthorized_def wantsHTML_def
  by (intro answer_rules; simp add: good_status_def)+

lemma answers_auth_error [answer_rules]: "always (writeAuthError wb e)"
  unfolding writeAuthError_def by (intro answer_rules)

lemma answers_parsing [answer_rules]:
  "(\<And>x. answers J (k x)) \<Longrightarrow> answers J (binding wb bound k)"
  "(\<And>i. answers J (ku i)) \<Longrightarrow> answers J (parsing_uuid wb msg s ku)"
  "(\<And>t. answers J (kt t)) \<Longrightarrow> answers J (parsing_time wb msg s kt)"
  by (auto simp: binding_def parsing_uuid_def parsing_time_def answers_write good_statuses split: sum.split option.split)

lemma answers_with_user [answer_rules]: "rq_User req \<noteq> None \<Longrightarrow> (\<And>u. answers J (k u)) \<Longrightarrow> answers J (with_user req k)"
  by (auto simp: with_user_def CurrentUser_def)

lemma answers_serving [answer_rules]: "preserves J m \<Longrightarrow> (\<And>x. answers J (k x)) \<Longrightarrow> answers J (serving wb m k)"
  unfolding serving_def by (rule answers_attempt, assumption) (auto simp: answers_errors split: sum.split)

lemma answers_or_zero [answer_rules]: "preserves J m \<Longrightarrow> (\<And>x. answers J (k x)) \<Longrightarrow> answers J (or_zero m zero k)"
  unfolding or_zero_def by (rule answers_attempt)

lemma answers_authenticating [answer_rules]: "(\<And>x. always (k x)) \<Longrightarrow> always (authenticating wb m k)"
  unfolding authenticating_def by (rule answers_attempt, rule preserves_always) (auto simp: answers_auth_error split: sum.split)

lemma answers_with_header [answer_rules]: "answers J m \<Longrightarrow> answers J (with_header h m)"
  unfolding with_header_def by (erule answers_then) (rule answers_write, simp)

section \<open>The handlers\<close>

text \<open>Those that take a request as it comes.\<close>

lemma public_handlers_answer [answer_rules]:
  "always (BookingHandler_Index wb req)" "always (AuthHandler_Register wb req)" "always (AuthHandler_Login wb req)"
  "always (AuthHandler_Logout wb req)" "always (AuthHandler_Captcha wb req)" "always (AuthHandler_RegisterPage wb req)"
  "always (AuthHandler_LoginPage wb req)"
  unfolding BookingHandler_Index_def AuthHandler_Register_def AuthHandler_Login_def AuthHandler_Logout_def
    AuthHandler_Captcha_def AuthHandler_RegisterPage_def AuthHandler_LoginPage_def Let_def
  by (intro answer_rules)+

lemma group_handlers_answer [answer_rules]:
  "always (GroupHandler_Create wb req)" "always (GroupHandler_List wb req)" "always (GroupHandler_Get wb param req)"
  "always (GroupHandler_IndexHTML wb req)" "always (GroupHandler_DetailHTML wb param req)"
  "always (GroupBuyHandler_Get wb param req)" "always (GroupBuyHandler_List wb req)"
  "always (GroupBuyHandler_Progress wb param req)" "always (GroupBuyHandler_Participants wb param req)"
  "always (GroupBuyHandler_IndexHTML wb req)" "always (GroupBuyHandler_DetailHTML wb param req)"
  unfolding GroupHandler_Create_def GroupHandler_List_def GroupHandler_Get_def GroupHandler_IndexHTML_def
    GroupHandler_DetailHTML_def GroupBuyHandler_Get_def GroupBuyHandler_List_def GroupBuyHandler_Progress_def
    GroupBuyHandler_Participants_def GroupBuyHandler_IndexHTML_def GroupBuyHandler_DetailHTML_def Let_def
  by (intro answer_rules)+

lemma resource_handlers_answer [answer_rules]:
  "always (ResourceHandler_List wb req)" "always (ResourceHandler_Availability wb req)"
  "always (ResourceHandler_RemainingSeats wb param req)" "always (ResourceHandler_AvailabilityPage wb req)"
  "always (HealthHandler_Liveness wb req)" "always (HealthHandler_Readiness wb req)"
  unfolding ResourceHandler_List_def ResourceHandler_Availability_def ResourceHandler_RemainingSeats_def
    ResourceHandler_AvailabilityPage_def HealthHandler_Liveness_def HealthHandler_Readiness_def availability_on_def page_availability_def Let_def
  by (intro answer_rules)+

lemma analytics_handlers_answer [answer_rules]:
  "always (AnalyticsHandler_Track wb req)" "always (AnalyticsHandler_Top wb req)" "always (AnalyticsHandler_Trends wb req)"
  "always (AnalyticsHandler_Anomalies wb req)" "always (AnalyticsHandler_DashboardHTML wb req)"
  "always (GovernanceHandler_Dictionary wb req)" "always (GovernanceHandler_Tags wb req)"
  "always (GovernanceHandler_ImportResources wb req)" "always (NotificationHandler_AdminDeliveries wb req)"
  unfolding AnalyticsHandler_Track_def AnalyticsHandler_Top_def AnalyticsHandler_Trends_def
    AnalyticsHandler_Anomalies_def AnalyticsHandler_DashboardHTML_def GovernanceHandler_Dictionary_def
    GovernanceHandler_Tags_def GovernanceHandler_ImportResources_def NotificationHandler_AdminDeliveries_def Let_def
  by (intro answer_rules)+

lemma administration_answers [answer_rules]:
  "always (AdminHandler_WebhookCreate wb req)" "always (AdminHandler_WebhookList wb req)"
  "always (AdminHandler_WebhookDisable wb param req)" "always (AdminHandler_WebhookDeliveries wb req)"
  "always (AdminHandler_BackupFull wb req)" "always (AdminHandler_BackupIncremental wb req)"
  "always (AdminHandler_BackupList wb req)" "always (AdminHandler_BackupRestorePlan wb req)"
  unfolding AdminHandler_WebhookCreate_def AdminHandler_WebhookList_def AdminHandler_WebhookDisable_def
    AdminHandler_WebhookDeliveries_def AdminHandler_BackupFull_def AdminHandler_BackupIncremental_def
    AdminHandler_BackupList_def AdminHandler_BackupRestorePlan_def Let_def
  by (intro answer_rules)+

lemma export_answers [answer_rules]: "always (GovernanceHandler_ExportResources wb req)"
  unfolding GovernanceHandler_ExportResources_def
  by (rule answers_then, intro answer_rules) (simp add: answers_write as_attachment_def)

lemma succeeds_cache [answer_rules]:
  "succeeds (Cache_Get key)" "succeeds (Cache_Set ttl key v)" "succeeds Cache_Purge" "succeeds (Cache_Stats ttl)"
proof -
  have c: "succeeds (the_cache f)" "succeeds (set_cache g)" for f :: "(cache, backup_file) server \<Rightarrow> 'x" and g
    by (simp_all add: succeeds_def the_cache_def set_cache_def)
  show "succeeds (Cache_Get key)" "succeeds (Cache_Set ttl key v)" "succeeds Cache_Purge" "succeeds (Cache_Stats ttl)"
    unfolding Cache_Get_def Cache_Set_def Cache_Purge_def Cache_Stats_def by (intro answer_rules c)+
qed

lemma cache_handlers_answer [answer_rules]:
  "always (AdminHandler_CacheStats wb req)" "always (AdminHandler_CachePurge wb req)"
  unfolding AdminHandler_CacheStats_def AdminHandler_CachePurge_def Let_def
  by (intro answer_rules)+

text \<open>Those that need a user.\<close>

lemma booking_handlers_answer [answer_rules]:
  assumes "rq_User req \<noteq> None"
  shows "always (BookingHandler_Create wb req)" "always (BookingHandler_ListMine wb req)"
    "always (BookingHandler_Get wb param req)" "always (BookingHandler_Transition wb param req)"
    "always (BookingHandler_NewPage wb req)" "always (AuthHandler_Me wb req)" "always (AuthHandler_ChangePassword wb req)"
    "always (GroupBuyHandler_Create wb req)" "always (GroupBuyHandler_Join wb param req)"
  unfolding BookingHandler_Create_def BookingHandler_ListMine_def BookingHandler_Get_def BookingHandler_Transition_def
    BookingHandler_NewPage_def AuthHandler_Me_def AuthHandler_ChangePassword_def GroupBuyHandler_Create_def
    GroupBuyHandler_Join_def Let_def
  by (intro answer_rules assms)+

lemma succeeds_histories [answer_rules]: "succeeds (load_histories ds)"
  by (induction ds) (auto intro!: answer_rules)

lemma document_handlers_answer [answer_rules]:
  assumes "rq_User req \<noteq> None"
  shows "always (DocumentHandler_Confirmation wb req)" "always (DocumentHandler_CheckinPass wb req)"
    "always (DocumentHandler_List wb req)" "always (DocumentHandler_Get wb param req)"
    "always (DocumentHandler_Content wb param req)" "always (DocumentHandler_CenterHTML wb req)"
  unfolding DocumentHandler_Confirmation_def DocumentHandler_CheckinPass_def DocumentHandler_List_def
    DocumentHandler_Get_def DocumentHandler_Content_def DocumentHandler_CenterHTML_def generating_def serve_revision_def content_response_def Let_def
  by (intro answer_rules assms; simp add: good_status_def)+

lemma notification_handlers_answer [answer_rules]:
  assumes "rq_User req \<noteq> None"
  shows "always (NotificationHandler_List wb req)" "always (NotificationHandler_MarkRead wb param req)"
    "always (NotificationHandler_UnreadCount wb req)" "always (NotificationHandler_CreateTodo wb req)"
    "always (NotificationHandler_ListTodos wb req)" "always (NotificationHandler_UpdateTodoStatus wb param req)"
    "always (NotificationHandler_CenterHTML wb req)"
  unfolding NotificationHandler_List_def NotificationHandler_MarkRead_def NotificationHandler_UnreadCount_def
    NotificationHandler_CreateTodo_def NotificationHandler_ListTodos_def NotificationHandler_UpdateTodoStatus_def
    NotificationHandler_CenterHTML_def Let_def
  by (intro answer_rules assms)+

lemma governance_handlers_answer [answer_rules]:
  assumes "rq_User req \<noteq> None"
  shows "always (GovernanceHandler_GrantConsent wb req)" "always (GovernanceHandler_WithdrawConsent wb req)"
    "always (GovernanceHandler_ListConsent wb req)" "always (GovernanceHandler_RequestDeletion wb req)"
    "always (GovernanceHandler_CancelDeletion wb req)"
  unfolding GovernanceHandler_GrantConsent_def GovernanceHandler_WithdrawConsent_def GovernanceHandler_ListConsent_def
    GovernanceHandler_RequestDeletion_def GovernanceHandler_CancelDeletion_def Let_def
  by (intro answer_rules assms)+

end
