(* ===== verification/Invariants.thy ===== *)
theory Invariants
  imports Answers Booking_Service Group_Buy_Races Auth_Service Idempotency Documents Governance Webhooks Group_Reservations Backups
begin

text \<open>
  The invariants of the components, together. Each is about one or two tables; an action of another
  component leaves those tables alone, which its definition shows. This theory has the invariant of a
  sound seat ledger (of which \<open>ledger_inv\<close> is the case that no account was deleted), the frames of
  all invariants, and that every operation the server calls preserves all of them, whatever statements
  fail.
\<close>

section \<open>Seats of group buys when accounts go\<close>

text \<open>
  Deleting a participant's account leaves the seats taken, so the participants account for at most the
  seats given out.
\<close>

definition seats_row :: "group_buy_participant list \<Rightarrow> group_buy \<Rightarrow> bool" where
  "seats_row ps g \<longleftrightarrow> 0 \<le> gb_RemainingSlots g \<and> gb_RemainingSlots g \<le> gb_Capacity g \<and>
     (gb_Status g \<noteq> GroupBuyFailed \<longrightarrow> seats_of (gb_ID g) ps \<le> Confirmed g)"

definition seats_inv :: "db \<Rightarrow> bool" where
  "seats_inv d \<longleftrightarrow> distinct_keys gb_ID (group_buys d) \<and>
     (\<forall>p \<in> set (participants d). 0 < p_Quantity p \<and> p_GroupBuyID p \<in> gb_ID ` set (group_buys d)) \<and>
     (\<forall>g \<in> set (group_buys d). seats_row (participants d) g)"

lemma ledger_is_seats: "ledger_inv d \<Longrightarrow> seats_inv d"
  by (auto simp: ledger_inv_def seats_inv_def ledger_row_def seats_row_def split: if_splits)

section \<open>Stored answers\<close>

text \<open>A finished idempotency key holds an answer that a handler gave.\<close>

definition stored_ok :: "db \<Rightarrow> bool" where
  "stored_ok d \<longleftrightarrow> (\<forall>r \<in> set (idempotency_keys d).
     i_Status r = IdempotencyStatusCompleted \<longrightarrow> (\<exists>s. i_StatusCode r = Some s \<and> good_status s))"

definition keys_ok :: "db \<Rightarrow> bool" where
  "keys_ok d \<longleftrightarrow> idem_unique d \<and> stored_ok d"

section \<open>Frames\<close>

lemma booking_inv_frames [simp]:
  "booking_inv cap (d\<lparr>users := x0\<rparr>) = booking_inv cap d" "booking_inv cap (d\<lparr>sessions := x1\<rparr>) = booking_inv cap d"
  "booking_inv cap (d\<lparr>captchas := x2\<rparr>) = booking_inv cap d"
  "booking_inv cap (d\<lparr>group_reservations := x4\<rparr>) = booking_inv cap d"
  "booking_inv cap (d\<lparr>group_buys := x6\<rparr>) = booking_inv cap d"
  "booking_inv cap (d\<lparr>participants := x7\<rparr>) = booking_inv cap d"
  "booking_inv cap (d\<lparr>idempotency_keys := x8\<rparr>) = booking_inv cap d"
  "booking_inv cap (d\<lparr>documents := x9\<rparr>) = booking_inv cap d" "booking_inv cap (d\<lparr>revisions := x10\<rparr>) = booking_inv cap d"
  "booking_inv cap (d\<lparr>notifications := x11\<rparr>) = booking_inv cap d" "booking_inv cap (d\<lparr>todos := x12\<rparr>) = booking_inv cap d"
  "booking_inv cap (d\<lparr>notification_deliveries := x13\<rparr>) = booking_inv cap d"
  "booking_inv cap (d\<lparr>analytics_events := x14\<rparr>) = booking_inv cap d"
  "booking_inv cap (d\<lparr>analytics_hourly_rows := x15\<rparr>) = booking_inv cap d"
  "booking_inv cap (d\<lparr>anomaly_alerts := x16\<rparr>) = booking_inv cap d"
  "booking_inv cap (d\<lparr>data_dictionary := x17\<rparr>) = booking_inv cap d" "booking_inv cap (d\<lparr>tags := x18\<rparr>) = booking_inv cap d"
  "booking_inv cap (d\<lparr>taggings := x19\<rparr>) = booking_inv cap d"
  "booking_inv cap (d\<lparr>consent_records := x20\<rparr>) = booking_inv cap d"
  "booking_inv cap (d\<lparr>deletion_requests := x21\<rparr>) = booking_inv cap d"
  "booking_inv cap (d\<lparr>webhooks := x22\<rparr>) = booking_inv cap d"
  "booking_inv cap (d\<lparr>webhook_deliveries := x23\<rparr>) = booking_inv cap d"
  "booking_inv cap (d\<lparr>backups := x24\<rparr>) = booking_inv cap d"
  by (simp_all add: booking_inv_def rows_ok_def seats_safe_def daily_cap_def no_double_booking_def)

lemma lockout_inv_frames [simp]:
  "lockout_inv cfg (d\<lparr>sessions := x1\<rparr>) = lockout_inv cfg d" "lockout_inv cfg (d\<lparr>captchas := x2\<rparr>) = lockout_inv cfg d"
  "lockout_inv cfg (d\<lparr>resources := x3\<rparr>) = lockout_inv cfg d"
  "lockout_inv cfg (d\<lparr>group_reservations := x4\<rparr>) = lockout_inv cfg d"
  "lockout_inv cfg (d\<lparr>bookings := x5\<rparr>) = lockout_inv cfg d" "lockout_inv cfg (d\<lparr>group_buys := x6\<rparr>) = lockout_inv cfg d"
  "lockout_inv cfg (d\<lparr>participants := x7\<rparr>) = lockout_inv cfg d"
  "lockout_inv cfg (d\<lparr>idempotency_keys := x8\<rparr>) = lockout_inv cfg d"
  "lockout_inv cfg (d\<lparr>documents := x9\<rparr>) = lockout_inv cfg d" "lockout_inv cfg (d\<lparr>revisions := x10\<rparr>) = lockout_inv cfg d"
  "lockout_inv cfg (d\<lparr>notifications := x11\<rparr>) = lockout_inv cfg d" "lockout_inv cfg (d\<lparr>todos := x12\<rparr>) = lockout_inv cfg d"
  "lockout_inv cfg (d\<lparr>notification_deliveries := x13\<rparr>) = lockout_inv cfg d"
  "lockout_inv cfg (d\<lparr>analytics_events := x14\<rparr>) = lockout_inv cfg d"
  "lockout_inv cfg (d\<lparr>analytics_hourly_rows := x15\<rparr>) = lockout_inv cfg d"
  "lockout_inv cfg (d\<lparr>anomaly_alerts := x16\<rparr>) = lockout_inv cfg d"
  "lockout_inv cfg (d\<lparr>data_dictionary := x17\<rparr>) = lockout_inv cfg d" "lockout_inv cfg (d\<lparr>tags := x18\<rparr>) = lockout_inv cfg d"
  "lockout_inv cfg (d\<lparr>taggings := x19\<rparr>) = lockout_inv cfg d"
  "lockout_inv cfg (d\<lparr>consent_records := x20\<rparr>) = lockout_inv cfg d"
  "lockout_inv cfg (d\<lparr>deletion_requests := x21\<rparr>) = lockout_inv cfg d"
  "lockout_inv cfg (d\<lparr>webhooks := x22\<rparr>) = lockout_inv cfg d"
  "lockout_inv cfg (d\<lparr>webhook_deliveries := x23\<rparr>) = lockout_inv cfg d"
  "lockout_inv cfg (d\<lparr>backups := x24\<rparr>) = lockout_inv cfg d"
  by (simp_all add: lockout_inv_def)

lemma documents_inv_frames [simp]:
  "documents_inv (d\<lparr>users := x0\<rparr>) = documents_inv d" "documents_inv (d\<lparr>sessions := x1\<rparr>) = documents_inv d"
  "documents_inv (d\<lparr>captchas := x2\<rparr>) = documents_inv d" "documents_inv (d\<lparr>resources := x3\<rparr>) = documents_inv d"
  "documents_inv (d\<lparr>group_reservations := x4\<rparr>) = documents_inv d" "documents_inv (d\<lparr>bookings := x5\<rparr>) = documents_inv d"
  "documents_inv (d\<lparr>group_buys := x6\<rparr>) = documents_inv d" "documents_inv (d\<lparr>participants := x7\<rparr>) = documents_inv d"
  "documents_inv (d\<lparr>idempotency_keys := x8\<rparr>) = documents_inv d"
  "documents_inv (d\<lparr>notifications := x11\<rparr>) = documents_inv d" "documents_inv (d\<lparr>todos := x12\<rparr>) = documents_inv d"
  "documents_inv (d\<lparr>notification_deliveries := x13\<rparr>) = documents_inv d"
  "documents_inv (d\<lparr>analytics_events := x14\<rparr>) = documents_inv d"
  "documents_inv (d\<lparr>analytics_hourly_rows := x15\<rparr>) = documents_inv d"
  "documents_inv (d\<lparr>anomaly_alerts := x16\<rparr>) = documents_inv d"
  "documents_inv (d\<lparr>data_dictionary := x17\<rparr>) = documents_inv d" "documents_inv (d\<lparr>tags := x18\<rparr>) = documents_inv d"
  "documents_inv (d\<lparr>taggings := x19\<rparr>) = documents_inv d" "documents_inv (d\<lparr>consent_records := x20\<rparr>) = documents_inv d"
  "documents_inv (d\<lparr>deletion_requests := x21\<rparr>) = documents_inv d" "documents_inv (d\<lparr>webhooks := x22\<rparr>) = documents_inv d"
  "documents_inv (d\<lparr>webhook_deliveries := x23\<rparr>) = documents_inv d" "documents_inv (d\<lparr>backups := x24\<rparr>) = documents_inv d"
  by (simp_all add: documents_inv_def)

lemma keys_ok_frames [simp]:
  "keys_ok (d\<lparr>users := x0\<rparr>) = keys_ok d" "keys_ok (d\<lparr>sessions := x1\<rparr>) = keys_ok d"
  "keys_ok (d\<lparr>captchas := x2\<rparr>) = keys_ok d" "keys_ok (d\<lparr>resources := x3\<rparr>) = keys_ok d"
  "keys_ok (d\<lparr>group_reservations := x4\<rparr>) = keys_ok d" "keys_ok (d\<lparr>bookings := x5\<rparr>) = keys_ok d"
  "keys_ok (d\<lparr>group_buys := x6\<rparr>) = keys_ok d" "keys_ok (d\<lparr>participants := x7\<rparr>) = keys_ok d"
  "keys_ok (d\<lparr>documents := x9\<rparr>) = keys_ok d" "keys_ok (d\<lparr>revisions := x10\<rparr>) = keys_ok d"
  "keys_ok (d\<lparr>notifications := x11\<rparr>) = keys_ok d" "keys_ok (d\<lparr>todos := x12\<rparr>) = keys_ok d"
  "keys_ok (d\<lparr>notification_deliveries := x13\<rparr>) = keys_ok d"
  "keys_ok (d\<lparr>analytics_events := x14\<rparr>) = keys_ok d"
  "keys_ok (d\<lparr>analytics_hourly_rows := x15\<rparr>) = keys_ok d" "keys_ok (d\<lparr>anomaly_alerts := x16\<rparr>) = keys_ok d"
  "keys_ok (d\<lparr>data_dictionary := x17\<rparr>) = keys_ok d" "keys_ok (d\<lparr>tags := x18\<rparr>) = keys_ok d"
  "keys_ok (d\<lparr>taggings := x19\<rparr>) = keys_ok d" "keys_ok (d\<lparr>consent_records := x20\<rparr>) = keys_ok d"
  "keys_ok (d\<lparr>deletion_requests := x21\<rparr>) = keys_ok d" "keys_ok (d\<lparr>webhooks := x22\<rparr>) = keys_ok d"
  "keys_ok (d\<lparr>webhook_deliveries := x23\<rparr>) = keys_ok d" "keys_ok (d\<lparr>backups := x24\<rparr>) = keys_ok d"
  by (simp_all add: keys_ok_def idem_unique_def stored_ok_def)

lemma deliveries_ok_frames [simp]:
  "deliveries_ok (d\<lparr>users := x0\<rparr>) = deliveries_ok d" "deliveries_ok (d\<lparr>sessions := x1\<rparr>) = deliveries_ok d"
  "deliveries_ok (d\<lparr>captchas := x2\<rparr>) = deliveries_ok d" "deliveries_ok (d\<lparr>resources := x3\<rparr>) = deliveries_ok d"
  "deliveries_ok (d\<lparr>group_reservations := x4\<rparr>) = deliveries_ok d" "deliveries_ok (d\<lparr>bookings := x5\<rparr>) = deliveries_ok d"
  "deliveries_ok (d\<lparr>group_buys := x6\<rparr>) = deliveries_ok d" "deliveries_ok (d\<lparr>participants := x7\<rparr>) = deliveries_ok d"
  "deliveries_ok (d\<lparr>idempotency_keys := x8\<rparr>) = deliveries_ok d" "deliveries_ok (d\<lparr>documents := x9\<rparr>) = deliveries_ok d"
  "deliveries_ok (d\<lparr>revisions := x10\<rparr>) = deliveries_ok d" "deliveries_ok (d\<lparr>notifications := x11\<rparr>) = deliveries_ok d"
  "deliveries_ok (d\<lparr>todos := x12\<rparr>) = deliveries_ok d"
  "deliveries_ok (d\<lparr>notification_deliveries := x13\<rparr>) = deliveries_ok d"
  "deliveries_ok (d\<lparr>analytics_events := x14\<rparr>) = deliveries_ok d"
  "deliveries_ok (d\<lparr>analytics_hourly_rows := x15\<rparr>) = deliveries_ok d"
  "deliveries_ok (d\<lparr>anomaly_alerts := x16\<rparr>) = deliveries_ok d"
  "deliveries_ok (d\<lparr>data_dictionary := x17\<rparr>) = deliveries_ok d" "deliveries_ok (d\<lparr>tags := x18\<rparr>) = deliveries_ok d"
  "deliveries_ok (d\<lparr>taggings := x19\<rparr>) = deliveries_ok d" "deliveries_ok (d\<lparr>consent_records := x20\<rparr>) = deliveries_ok d"
  "deliveries_ok (d\<lparr>deletion_requests := x21\<rparr>) = deliveries_ok d" "deliveries_ok (d\<lparr>webhooks := x22\<rparr>) = deliveries_ok d"
  "deliveries_ok (d\<lparr>backups := x24\<rparr>) = deliveries_ok d"
  by (simp_all add: deliveries_ok_def)

lemma seats_inv_frames [simp]:
  "seats_inv (d\<lparr>users := x0\<rparr>) = seats_inv d" "seats_inv (d\<lparr>sessions := x1\<rparr>) = seats_inv d"
  "seats_inv (d\<lparr>captchas := x2\<rparr>) = seats_inv d" "seats_inv (d\<lparr>resources := x3\<rparr>) = seats_inv d"
  "seats_inv (d\<lparr>group_reservations := x4\<rparr>) = seats_inv d" "seats_inv (d\<lparr>bookings := x5\<rparr>) = seats_inv d"
  "seats_inv (d\<lparr>idempotency_keys := x8\<rparr>) = seats_inv d" "seats_inv (d\<lparr>documents := x9\<rparr>) = seats_inv d"
  "seats_inv (d\<lparr>revisions := x10\<rparr>) = seats_inv d" "seats_inv (d\<lparr>notifications := x11\<rparr>) = seats_inv d"
  "seats_inv (d\<lparr>todos := x12\<rparr>) = seats_inv d" "seats_inv (d\<lparr>notification_deliveries := x13\<rparr>) = seats_inv d"
  "seats_inv (d\<lparr>analytics_events := x14\<rparr>) = seats_inv d" "seats_inv (d\<lparr>analytics_hourly_rows := x15\<rparr>) = seats_inv d"
  "seats_inv (d\<lparr>anomaly_alerts := x16\<rparr>) = seats_inv d" "seats_inv (d\<lparr>data_dictionary := x17\<rparr>) = seats_inv d"
  "seats_inv (d\<lparr>tags := x18\<rparr>) = seats_inv d" "seats_inv (d\<lparr>taggings := x19\<rparr>) = seats_inv d"
  "seats_inv (d\<lparr>consent_records := x20\<rparr>) = seats_inv d" "seats_inv (d\<lparr>deletion_requests := x21\<rparr>) = seats_inv d"
  "seats_inv (d\<lparr>webhooks := x22\<rparr>) = seats_inv d" "seats_inv (d\<lparr>webhook_deliveries := x23\<rparr>) = seats_inv d"
  "seats_inv (d\<lparr>backups := x24\<rparr>) = seats_inv d"
  by (simp_all add: seats_inv_def)


section \<open>Seats\<close>

lemma seats_update:
  assumes "seats_inv d" and "\<And>g. p g \<Longrightarrow> gb_ID (f g) = gb_ID g"
    and "\<And>g. g \<in> set (group_buys d) \<Longrightarrow> p g \<Longrightarrow> seats_row (participants d) (f g)"
  shows "seats_inv (d\<lparr>group_buys := update_where p f (group_buys d)\<rparr>)"
  using assms by (auto simp: seats_inv_def distinct_keys_update keys_update ball_update_where)

lemma seats_view: "gb_view d' = gb_view d \<Longrightarrow> seats_inv d' = seats_inv d"
  by (simp add: seats_inv_def gb_view_def)

lemma seats_tables:
  "group_buys d' = gs \<Longrightarrow> participants d' = participants d \<Longrightarrow> seats_inv (d\<lparr>group_buys := gs\<rparr>) \<Longrightarrow> seats_inv d'"
  by (simp add: seats_inv_def)

lemma seats_JoinAtomic [store_rules]: "preserves seats_inv (groupbuys_JoinAtomic i u q)"
proof (rule all_or_nothing_preserves [OF JoinAtomic_all_or_nothing])
  fix w and x :: "group_buy \<times> group_buy_participant" and w'
  assume "groupbuys_JoinAtomic i u q w = (Inr x, w')" and inv: "seats_inv (store w)"
  moreover obtain g' p where "x = (g', p)" by (cases x)
  ultimately have run: "groupbuys_JoinAtomic i u q w = (Inr (g', p), w')" by simp
  obtain g n t' x where
    g: "row_by gb_ID i (group_buys (store w)) = Some g" "joinable (gb_Status g)" "clock w n < gb_Deadline g"
      "join_quantity q \<le> gb_RemainingSlots g" and
    p: "participant_unique (store w) p" "p_GroupBuyID p = i" "p_UserID p = u" "p_Quantity p = join_quantity q" and
    st: "store w' = joined i (join_quantity q) (gb_Version g) t' p (store w)" and
    x: "x \<in> set (group_buys (store w))" "slots_free i (join_quantity q) (gb_Version g) x"
      "g' = take_slots (join_quantity q) t' x"
    using JoinAtomic_returns [OF run] by blast
  let ?q = "join_quantity q" and ?d = "store w"
  have keys: "distinct_keys gb_ID (group_buys ?d)" using inv by (simp add: seats_inv_def)
  have only: "y = g" if "y \<in> set (group_buys ?d)" "gb_ID y = i" for y
    using g(1) keys that by (auto simp: row_by_eq_iff dest: distinct_keys_inj)
  have pos: "0 < ?q" by (simp add: join_quantity_def)
  let ?f = "\<lambda>x. if slots_free i ?q (gb_Version g) x then take_slots ?q t' x else x"
  have row: "seats_row (participants ?d @ [p]) (?f y)" if y: "y \<in> set (group_buys ?d)" for y
  proof (cases "gb_ID y = i")
    case True
    then have "y = g" using only y by simp
    moreover have "seats_row (participants ?d) y" using inv y by (simp add: seats_inv_def)
    moreover have "gb_Status g \<noteq> GroupBuyFailed" using g(2) by (auto simp: joinable_def)
    moreover have "slots_free i ?q (gb_Version g) g" using True \<open>y = g\<close> g(4) by (simp add: slots_free_def)
    ultimately show ?thesis using p True pos g(4) by (auto simp: seats_row_def Confirmed_def)
  next
    case False
    then have "\<not> slots_free i ?q (gb_Version g) y" "seats_row (participants ?d) y"
      using inv y by (auto simp: slots_free_def seats_inv_def)
    then show ?thesis using False p by (simp add: seats_row_def)
  qed
  have ids: "gb_ID ` set (update_where (slots_free i ?q (gb_Version g)) (take_slots ?q t') (group_buys ?d)) = gb_ID ` set (group_buys ?d)"
    by (rule keys_update) simp
  have "i \<in> gb_ID ` set (group_buys ?d)" using x by (auto simp: slots_free_def)
  then show "seats_inv (store w')"
    using inv row p pos unfolding st
    by (simp add: seats_inv_def joined_def ids distinct_keys_update ball_update_where)
qed

text \<open>The sweep works on group buys that had not failed when it listed them.\<close>

lemma sweep_one_seats:
  assumes "sweep_one pr g w = (r, w')" and inv: "seats_inv (store w)" and nf: "not_failed (gb_ID g) (store w)"
  shows "seats_inv (store w')"
  using assms(1)
proof (cases rule: sweep_one_cases)
  case idle
  show ?thesis using inv by (simp add: seats_view [OF idle])
next
  case (failed t)
  show ?thesis
    by (rule seats_tables [OF failed(2,1)], rule seats_update [OF inv])
      (use inv in \<open>auto simp: release_slots_def seats_row_def seats_inv_def\<close>)
next
  case (closed st t)
  show ?thesis
    by (rule seats_tables [OF closed(3,1)], rule seats_update [OF inv])
      (use inv nf in \<open>auto simp: seats_row_def seats_inv_def not_failed_def Confirmed_def\<close>)
qed

lemma sweep_loop_seats:
  assumes "distinct (map gb_ID gs)" "\<forall>g \<in> set gs. not_failed (gb_ID g) (store w)" "seats_inv (store w)"
    and "for_each (sweep_one pr) gs w = (r, w')"
  shows "seats_inv (store w')"
  using assms
proof (induction gs arbitrary: w)
  case (Cons g gs)
  obtain r1 w1 where one: "sweep_one pr g w = (r1, w1)" and rest: "for_each (sweep_one pr) gs w1 = (r, w')"
    using Cons.prems(4) by (auto simp: ignoring_returns)
  have "seats_inv (store w1)" using sweep_one_seats [OF one] Cons.prems by simp
  moreover have "\<forall>h \<in> set gs. not_failed (gb_ID h) (store w1)"
    using sweep_one_others [OF one] Cons.prems(1,2) by (auto simp: image_iff)
  ultimately show ?case using Cons.IH [OF _ _ _ rest] Cons.prems(1) by simp
qed (simp add: ret_returns)

lemma SweepExpired_seats [store_rules]: "preserves seats_inv (GroupBuyService_SweepExpired pr)"
proof (rule preservesI)
  fix w r w'
  assume run: "GroupBuyService_SweepExpired pr w = (r, w')" and inv: "seats_inv (store w)"
  obtain r1 w1 where list: "groupbuys_ListExpiringBefore (clock w (readings w)) (w\<lparr>readings := Suc (readings w)\<rparr>) = (r1, w1)"
    by fastforce
  have st: "store w1 = store w" using readonlyD [OF groupbuys_reads_readonly(3) list] by simp
  show "seats_inv (store w')"
  proof (cases r1)
    case (Inl e)
    then show ?thesis using run list st inv by (simp add: GroupBuyService_SweepExpired_def bindE_def now_def)
  next
    case (Inr gs)
    then have loop: "for_each (sweep_one pr) gs w1 = (r, w')"
      using run list by (simp add: GroupBuyService_SweepExpired_def bindE_def now_def)
    have gs: "set gs \<subseteq> {g \<in> set (group_buys (store w)). gb_Status g \<in> {GroupBuyOpen, GroupBuyMet}} \<and> distinct (map gb_ID gs)"
      using list Inr inv by (auto simp: groupbuys_ListExpiringBefore_def query_returns expiring_def seats_inv_def distinct_keys_def
        distinct_map_filter)
    have "not_failed (gb_ID g) (store w1)" if "g \<in> set gs" for g
      unfolding not_failed_def st
    proof (intro ballI impI)
      fix h
      assume h: "h \<in> set (group_buys (store w))" "gb_ID h = gb_ID g"
      have g: "g \<in> set (group_buys (store w))" "gb_Status g \<in> {GroupBuyOpen, GroupBuyMet}" using gs that by auto
      have "h = g" by (rule distinct_keys_inj [of gb_ID "group_buys (store w)"]) (use inv h g in \<open>simp_all add: seats_inv_def\<close>)
      then show "gb_Status h \<noteq> GroupBuyFailed" using g(2) by auto
    qed
    then show ?thesis using sweep_loop_seats [OF conjunct2 [OF gs] _ _ loop] inv st by simp
  qed
qed

lemma GroupBuyCreate_seats [store_rules]: "preserves seats_inv (GroupBuyService_Create inp)"
proof (rule preservesI)
  fix w r w'
  assume run: "GroupBuyService_Create inp w = (r, w')" and inv: "seats_inv (store w)"
  from Create_tables [OF run] show "seats_inv (store w')"
  proof (elim disjE exE conjE)
    fix g
    assume rows: "group_buys (store w') = group_buys (store w) @ [g]" "participants (store w') = participants (store w)"
      and g: "gb_RemainingSlots g = gb_Capacity g" "group_buy_insertable (store w) g"
    have new: "gb_ID g \<notin> gb_ID ` set (group_buys (store w))"
      using g(2) by (simp add: group_buy_insertable_def fresh_key_def)
    then have "p_GroupBuyID p \<noteq> gb_ID g" if "p \<in> set (participants (store w))" for p
      using inv that unfolding seats_inv_def by metis
    then have "seats_of (gb_ID g) (participants (store w)) = 0"
      unfolding seats_of_def by (intro sum_where_none) auto
    then show ?thesis
      using inv g new rows
      by (auto simp: seats_inv_def distinct_keys_append group_buy_insertable_def fresh_key_iff seats_row_def Confirmed_def)
  qed (simp add: inv)
qed

section \<open>Every operation leaves the tables of the others alone\<close>

text \<open>
  \<open>leaves erase m\<close>: the action \<open>m\<close> changes nothing of the database but the tables that \<open>erase\<close> empties.
  An invariant that does not look at those tables is kept.
\<close>

definition leaves :: "(db \<Rightarrow> db) \<Rightarrow> 'a action \<Rightarrow> bool" where
  "leaves erase m \<longleftrightarrow> (\<forall>c. preserves (\<lambda>d. erase d = c) m)"

lemma leavesI: "(\<And>c. preserves (\<lambda>d. erase d = c) m) \<Longrightarrow> leaves erase m"
  by (simp add: leaves_def)

lemma leavesD:
  assumes "leaves erase m" and "\<And>d. I (erase d) = I d"
  shows "preserves I m"
proof (rule preservesI)
  fix w r w'
  assume run: "m w = (r, w')" and I: "I (store w)"
  have "preserves (\<lambda>d. erase d = erase (store w)) m" using assms(1) by (simp add: leaves_def)
  from preservesD [OF this run] have "erase (store w') = erase (store w)" by simp
  then show "I (store w')" using assms(2) I by metis
qed

definition no_accounts :: "db \<Rightarrow> db" where
  "no_accounts d = d\<lparr>users := [], sessions := [], captchas := []\<rparr>"

definition no_bookings :: "db \<Rightarrow> db" where
  "no_bookings d = d\<lparr>bookings := [], resources := []\<rparr>"

definition no_group_buys :: "db \<Rightarrow> db" where
  "no_group_buys d = d\<lparr>group_buys := [], participants := [], notifications := []\<rparr>"

definition no_documents :: "db \<Rightarrow> db" where
  "no_documents d = d\<lparr>documents := [], revisions := []\<rparr>"

definition no_deliveries :: "db \<Rightarrow> db" where
  "no_deliveries d = d\<lparr>webhook_deliveries := []\<rparr>"

definition no_idempotency :: "db \<Rightarrow> db" where
  "no_idempotency d = d\<lparr>idempotency_keys := []\<rparr>"

text \<open>The tables no invariant is about.\<close>

definition no_records :: "db \<Rightarrow> db" where
  "no_records d = d\<lparr>group_reservations := [], notifications := [], todos := [], notification_deliveries := [],
     analytics_events := [], analytics_hourly_rows := [], anomaly_alerts := [], consent_records := [],
     deletion_requests := [], webhooks := [], backups := []\<rparr>"

lemmas erase_defs = no_accounts_def no_bookings_def no_group_buys_def no_documents_def no_deliveries_def no_idempotency_def
  no_records_def

lemma account_writes_leave [store_rules]:
  "preserves (\<lambda>d. no_accounts d = c) (users_Create u)" "preserves (\<lambda>d. no_accounts d = c) (users_SetAdmin i b)"
  "preserves (\<lambda>d. no_accounts d = c) (users_RecordFailedLogin i l)" "preserves (\<lambda>d. no_accounts d = c) (users_ResetFailedLogin i t)"
  "preserves (\<lambda>d. no_accounts d = c) (users_UpdatePasswordHash i h)" "preserves (\<lambda>d. no_accounts d = c) (sessions_Create s)"
  "preserves (\<lambda>d. no_accounts d = c) (sessions_Touch k t e)" "preserves (\<lambda>d. no_accounts d = c) (sessions_Delete k)"
  "preserves (\<lambda>d. no_accounts d = c) (captchas_Create x)" "preserves (\<lambda>d. no_accounts d = c) (captchas_Consume k)"
  unfolding account_writes users_Create_def captchas_Create_def Let_def
  by (intro store_rules preserves_sql; auto simp: no_accounts_def split: if_splits)+

lemma auth_leaves:
  "leaves no_accounts (AuthService_Register env cfg name pw)" "leaves no_accounts (AuthService_Login env cfg inp)"
  "leaves no_accounts (AuthService_ChangePassword env cfg i old new)" "leaves no_accounts (AuthService_IssueCaptcha cfg)"
  "leaves no_accounts (AuthService_ResolveSession cfg k)" "leaves no_accounts (AuthService_Logout k)"
  unfolding AuthService_Register_def AuthService_Login_def captcha_gate_def AuthService_verifyCaptcha_def
    wrong_password_def open_session_def AuthService_ChangePassword_def AuthService_IssueCaptcha_def
    AuthService_ResolveSession_def AuthService_Logout_def Let_def
  by (intro leavesI store_rules)+

lemma booking_leaves:
  "leaves no_bookings (BookingService_Create s inp)" "leaves no_bookings (BookingService_Transition s a i st)"
  "leaves no_bookings (resources_InsertManyTx rows)"
proof -
  show "leaves no_bookings (BookingService_Create s inp)"
    unfolding BookingService_Create_def bookings_Create_def BookingService_admit_def seal_notes_def Let_def
    by (intro leavesI store_rules preserves_sql readonly_preserves) (auto simp: no_bookings_def split: if_splits)
  show "leaves no_bookings (BookingService_Transition s a i st)"
    unfolding BookingService_Transition_def promotion_check_def bookings_UpdateStatus_def Let_def
    by (intro leavesI store_rules preserves_sql readonly_preserves) (auto simp: no_bookings_def split: if_splits booking_status.splits)
  show "leaves no_bookings (resources_InsertManyTx rows)"
    by (rule leavesI, rule preserves_resource_inserts) (simp add: no_bookings_def)
qed

lemma group_buy_leaves:
  "leaves no_group_buys (GroupBuyService_Create inp)" "leaves no_group_buys (GroupBuyService_Join pr i u q)"
  "leaves no_group_buys (GroupBuyService_SweepExpired pr)"
proof -
  show "leaves no_group_buys (GroupBuyService_Create inp)"
    unfolding GroupBuyService_Create_def groupbuys_Create_def Let_def
    by (intro leavesI store_rules preserves_sql readonly_preserves) (auto simp: no_group_buys_def split: if_splits)
  have join: "leaves no_group_buys (groupbuys_JoinAtomic i u q)" for i u q
    unfolding groupbuys_JoinAtomic_def join_read_def join_write_def join_decrement_def participant_insert_def Let_def
    by (intro leavesI store_rules preserves_sql readonly_preserves) (auto simp: no_group_buys_def split: if_splits option.splits)
  have notify: "leaves no_group_buys (notifications_CreateNotification n)" for n
    unfolding notifications_CreateNotification_def Let_def
    by (intro leavesI store_rules preserves_sql) (auto simp: no_group_buys_def split: if_splits)
  have "leaves no_group_buys (join_loop groupbuys_JoinAtomic pr i u q k)" for k
  proof (induction k)
    case (Suc k)
    then show ?case
      using join notify unfolding leaves_def join_loop.simps notifyOrganizerProgress_def
      by (intro allI store_rules) auto
  qed (simp add: leaves_def store_rules)
  then show "leaves no_group_buys (GroupBuyService_Join pr i u q)"
    unfolding leaves_def GroupBuyService_Join_def by (intro allI store_rules) auto
  have "leaves no_group_buys (sweep_one pr g)" for g
    using notify unfolding leaves_def sweep_one_def groupbuys_MarkFailedAndReleaseSlots_def groupbuys_UpdateStatus_def Let_def
    by (intro allI store_rules preserves_sql) (auto simp: no_group_buys_def split: if_splits)
  then show "leaves no_group_buys (GroupBuyService_SweepExpired pr)"
    unfolding leaves_def GroupBuyService_SweepExpired_def by (intro allI store_rules readonly_preserves [OF groupbuys_reads_readonly(3)] preserves_for_each) auto
qed

lemma document_leaves:
  "leaves no_documents (GenerateConfirmation u rt ri title kvs)" "leaves no_documents (GenerateCheckinPass rasterise u rt ri title kvs)"
proof -
  have "leaves no_documents (upsertDocument u rt ri dt title c ct)" for dt c ct
    unfolding upsertDocument_def documents_AppendRevision_def documents_Create_def insert_document_def insert_revision_def
      supersede_def bump_revision_def Let_def
    by (intro leavesI store_rules preserves_sql readonly_preserves) (auto simp: no_documents_def split: if_splits)
  then show "leaves no_documents (GenerateConfirmation u rt ri title kvs)" "leaves no_documents (GenerateCheckinPass rasterise u rt ri title kvs)"
    unfolding leaves_def GenerateConfirmation_def GenerateCheckinPass_def Let_def by (intro allI store_rules; simp)+
qed

lemma idempotency_leaves:
  "leaves no_idempotency (idem_Reserve u k h ttl)" "leaves no_idempotency (idem_Complete u k st b ct)"
  "leaves no_idempotency (idem_ReleasePending u k)"
  unfolding idem_Reserve_def idem_claim_def idem_inspect_def idem_getScoped_def idem_Complete_def idem_ReleasePending_def
  by (intro leavesI store_rules preserves_sql; auto simp: no_idempotency_def split: option.splits if_splits)+

text \<open>The other writes touch tables no invariant is about.\<close>

lemma record_writes_leave [store_rules]:
  "preserves (\<lambda>d. no_records d = c) (analytics_RecordEvent e)" "preserves (\<lambda>d. no_records d = c) (analytics_UpsertHourly h)"
  "preserves (\<lambda>d. no_records d = c) (analytics_InsertAnomaly a)" "preserves (\<lambda>d. no_records d = c) (analytics_AnonymiseUserEvents s)"
  "preserves (\<lambda>d. no_records d = c) (governance_UpsertConsent k)" "preserves (\<lambda>d. no_records d = c) (governance_CreateDeletionRequest q)"
  "preserves (\<lambda>d. no_records d = c) (governance_CancelDeletion u)" "preserves (\<lambda>d. no_records d = c) (groups_Create g)"
  "preserves (\<lambda>d. no_records d = c) (webhooks_Create hk)" "preserves (\<lambda>d. no_records d = c) (webhooks_Disable i)"
  "preserves (\<lambda>d. no_records d = c) (backups_Insert b)" "preserves (\<lambda>d. no_records d = c) (notifications_CreateNotification n)"
  "preserves (\<lambda>d. no_records d = c) (notifications_MarkRead u i)" "preserves (\<lambda>d. no_records d = c) (notifications_CreateTodo js t)"
  "preserves (\<lambda>d. no_records d = c) (notifications_UpdateTodoStatus u i st)"
  unfolding analytics_RecordEvent_def analytics_UpsertHourly_def analytics_InsertAnomaly_def analytics_AnonymiseUserEvents_def
    governance_UpsertConsent_def governance_CreateDeletionRequest_def governance_CancelDeletion_def groups_Create_def
    webhooks_Create_def webhooks_Disable_def backups_Insert_def notifications_CreateNotification_def notifications_MarkRead_def
    notifications_CreateTodo_def notifications_UpdateTodoStatus_def Let_def
  by (intro store_rules preserves_sql; auto simp: no_records_def split: if_splits option.splits)+

lemma ask_readonly [store_rules]: "readonly (ask f)" "preserves I (ask f)"
  by (simp_all add: readonly_def preserves_def ask_def)

lemma post_request_preserves [store_rules]: "preserves I (post_request net q)"
  by (simp add: preserves_def post_request_def)

lemma validate_readonly [store_rules]: "preserves I (ValidateWebhookTargetURL net u)"
  unfolding ValidateWebhookTargetURL_def by (intro store_rules) (auto split: option.splits list.splits intro!: store_rules)

lemma record_leaves:
  "leaves no_records (AnalyticsService_Track s et tt tid u)" "leaves no_records AnalyticsService_RunAggregation"
  "leaves no_records (AnalyticsService_RunAnomalyDetection s)" "leaves no_records (AnalyticsService_AnonymiseUserEvents s u)"
  "leaves no_records (GovernanceService_GrantConsent u sc v)" "leaves no_records (GovernanceService_WithdrawConsent u sc v)"
  "leaves no_records (GovernanceService_RequestDeletion u)" "leaves no_records (GovernanceService_CancelDeletion u)"
  "leaves no_records (GroupService_Create g)" "leaves no_records (WebhookService_Create net hk)" "leaves no_records (WebhookService_Disable i)"
  "leaves no_records (NotificationService_MarkRead u i)" "leaves no_records (NotificationService_UpdateTodoStatus u i st)"
  "leaves no_records (NotificationService_CreateTodo js u ty title p due)" "leaves no_records (backups_Insert b)"
  unfolding AnalyticsService_Track_def AnalyticsService_RunAggregation_def analytics_AggregateRecent_def
    AnalyticsService_RunAnomalyDetection_def detect_one_def AnalyticsService_AnonymiseUserEvents_def GovernanceService_GrantConsent_def
    GovernanceService_WithdrawConsent_def GovernanceService_RequestDeletion_def GovernanceService_CancelDeletion_def
    GroupService_Create_def WebhookService_Create_def WebhookService_Disable_def NotificationService_MarkRead_def
    NotificationService_UpdateTodoStatus_def NotificationService_CreateTodo_def Let_def
  by (intro leavesI store_rules preserves_for_each_or_return
      analytics_reads_readonly [THEN readonly_preserves]; (auto split: option.splits intro!: store_rules)?)+

section \<open>Webhook deliveries\<close>

lemma deliveries_UpdateAttempt:
  "0 \<le> n \<Longrightarrow> (st = ''pending'' \<Longrightarrow> n < 5) \<Longrightarrow> preserves deliveries_ok (webhooks_UpdateDeliveryAttempt i n st resp t)"
  unfolding webhooks_UpdateDeliveryAttempt_def
  by (rule preserves_sql) (clarsimp split: if_splits, simp add: deliveries_ok_def list_all_iff distinct_keys_update ball_update_where)

lemma deliveries_attempt: "0 \<le> wd_Attempts x \<Longrightarrow> preserves deliveries_ok (attempt_delivery net x)"
proof -
  assume x: "0 \<le> wd_Attempts x"
  have f: "preserves deliveries_ok (handleFailure i (wd_Attempts x + 1) why)" for i why
    unfolding handleFailure_def NextWebhookStatus_def WebhookMaxAttempts_def
    by (intro store_rules deliveries_UpdateAttempt) (use x in \<open>simp_all split: if_splits\<close>)
  have g: "preserves deliveries_ok (give_up i (wd_Attempts x + 1) why)" for i why
    unfolding give_up_def by (intro store_rules deliveries_UpdateAttempt) (use x in simp_all)
  have "preserves deliveries_ok (webhooks_UpdateDeliveryAttempt (wd_ID x) (wd_Attempts x + 1) ''delivered'' resp t)" for resp t
    by (rule deliveries_UpdateAttempt) (use x in simp_all)
  then show ?thesis
    unfolding attempt_delivery_def webhooks_Get_def by (intro store_rules f g)
qed

lemma RunDeliveryCycle_ok: "preserves deliveries_ok (WebhookService_RunDeliveryCycle net)"
proof (rule preservesI)
  fix w r w'
  assume run: "WebhookService_RunDeliveryCycle net w = (r, w')" and ok: "deliveries_ok (store w)"
  let ?w = "w\<lparr>readings := Suc (readings w)\<rparr>" and ?t = "clock w (readings w)"
  obtain r1 w1 where list: "webhooks_DequeuePending ?t 25 ?w = (r1, w1)" by fastforce
  have "readonly (webhooks_DequeuePending ?t 25)" by (simp add: webhooks_DequeuePending_def readonly_query)
  then have st: "store w1 = store w" using readonlyD list by fastforce
  show "deliveries_ok (store w')"
  proof (cases r1)
    case (Inl e)
    then show ?thesis using run list st ok by (simp add: WebhookService_RunDeliveryCycle_def bindE_def now_def)
  next
    case (Inr xs)
    then have loop: "for_each (attempt_delivery net) xs w1 = (r, w')"
      using run list by (simp add: WebhookService_RunDeliveryCycle_def bindE_def now_def)
    have "xs = due_now ?t (store w)"
      using list Inr by (simp add: webhooks_DequeuePending_def query_returns due_now_def)
    then have "set xs \<subseteq> set (webhook_deliveries (store w))" using due_now_due [OF ok, of ?t] by auto
    then have "preserves deliveries_ok (for_each (attempt_delivery net) xs)"
      using ok by (intro preserves_for_each deliveries_attempt) (auto simp: deliveries_ok_def list_all_iff)
    from preservesD [OF this loop] show ?thesis using ok st by simp
  qed
qed

lemma RunDeliveryCycle_leaves: "leaves no_deliveries (WebhookService_RunDeliveryCycle net)"
proof -
  have u: "preserves (\<lambda>d. no_deliveries d = c) (webhooks_UpdateDeliveryAttempt i n st resp t)" for c i n st resp t
    unfolding webhooks_UpdateDeliveryAttempt_def by (rule preserves_sql) (auto simp: no_deliveries_def split: if_splits)
  have "preserves (\<lambda>d. no_deliveries d = c) (attempt_delivery net x)" for c x
    unfolding attempt_delivery_def handleFailure_def give_up_def webhooks_Get_def by (intro store_rules u)
  then show ?thesis
    unfolding WebhookService_RunDeliveryCycle_def webhooks_DequeuePending_def
    by (intro leavesI store_rules preserves_for_each)
qed

section \<open>Erasing an account\<close>

lemma seats_fewer:
  assumes "seats_inv d"
  shows "seats_inv (d\<lparr>participants := delete_where p (participants d),
    group_buys := update_where q (\<lambda>g. g\<lparr>gb_OrganizerID := None\<rparr>) (group_buys d)\<rparr>)"
proof -
  have fewer: "seats_of i (delete_where p (participants d)) \<le> seats_of i (participants d)" for i
  proof -
    have "seats_of i (delete_where p ps) \<le> seats_of i ps" if "\<forall>x \<in> set ps. 0 < p_Quantity x" for ps
      using that unfolding seats_of_def sum_where_def delete_where_def by (induction ps) auto
    then show ?thesis using assms by (simp add: seats_inv_def)
  qed
  have "seats_row (delete_where p (participants d)) (if q g then g\<lparr>gb_OrganizerID := None\<rparr> else g)"
    if "g \<in> set (group_buys d)" for g
    using assms that fewer [of "gb_ID g"] by (auto simp: seats_inv_def seats_row_def Confirmed_def intro: order_trans)
  then show ?thesis
    using assms by (simp add: seats_inv_def distinct_keys_update keys_update ball_update_where)
qed

lemma documents_fewer:
  assumes "documents_inv d"
  shows "documents_inv (d\<lparr>documents := delete_where (\<lambda>x. d_OwnerUserID x = u) (documents d),
    revisions := delete_where (\<lambda>x. rev_DocumentID x \<in> d_ID ` {x \<in> set (documents d). d_OwnerUserID x = u}) (revisions d)\<rparr>)"
proof -
  let ?gone = "d_ID ` {x \<in> set (documents d). d_OwnerUserID x = u}"
  have stay: "d_ID x \<notin> ?gone" if "x \<in> set (documents d)" "d_OwnerUserID x \<noteq> u" for x
    using assms that by (auto simp: documents_inv_def dest: distinct_keys_inj)
  then have same: "numbers_of (d_ID x) (delete_where (\<lambda>x. rev_DocumentID x \<in> ?gone) (revisions d)) = numbers_of (d_ID x) (revisions d)"
    if "x \<in> set (documents d)" "d_OwnerUserID x \<noteq> u" for x
    using that by (auto simp: numbers_of_def)
  have kept: "rev_DocumentID r \<in> d_ID ` {x \<in> set (documents d). d_OwnerUserID x \<noteq> u}"
    if "r \<in> set (revisions d)" "rev_DocumentID r \<notin> ?gone" for r
    using assms that by (fastforce simp: documents_inv_def image_iff)
  show ?thesis
    using assms kept same by (auto simp: documents_inv_def distinct_keys_delete chain_ok_def)
qed

lemma lockout_fewer: "lockout_inv cfg d \<Longrightarrow> lockout_inv cfg (d\<lparr>users := delete_where p (users d)\<rparr>)"
  by (auto simp: lockout_inv_def distinct_keys_delete)

section \<open>All invariants at once\<close>

definition sys_inv :: "int \<Rightarrow> auth_settings \<Rightarrow> db \<Rightarrow> bool" where
  "sys_inv cap cfg d \<longleftrightarrow> booking_inv cap d \<and> seats_inv d \<and> lockout_inv cfg d \<and> keys_ok d \<and> documents_inv d \<and> deliveries_ok d"

lemma preserves_sys_inv:
  "preserves (booking_inv cap) m \<Longrightarrow> preserves seats_inv m \<Longrightarrow> preserves (lockout_inv cfg) m \<Longrightarrow> preserves keys_ok m \<Longrightarrow>
   preserves documents_inv m \<Longrightarrow> preserves deliveries_ok m \<Longrightarrow> preserves (sys_inv cap cfg) m"
  unfolding preserves_def sys_inv_def by blast

text \<open>
  A component owns an invariant and some tables. If the invariant of the whole is kept by whatever keeps
  the owned part and the other tables, an operation of the component only has to do these two things.
\<close>

locale component =
  fixes whole own :: "db \<Rightarrow> bool" and erase :: "db \<Rightarrow> db"
  assumes part: "whole d \<Longrightarrow> own d"
    and frame: "whole d \<Longrightarrow> erase d' = erase d \<Longrightarrow> own d' \<Longrightarrow> whole d'"
begin

lemma keeps_whole:
  assumes "leaves erase m" and "preserves own m"
  shows "preserves whole m"
proof (rule preservesI)
  fix w r w'
  assume run: "m w = (r, w')" and "whole (store w)"
  then have "own (store w')" using preservesD [OF assms(2) run] part by simp
  moreover have "preserves (\<lambda>d. erase d = erase (store w)) m" using assms(1) by (simp add: leaves_def)
  then have "erase (store w') = erase (store w)" using preservesD run by fastforce
  ultimately show "whole (store w')" using \<open>whole (store w)\<close> frame by blast
qed

end

lemma kept_part:
  assumes "erase d' = erase d"
  shows "booking_inv cap d \<Longrightarrow> (\<And>d. booking_inv cap (erase d) = booking_inv cap d) \<Longrightarrow> booking_inv cap d'"
    "seats_inv d \<Longrightarrow> (\<And>d. seats_inv (erase d) = seats_inv d) \<Longrightarrow> seats_inv d'"
    "lockout_inv cfg d \<Longrightarrow> (\<And>d. lockout_inv cfg (erase d) = lockout_inv cfg d) \<Longrightarrow> lockout_inv cfg d'"
    "keys_ok d \<Longrightarrow> (\<And>d. keys_ok (erase d) = keys_ok d) \<Longrightarrow> keys_ok d'"
    "documents_inv d \<Longrightarrow> (\<And>d. documents_inv (erase d) = documents_inv d) \<Longrightarrow> documents_inv d'"
    "deliveries_ok d \<Longrightarrow> (\<And>d. deliveries_ok (erase d) = deliveries_ok d) \<Longrightarrow> deliveries_ok d'"
  using arg_cong [OF assms, of "booking_inv cap"] arg_cong [OF assms, of seats_inv] arg_cong [OF assms, of "lockout_inv cfg"]
    arg_cong [OF assms, of keys_ok] arg_cong [OF assms, of documents_inv] arg_cong [OF assms, of deliveries_ok]
  by blast+

interpretation accounts: component "sys_inv cap cfg" "lockout_inv cfg" no_accounts for cap cfg
  by (unfold_locales; unfold sys_inv_def; (elim conjE)?; (intro conjI)?;
      (assumption | rule TrueI | (rule kept_part [of no_accounts], assumption, assumption, simp add: no_accounts_def)))

interpretation booked: component "sys_inv cap cfg" "booking_inv cap" no_bookings for cap cfg
  by (unfold_locales; unfold sys_inv_def; (elim conjE)?; (intro conjI)?;
      (assumption | rule TrueI | (rule kept_part [of no_bookings], assumption, assumption, simp add: no_bookings_def)))

interpretation buying: component "sys_inv cap cfg" seats_inv no_group_buys for cap cfg
  by (unfold_locales; unfold sys_inv_def; (elim conjE)?; (intro conjI)?;
      (assumption | rule TrueI | (rule kept_part [of no_group_buys], assumption, assumption, simp add: no_group_buys_def)))

interpretation papers: component "sys_inv cap cfg" documents_inv no_documents for cap cfg
  by (unfold_locales; unfold sys_inv_def; (elim conjE)?; (intro conjI)?;
      (assumption | rule TrueI | (rule kept_part [of no_documents], assumption, assumption, simp add: no_documents_def)))

interpretation sending: component "sys_inv cap cfg" deliveries_ok no_deliveries for cap cfg
  by (unfold_locales; unfold sys_inv_def; (elim conjE)?; (intro conjI)?;
      (assumption | rule TrueI | (rule kept_part [of no_deliveries], assumption, assumption, simp add: no_deliveries_def)))

interpretation keys: component "sys_inv cap cfg" keys_ok no_idempotency for cap cfg
  by (unfold_locales; unfold sys_inv_def; (elim conjE)?; (intro conjI)?;
      (assumption | rule TrueI | (rule kept_part [of no_idempotency], assumption, assumption, simp add: no_idempotency_def)))

interpretation recording: component "sys_inv cap cfg" "\<lambda>_. True" no_records for cap cfg
  by (unfold_locales; unfold sys_inv_def; (elim conjE)?; (intro conjI)?;
      (assumption | rule TrueI | (rule kept_part [of no_records], assumption, assumption, simp add: no_records_def)))

text \<open>Every writing operation of the services.\<close>

named_theorems sys_rules

lemma record_sys: "leaves no_records m \<Longrightarrow> preserves (sys_inv cap cfg) m"
  by (rule recording.keeps_whole [OF _ preserves_always])

lemmas record_ops_sys [sys_rules] = record_leaves [THEN record_sys]

lemma account_ops_sys [sys_rules]:
  assumes "0 < LockoutThreshold cfg"
  shows "preserves (sys_inv cap cfg) (AuthService_Register env cfg name pw)" "preserves (sys_inv cap cfg) (AuthService_Login env cfg inp)"
    "preserves (sys_inv cap cfg) (AuthService_ChangePassword env cfg i old new)" "preserves (sys_inv cap cfg) (AuthService_IssueCaptcha cfg)"
    "preserves (sys_inv cap cfg) (AuthService_ResolveSession cfg k)" "preserves (sys_inv cap cfg) (AuthService_Logout k)"
  by (rule accounts.keeps_whole, rule auth_leaves, (rule Login_lockout Register_lockout other_operations_lockout assms)+)+

lemma booking_ops_sys [sys_rules]:
  "preserves (sys_inv (MaxActivePerDay (policy s)) cfg) (BookingService_Create s inp)"
  "preserves (sys_inv cap cfg) (BookingService_Transition s a i st)" "preserves (sys_inv cap cfg) (resources_InsertManyTx rows)"
  by (rule booked.keeps_whole, rule booking_leaves, rule Create_preserves Transition_preserves resource_inserts_preserve)+

lemma group_buy_ops_sys [sys_rules]:
  "preserves (sys_inv cap cfg) (GroupBuyService_Create gi)" "preserves (sys_inv cap cfg) (GroupBuyService_SweepExpired pr)"
  by (rule buying.keeps_whole, rule group_buy_leaves, rule GroupBuyCreate_seats SweepExpired_seats)+

lemma Join_sys [sys_rules]: "preserves (sys_inv cap cfg) (GroupBuyService_Join pr i u q)"
proof (rule buying.keeps_whole [OF group_buy_leaves(2)])
  have notify: "preserves seats_inv (notifications_CreateNotification n)" for n
    unfolding notifications_CreateNotification_def Let_def by (intro store_rules preserves_sql) (auto split: if_splits)
  have "preserves seats_inv (join_loop groupbuys_JoinAtomic pr i u q k)" for k
    by (induction k) (auto simp: notifyOrganizerProgress_def intro!: store_rules notify)
  then show "preserves seats_inv (GroupBuyService_Join pr i u q)"
    unfolding GroupBuyService_Join_def by (intro store_rules)
qed

lemma document_ops_sys [sys_rules]:
  "preserves (sys_inv cap cfg) (GenerateConfirmation u rt ri title kvs)"
  "preserves (sys_inv cap cfg) (GenerateCheckinPass rasterise u rt ri title kvs)"
proof -
  have "preserves documents_inv (GenerateConfirmation u rt ri title kvs)" "preserves documents_inv (GenerateCheckinPass rasterise u rt ri title kvs)"
    unfolding GenerateConfirmation_def GenerateCheckinPass_def Let_def by (intro store_rules)+
  then show "preserves (sys_inv cap cfg) (GenerateConfirmation u rt ri title kvs)"
    "preserves (sys_inv cap cfg) (GenerateCheckinPass rasterise u rt ri title kvs)"
    by (auto intro: papers.keeps_whole document_leaves)
qed

lemma delivery_cycle_sys [sys_rules]: "preserves (sys_inv cap cfg) (WebhookService_RunDeliveryCycle net)"
  by (rule sending.keeps_whole [OF RunDeliveryCycle_leaves RunDeliveryCycle_ok])

lemma idempotency_ops_sys [sys_rules]:
  "preserves (sys_inv cap cfg) (idem_Reserve u k h ttl)"
  "good_status st \<Longrightarrow> preserves (sys_inv cap cfg) (idem_Complete u k st b ct)"
  "preserves (sys_inv cap cfg) (idem_ReleasePending u k)"
proof -
  have "preserves keys_ok (idem_Reserve u k h ttl)"
    unfolding idem_Reserve_def idem_claim_def keys_ok_def
    by (intro store_rules preserves_sql readonly_preserves)
      (auto split: option.splits intro: idem_unique_claimed simp: stored_ok_def, simp add: pending_row_def)
  moreover have "preserves keys_ok (idem_Complete u k st b ct)" if "good_status st"
    unfolding idem_Complete_def keys_ok_def
    by (rule preserves_sql; clarsimp split: if_splits)
      (use that in \<open>simp add: idem_unique_def stored_ok_def ball_update_where distinct_keys_update completed_def\<close>)
  moreover have "preserves keys_ok (idem_ReleasePending u k)"
    unfolding idem_ReleasePending_def keys_ok_def
    by (rule preserves_sql) (auto simp: idem_unique_def stored_ok_def distinct_keys_delete)
  ultimately show "preserves (sys_inv cap cfg) (idem_Reserve u k h ttl)" "preserves (sys_inv cap cfg) (idem_ReleasePending u k)"
    "good_status st \<Longrightarrow> preserves (sys_inv cap cfg) (idem_Complete u k st b ct)"
    by (auto intro: keys.keeps_whole idempotency_leaves)
qed

text \<open>The tables that a deleted account takes rows out of.\<close>

lemma delete_user_row_sys: "sys_inv cap cfg d \<Longrightarrow> sys_inv cap cfg (delete_user_row u d)"
proof -
  assume ok: "sys_inv cap cfg d"
  have "seats_inv (delete_user_row u d) = seats_inv (d\<lparr>participants := delete_where (\<lambda>x. p_UserID x = u) (participants d),
      group_buys := update_where (\<lambda>x. gb_OrganizerID x = Some u) (\<lambda>x. x\<lparr>gb_OrganizerID := None\<rparr>) (group_buys d)\<rparr>)"
    by (simp add: delete_user_row_def Let_def seats_inv_def)
  then have "seats_inv (delete_user_row u d)" using ok by (simp add: seats_fewer sys_inv_def)
  moreover have "documents_inv (delete_user_row u d)"
    using documents_fewer [of d u] ok by (simp add: delete_user_row_def Let_def sys_inv_def documents_inv_def)
  moreover have "lockout_inv cfg (delete_user_row u d)"
    using lockout_fewer [of cfg d "\<lambda>x. u_ID x = u"] ok by (simp add: delete_user_row_def Let_def sys_inv_def lockout_inv_def)
  moreover have "booking_inv cap (delete_user_row u d)"
    using ok by (auto simp: sys_inv_def delete_user_row_def Let_def intro: booking_inv_fewer)
  ultimately show ?thesis
    using ok by (simp add: sys_inv_def delete_user_row_def Let_def keys_ok_def idem_unique_def stored_ok_def deliveries_ok_def)
qed

lemma HardDelete_sys: "preserves (sys_inv cap cfg) (users_HardDelete i)"
  unfolding users_HardDelete_def by (rule preserves_sql) (auto simp: delete_user_row_sys split: if_splits)

lemma deletion_executor_sys [sys_rules]: "preserves (sys_inv cap cfg) (GovernanceService_RunDeletionExecutor s)"
  unfolding GovernanceService_RunDeletionExecutor_def hardDeleteOne_def governance_ListDuePending_def
  by (intro store_rules sys_rules preserves_for_each HardDelete_sys)

text \<open>The writes of the seeding.\<close>

lemma SetAdmin_sys [sys_rules]: "preserves (sys_inv cap cfg) (users_SetAdmin i b)"
proof (rule accounts.keeps_whole)
  show "leaves no_accounts (users_SetAdmin i b)" by (intro leavesI account_writes_leave)
  show "preserves (lockout_inv cfg) (users_SetAdmin i b)"
    unfolding users_SetAdmin_def
    by (rule preserves_sql) (auto split: if_splits intro!: lockout_inv_update, simp add: lockout_inv_def)
qed

lemma users_Create_sys [sys_rules]:
  assumes "u_FailedAttempts u < LockoutThreshold cfg"
  shows "preserves (sys_inv cap cfg) (users_Create u)"
proof (rule accounts.keeps_whole)
  show "leaves no_accounts (users_Create u)" by (intro leavesI account_writes_leave)
  show "preserves (lockout_inv cfg) (users_Create u)"
    unfolding users_Create_def Let_def
    by (intro store_rules preserves_sql)
      (use assms in \<open>auto simp: lockout_inv_def user_insertable_def fresh_key_iff distinct_keys_append split: if_splits\<close>)
qed

text \<open>An empty database satisfies them all.\<close>

lemma sys_inv_empty: "sys_inv cap cfg empty_db"
  by (simp add: sys_inv_def booking_inv_def rows_ok_def seats_safe_def no_double_booking_def daily_cap_def seats_inv_def
      lockout_inv_def keys_ok_def idem_unique_def stored_ok_def documents_inv_def deliveries_ok_def empty_db_def distinct_keys_def occupancy_def)

end
