(* ===== verification/System.thy ===== *)
theory System
  imports Jobs Answers Invariants
begin

text \<open>
  The whole site as a transition system: a request is served, a background job runs, or the cache is
  collected. Every step keeps the invariants of the components, whatever the request and whatever
  statements fail, and so does the seeding at the start; theory Process puts the processes around it.

  A step is a whole request or a whole job. Requests of the real server interleave at their
  statements; theories Booking_Service and Group_Buy_Races treat the interleavings of the two operations
  that compete for seats.
\<close>

section \<open>Reading operations\<close>

lemma service_reads [sys_rules]:
  "preserves I (BookingService_ListByUser u l off)" "preserves I (BookingService_GetForOwner s u i)"
  "preserves I (ResourceService_List collate)" "preserves I (ResourceService_Availability rid day)"
  "preserves I (ResourceService_RemainingSeats rid t e)" "preserves I (GroupService_List l off)" "preserves I (GroupService_Get i)"
  "preserves I (GroupBuyService_Get i)" "preserves I (GroupBuyService_List l off)" "preserves I (GroupBuyService_Progress i)"
  "preserves I (GroupBuyService_Participants i)" "preserves I (DocumentService_Get i)" "preserves I (DocumentService_GetCurrent i)"
  "preserves I (DocumentService_GetRevision i n)" "preserves I (DocumentService_ListByOwner u)"
proof -
  show "preserves I (GroupService_List l off)" "preserves I (GroupService_Get i)"
    by (simp_all add: readonly_preserves groups_reads_readonly)
  show "preserves I (BookingService_ListByUser u l off)" "preserves I (BookingService_GetForOwner s u i)"
    "preserves I (ResourceService_List collate)" "preserves I (ResourceService_Availability rid day)"
    "preserves I (ResourceService_RemainingSeats rid t e)"
    "preserves I (GroupBuyService_Get i)" "preserves I (GroupBuyService_List l off)" "preserves I (GroupBuyService_Progress i)"
    "preserves I (GroupBuyService_Participants i)" "preserves I (DocumentService_Get i)" "preserves I (DocumentService_GetCurrent i)"
    "preserves I (DocumentService_GetRevision i n)" "preserves I (DocumentService_ListByOwner u)"
    unfolding BookingService_ListByUser_def bookings_ListByUser_def BookingService_GetForOwner_def bookings_Get_def
      ResourceService_List_def resources_List_def ResourceService_Availability_def resources_Get_def bookings_ListByResourceOnDate_def
      ResourceService_RemainingSeats_def resources_SumActivePartySizesInWindow_def
      GroupBuyService_Get_def groupbuys_Get_def GroupBuyService_List_def groupbuys_List_def GroupBuyService_Progress_def
      GroupBuyService_Participants_def groupbuys_ListParticipants_def
      DocumentService_Get_def documents_GetWithRevisions_def documents_Get_def DocumentService_GetCurrent_def documents_GetCurrentRevision_def
      DocumentService_GetRevision_def documents_GetRevision_def DocumentService_ListByOwner_def documents_ListByOwner_def Let_def
    by (intro store_rules)+
qed

lemma service_reads' [sys_rules]:
  "preserves I (NotificationService_List u b n)" "preserves I (NotificationService_UnreadCount u)"
  "preserves I (NotificationService_ListTodos u st n)" "preserves I (NotificationService_AdminDeliveries n)"
  "preserves I (AnalyticsService_TopSessions n k)" "preserves I (AnalyticsService_Trends et)" "preserves I (AnalyticsService_Anomalies n)"
  "preserves I (GovernanceService_Dictionary g)" "preserves I (GovernanceService_Tags g)" "preserves I (GovernanceService_ConsentHistory u)"
  "preserves I (GovernanceService_ExportResourcesCSV g)" "preserves I WebhookService_List" "preserves I (WebhookService_Deliveries n)"
  "preserves I (BackupService_List n)" "preserves I BackupService_PlanRestore"
  unfolding NotificationService_List_def notifications_ListNotifications_def NotificationService_UnreadCount_def notifications_CountUnread_def
    NotificationService_ListTodos_def notifications_ListTodos_def NotificationService_AdminDeliveries_def notifications_ListDeliveries_def
    AnalyticsService_TopSessions_def analytics_TopSessions_def AnalyticsService_Trends_def analytics_Trend_def
    AnalyticsService_Anomalies_def analytics_ListAnomalies_def GovernanceService_Dictionary_def governance_ListDictionary_def
    GovernanceService_Tags_def governance_ListTags_def GovernanceService_ConsentHistory_def governance_ListConsent_def
    GovernanceService_ExportResourcesCSV_def resources_List_def WebhookService_List_def webhooks_List_def WebhookService_Deliveries_def
    webhooks_ListDeliveries_def BackupService_List_def backups_List_def BackupService_PlanRestore_def backups_LastFull_def
    backups_IncrementalsAfter_def Let_def
  by (intro store_rules)+

section \<open>Handlers\<close>

text \<open>The invariants for the settings of a site.\<close>

abbreviation site_inv :: "web \<Rightarrow> db \<Rightarrow> bool" where
  "site_inv wb \<equiv> sys_inv (MaxActivePerDay (policy (wb_booking wb))) (wb_auth wb)"

lemma answers_keep [sys_rules]:
  "preserves I (respond wb st p)" "preserves I (renderTempl wb st pg)" "preserves I (plain_text st msg)" "preserves I no_route"
  "preserves I (writeServiceError wb e)" "preserves I (writeGroupBuyError wb e)" "preserves I (unauthorized wb msg)" "preserves I (wantsHTML wb req)"
  unfolding respond_def renderTempl_def plain_text_def no_route_def writeServiceError_def writeGroupBuyError_def unauthorized_def wantsHTML_def
  by (intro store_rules)+

lemma combinators_keep [sys_rules]:
  "(\<And>x. preserves I (k x)) \<Longrightarrow> preserves I (binding wb bound k)"
  "(\<And>i. preserves I (ku i)) \<Longrightarrow> preserves I (parsing_uuid wb msg s ku)"
  "(\<And>t. preserves I (kt t)) \<Longrightarrow> preserves I (parsing_time wb msg s kt)"
  "(\<And>u. preserves I (kc u)) \<Longrightarrow> preserves I (with_user req kc)"
  "preserves I m \<Longrightarrow> (\<And>x. preserves I (kv x)) \<Longrightarrow> preserves I (serving wb m kv)"
  "preserves I m \<Longrightarrow> (\<And>x. preserves I (kv x)) \<Longrightarrow> preserves I (or_zero m zero kv)"
  "preserves I resp \<Longrightarrow> preserves I (with_header h resp)"
  unfolding binding_def parsing_uuid_def parsing_time_def with_user_def serving_def or_zero_def with_header_def
  by (intro store_rules sys_rules; assumption?)+

text \<open>The writes of a handler are those of its service.\<close>

lemma booking_handlers_keep [sys_rules]:
  "preserves (site_inv wb) (BookingHandler_Create wb req)" "preserves (site_inv wb) (BookingHandler_ListMine wb req)"
  "preserves (site_inv wb) (BookingHandler_Get wb param req)" "preserves (site_inv wb) (BookingHandler_Transition wb param req)"
  "preserves (site_inv wb) (BookingHandler_Index wb req)" "preserves (site_inv wb) (BookingHandler_NewPage wb req)"
  unfolding BookingHandler_Create_def BookingHandler_ListMine_def BookingHandler_Get_def BookingHandler_Transition_def
    BookingHandler_Index_def BookingHandler_NewPage_def Let_def
  by (intro sys_rules store_rules)+

lemma writeAuthError_keeps:
  "0 < LockoutThreshold (wb_auth wb) \<Longrightarrow> preserves (site_inv wb) (writeAuthError wb e)"
  unfolding writeAuthError_def by (intro sys_rules store_rules)

lemma authenticating_keeps [sys_rules]:
  "0 < LockoutThreshold (wb_auth wb) \<Longrightarrow> preserves (site_inv wb) m \<Longrightarrow> (\<And>x. preserves (site_inv wb) (k x)) \<Longrightarrow>
     preserves (site_inv wb) (authenticating wb m k)"
  unfolding authenticating_def by (intro store_rules writeAuthError_keeps)

lemma account_handlers_keep [sys_rules]:
  assumes "0 < LockoutThreshold (wb_auth wb)"
  shows "preserves (site_inv wb) (AuthHandler_Register wb req)" "preserves (site_inv wb) (AuthHandler_Login wb req)"
    "preserves (site_inv wb) (AuthHandler_Logout wb req)" "preserves (site_inv wb) (AuthHandler_Me wb req)"
    "preserves (site_inv wb) (AuthHandler_ChangePassword wb req)" "preserves (site_inv wb) (AuthHandler_Captcha wb req)"
    "preserves (site_inv wb) (AuthHandler_RegisterPage wb req)" "preserves (site_inv wb) (AuthHandler_LoginPage wb req)"
  unfolding AuthHandler_Register_def AuthHandler_Login_def AuthHandler_Logout_def AuthHandler_Me_def AuthHandler_ChangePassword_def
    AuthHandler_Captcha_def AuthHandler_RegisterPage_def AuthHandler_LoginPage_def Let_def
  by (intro sys_rules store_rules assms)+

lemma group_handlers_keep [sys_rules]:
  "preserves (site_inv wb) (GroupHandler_Create wb req)" "preserves (site_inv wb) (GroupHandler_List wb req)"
  "preserves (site_inv wb) (GroupHandler_Get wb param req)" "preserves (site_inv wb) (GroupHandler_IndexHTML wb req)"
  "preserves (site_inv wb) (GroupHandler_DetailHTML wb param req)"
  "preserves (site_inv wb) (GroupBuyHandler_Create wb req)" "preserves (site_inv wb) (GroupBuyHandler_Join wb param req)"
  "preserves (site_inv wb) (GroupBuyHandler_Get wb param req)" "preserves (site_inv wb) (GroupBuyHandler_List wb req)"
  "preserves (site_inv wb) (GroupBuyHandler_Progress wb param req)" "preserves (site_inv wb) (GroupBuyHandler_Participants wb param req)"
  "preserves (site_inv wb) (GroupBuyHandler_IndexHTML wb req)" "preserves (site_inv wb) (GroupBuyHandler_DetailHTML wb param req)"
  unfolding GroupHandler_Create_def GroupHandler_List_def GroupHandler_Get_def GroupHandler_IndexHTML_def GroupHandler_DetailHTML_def
    GroupBuyHandler_Create_def GroupBuyHandler_Join_def GroupBuyHandler_Get_def GroupBuyHandler_List_def GroupBuyHandler_Progress_def
    GroupBuyHandler_Participants_def GroupBuyHandler_IndexHTML_def GroupBuyHandler_DetailHTML_def Let_def
  by (intro sys_rules store_rules)+

lemma resource_handlers_keep [sys_rules]:
  "preserves I (ResourceHandler_List wb req)" "preserves I (ResourceHandler_Availability wb req)"
  "preserves I (ResourceHandler_RemainingSeats wb param req)" "preserves I (ResourceHandler_AvailabilityPage wb req)"
  "preserves I (HealthHandler_Liveness wb req)" "preserves I (HealthHandler_Readiness wb req)"
  unfolding ResourceHandler_List_def ResourceHandler_Availability_def availability_on_def ResourceHandler_RemainingSeats_def
    ResourceHandler_AvailabilityPage_def page_availability_def HealthHandler_Liveness_def HealthHandler_Readiness_def Let_def
  by ((intro sys_rules store_rules preserves_sql)+; simp)+

lemma document_handlers_keep [sys_rules]:
  "preserves (site_inv wb) (DocumentHandler_Confirmation wb req)" "preserves (site_inv wb) (DocumentHandler_CheckinPass wb req)"
  "preserves (site_inv wb) (DocumentHandler_List wb req)" "preserves (site_inv wb) (DocumentHandler_Get wb param req)"
  "preserves (site_inv wb) (DocumentHandler_Content wb param req)" "preserves (site_inv wb) (DocumentHandler_CenterHTML wb req)"
proof -
  have "preserves (site_inv wb) (load_histories ds)" for ds
    by (induction ds) (auto intro!: store_rules sys_rules)
  then show "preserves (site_inv wb) (DocumentHandler_CenterHTML wb req)"
    unfolding DocumentHandler_CenterHTML_def by (intro sys_rules store_rules)
qed (unfold DocumentHandler_Confirmation_def DocumentHandler_CheckinPass_def generating_def DocumentHandler_List_def
    DocumentHandler_Get_def DocumentHandler_Content_def serve_revision_def Let_def, (intro sys_rules store_rules)+)

lemma notification_handlers_keep [sys_rules]:
  "preserves (site_inv wb) (NotificationHandler_List wb req)" "preserves (site_inv wb) (NotificationHandler_MarkRead wb param req)"
  "preserves (site_inv wb) (NotificationHandler_UnreadCount wb req)" "preserves (site_inv wb) (NotificationHandler_CreateTodo wb req)"
  "preserves (site_inv wb) (NotificationHandler_ListTodos wb req)" "preserves (site_inv wb) (NotificationHandler_UpdateTodoStatus wb param req)"
  "preserves (site_inv wb) (NotificationHandler_AdminDeliveries wb req)" "preserves (site_inv wb) (NotificationHandler_CenterHTML wb req)"
  "preserves (site_inv wb) (AnalyticsHandler_Track wb req)" "preserves (site_inv wb) (AnalyticsHandler_Top wb req)"
  "preserves (site_inv wb) (AnalyticsHandler_Trends wb req)" "preserves (site_inv wb) (AnalyticsHandler_Anomalies wb req)"
  "preserves (site_inv wb) (AnalyticsHandler_DashboardHTML wb req)"
  unfolding NotificationHandler_List_def NotificationHandler_MarkRead_def NotificationHandler_UnreadCount_def
    NotificationHandler_CreateTodo_def NotificationHandler_ListTodos_def NotificationHandler_UpdateTodoStatus_def
    NotificationHandler_AdminDeliveries_def NotificationHandler_CenterHTML_def AnalyticsHandler_Track_def AnalyticsHandler_Top_def
    AnalyticsHandler_Trends_def AnalyticsHandler_Anomalies_def AnalyticsHandler_DashboardHTML_def Let_def
  by (intro sys_rules store_rules)+

lemma import_keeps [sys_rules]: "preserves (sys_inv cap cfg) (GovernanceService_ImportResourcesCSV g body)"
  unfolding GovernanceService_ImportResourcesCSV_def Let_def by (intro sys_rules store_rules)

lemma governance_handlers_keep [sys_rules]:
  "preserves (site_inv wb) (GovernanceHandler_Dictionary wb req)" "preserves (site_inv wb) (GovernanceHandler_Tags wb req)"
  "preserves (site_inv wb) (GovernanceHandler_GrantConsent wb req)" "preserves (site_inv wb) (GovernanceHandler_WithdrawConsent wb req)"
  "preserves (site_inv wb) (GovernanceHandler_ListConsent wb req)" "preserves (site_inv wb) (GovernanceHandler_RequestDeletion wb req)"
  "preserves (site_inv wb) (GovernanceHandler_CancelDeletion wb req)" "preserves (site_inv wb) (GovernanceHandler_ImportResources wb req)"
  "preserves (site_inv wb) (GovernanceHandler_ExportResources wb req)"
  "preserves (site_inv wb) (AdminHandler_WebhookCreate wb req)" "preserves (site_inv wb) (AdminHandler_WebhookList wb req)"
  "preserves (site_inv wb) (AdminHandler_WebhookDisable wb param req)" "preserves (site_inv wb) (AdminHandler_WebhookDeliveries wb req)"
  "preserves (site_inv wb) (AdminHandler_BackupList wb req)" "preserves (site_inv wb) (AdminHandler_BackupRestorePlan wb req)"
  unfolding GovernanceHandler_Dictionary_def GovernanceHandler_Tags_def GovernanceHandler_GrantConsent_def
    GovernanceHandler_WithdrawConsent_def GovernanceHandler_ListConsent_def GovernanceHandler_RequestDeletion_def
    GovernanceHandler_CancelDeletion_def GovernanceHandler_ImportResources_def GovernanceHandler_ExportResources_def
    AdminHandler_WebhookCreate_def AdminHandler_WebhookList_def AdminHandler_WebhookDisable_def AdminHandler_WebhookDeliveries_def
    AdminHandler_BackupList_def AdminHandler_BackupRestorePlan_def Let_def
  by (intro sys_rules store_rules)+

section \<open>Requests\<close>

text \<open>On the server, the invariants are about its database.\<close>

abbreviation server_inv :: "web \<Rightarrow> (cache, backup_file) server \<Rightarrow> bool" where
  "server_inv wb \<equiv> \<lambda>s. site_inv wb (sv_db s)"

lemma repository_keeps [sys_rules]:
  "preserves (sys_inv cap cfg) (repo_Reserve idemRepo u k h ttl)"
  "good_status st \<Longrightarrow> preserves (sys_inv cap cfg) (repo_Complete idemRepo u k st b ct)"
  "preserves (sys_inv cap cfg) (repo_ReleasePending idemRepo u k)"
  by (simp_all add: idemRepo_def idempotency_ops_sys)

text \<open>An endpoint works if it keeps the invariants and answers.\<close>

definition works :: "('d \<Rightarrow> bool) \<Rightarrow> ('d, response) io \<Rightarrow> bool" where
  "works J m \<longleftrightarrow> preserves J m \<and> answers J m"

lemma works_attempt:
  assumes "works J m" and "\<And>resp. good_status (rs_Status resp) \<Longrightarrow> works J (k (Inr resp))"
  shows "works J (attempt m k)"
proof -
  have run: "\<exists>resp. good_status (rs_Status resp) \<and> attempt m k w = k (Inr resp) (snd (m w)) \<and> J (store (snd (m w)))"
    if "J (store w)" for w
    using assms(1) that answersD [of J m w] preserves_run [of J m w] by (auto simp: works_def attempt_run)
  have "preserves J (attempt m k)"
  proof (rule preservesI)
    fix w r w'
    assume "attempt m k w = (r, w')" "J (store w)"
    then show "J (store w')" using run [of w] assms(2) by (metis works_def preservesD)
  qed
  moreover have "answers J (attempt m k)"
    unfolding answers_def using run assms(2) by (metis works_def answersD)
  ultimately show ?thesis by (simp add: works_def)
qed

text \<open>What a finished key replays is an answer: the invariant of the keys says so.\<close>

lemma Reserve_replays:
  assumes "idem_Reserve u k h ttl w = (Inr (existing, False), w')" and "keys_ok (store w)"
  shows "good_status (rs_Status (answer_existing existing))"
proof (cases existing)
  case (Some r)
  then obtain x where "r = coalesced x" "x \<in> set (idempotency_keys (store w))"
    using assms(1)
    by (auto simp: idem_Reserve_def idem_claim_def idem_inspect_def idem_getScoped_def bindE_returns sql_returns query_returns
        ret_returns fail_returns now_returns dest!: slot_Some split: if_splits option.splits)
  then show ?thesis
    using assms(2) Some
    by (auto simp: answer_existing_def keys_ok_def stored_ok_def coalesced_def replay_def lookup_failed_response_def error_json_def good_status_def)
qed (simp add: answer_existing_def lookup_failed_response_def error_json_def good_status_def)

lemma idempotency_works:
  assumes "\<And>req'. rq_User req' = rq_User req \<Longrightarrow> works (site_inv wb) (next req')"
  shows "works (site_inv wb) (Idempotency idemRepo digest next req)"
proof -
  let ?I = "site_inv wb"
  have recorded: "works ?I (run_and_record idemRepo u k (next req'))" if "rq_User req' = rq_User req" for u k req'
    unfolding run_and_record_def
    by (rule works_attempt [OF assms [OF that]])
      (auto simp: works_def intro!: store_rules sys_rules answer_rules)
  have "preserves ?I (Idempotency idemRepo digest next req)"
    using assms recorded unfolding Idempotency_def Let_def works_def
    by (intro sys_rules store_rules) auto
  moreover have "answers ?I (Idempotency idemRepo digest next req)"
    unfolding answers_def
  proof (intro allI impI)
    fix w :: "db world"
    assume I: "?I (store w)"
    let ?k = "rq_Header req IdempotencyHeader" and ?u = "map_option u_ID (rq_User req)"
    obtain r w1 where r: "idem_Reserve ?u ?k (request_hash digest req) (24 * hour) w = (r, w1)" by fastforce
    have I1: "?I (store w1)" using preservesD [OF idempotency_ops_sys(1) r I] .
    show "\<exists>resp w'. Idempotency idemRepo digest next req w = (Inr resp, w') \<and> good_status (rs_Status resp)"
    proof (cases "?k = []")
      case True
      then show ?thesis using assms [of req] I by (auto simp: Idempotency_def works_def answers_def)
    next
      case key: False
      show ?thesis
      proof (cases r)
        case (Inl e)
        then show ?thesis
          using key r by (auto simp: Idempotency_def Let_def attempt_def idemRepo_def ret_def answer_reserve_error_def mismatch_response_def
              in_flight_response_def lookup_failed_response_def error_json_def good_status_def)
      next
        case (Inr x)
        obtain existing reserved where x: "x = (existing, reserved)" by fastforce
        show ?thesis
        proof (cases reserved)
          case True
          then have "Idempotency idemRepo digest next req w = run_and_record idemRepo ?u ?k (next (req\<lparr>rq_Body := Some (request_body req)\<rparr>)) w1"
            using key r Inr x by (simp add: Idempotency_def Let_def attempt_def idemRepo_def)
          then show ?thesis using recorded [of "req\<lparr>rq_Body := Some (request_body req)\<rparr>" ?u ?k] I1 by (auto simp: works_def answers_def)
        next
          case False
          then show ?thesis
            using key r Inr x I Reserve_replays [of ?u ?k _ _ w existing w1]
            by (auto simp: Idempotency_def Let_def attempt_def idemRepo_def ret_def sys_inv_def)
        qed
      qed
    qed
  qed
  ultimately show ?thesis by (simp add: works_def)
qed

lemma cache_keeps [sys_rules]:
  "preserves (\<lambda>s. I (sv_db s)) (Cache_Get key)" "preserves (\<lambda>s. I (sv_db s)) (Cache_Set ttl key v)"
  "preserves (\<lambda>s. I (sv_db s)) Cache_Purge" "preserves (\<lambda>s. I (sv_db s)) (Cache_Stats ttl)" "preserves (\<lambda>s. I (sv_db s)) Cache_gc"
proof -
  have [store_rules]: "preserves (\<lambda>s. I (sv_db s)) (the_cache f)" "preserves (\<lambda>s. I (sv_db s)) (set_cache g)" for f :: "(cache, backup_file) server \<Rightarrow> 'x" and g
    by (simp_all add: preserves_def the_cache_def set_cache_def)
  show "preserves (\<lambda>s. I (sv_db s)) (Cache_Get key)" "preserves (\<lambda>s. I (sv_db s)) (Cache_Set ttl key v)"
    "preserves (\<lambda>s. I (sv_db s)) Cache_Purge" "preserves (\<lambda>s. I (sv_db s)) (Cache_Stats ttl)" "preserves (\<lambda>s. I (sv_db s)) Cache_gc"
    unfolding Cache_Get_def Cache_Set_def Cache_Purge_def Cache_Stats_def Cache_gc_def
    by (intro store_rules)+
qed

lemma os_call_keeps: "(\<And>s x s'. f s = (x, s') \<Longrightarrow> sv_db s' = sv_db s) \<Longrightarrow> preserves (\<lambda>s. I (sv_db s)) (os_call f)"
  by (auto simp: preserves_def os_call_def Let_def split: prod.splits)

lemma backup_keeps [sys_rules]:
  "preserves (server_inv wb) (BackupService_TakeFull s)" "preserves (server_inv wb) (BackupService_TakeIncremental s)"
proof -
  have dump: "preserves J (dump_tables since tables)" for J since tables
    by (induction tables) (auto simp: dumpTable_def intro!: store_rules)
  have take: "preserves (server_inv wb) (BackupService_take s kind since)" for kind since
    unfolding BackupService_take_def write_file_def Let_def
    by (intro store_rules sys_rules on_db_preserves dump os_call_keeps) auto
  show "preserves (server_inv wb) (BackupService_TakeFull s)" "preserves (server_inv wb) (BackupService_TakeIncremental s)"
    unfolding BackupService_TakeFull_def BackupService_TakeIncremental_def backups_LastSuccessful_def
    by (intro store_rules take on_db_preserves)+
qed

lemma admin_handlers_keep [sys_rules]:
  "preserves (server_inv wb) (AdminHandler_CacheStats wb req)" "preserves (server_inv wb) (AdminHandler_CachePurge wb req)"
  "preserves (server_inv wb) (AdminHandler_BackupFull wb req)" "preserves (server_inv wb) (AdminHandler_BackupIncremental wb req)"
  unfolding AdminHandler_CacheStats_def AdminHandler_CachePurge_def AdminHandler_BackupFull_def AdminHandler_BackupIncremental_def
  by (intro sys_rules store_rules)+

text \<open>A target works if its handler does: always, or for a request that carries a user (\<open>auth\<close>).\<close>

definition target_works :: "web \<Rightarrow> bool \<Rightarrow> target \<Rightarrow> bool" where
  "target_works wb auth t \<longleftrightarrow>
     (\<forall>param req. (auth \<longrightarrow> rq_User req \<noteq> None) \<longrightarrow> works (server_inv wb) (run_target wb param t req))"

lemma on_db_works:
  assumes "works I m" shows "works (\<lambda>s :: ('a, 'b) server. I (sv_db s)) (on_db m)"
proof -
  have "answers (\<lambda>s :: ('a, 'b) server. I (sv_db s)) (on_db m)"
    unfolding answers_def
  proof (intro allI impI)
    fix w :: "('a, 'b) server world"
    assume "I (sv_db (store w))"
    then obtain resp w' where "m (with_store (sv_db (store w)) w) = (Inr resp, w')" "good_status (rs_Status resp)"
      using assms answersD [of I m "with_store (sv_db (store w)) w"] by (auto simp: works_def)
    then show "\<exists>resp w'. on_db m w = (Inr resp, w') \<and> good_status (rs_Status resp)" by (simp add: on_db_run)
  qed
  then show ?thesis using assms on_db_preserves by (auto simp: works_def)
qed

lemma targets_work:
  "(\<And>param req. preserves (site_inv wb) (h wb param req)) \<Longrightarrow> (\<And>param req. always (h wb param req)) \<Longrightarrow>
     target_works wb False (Handler h)"
  "(\<And>req. preserves (server_inv wb) (e wb req)) \<Longrightarrow> (\<And>req. always (e wb req)) \<Longrightarrow> target_works wb True (ServerHandler e)"
  "(\<And>param req. preserves (site_inv wb) (h wb param req)) \<Longrightarrow> (\<And>param req. rq_User req \<noteq> None \<Longrightarrow> always (h wb param req)) \<Longrightarrow>
     target_works wb True (Handler h)"
  "(\<And>param req. preserves (site_inv wb) (h wb param req)) \<Longrightarrow> (\<And>param req. rq_User req \<noteq> None \<Longrightarrow> always (h wb param req)) \<Longrightarrow>
     target_works wb True (Idempotent h)"
  by (auto simp: target_works_def works_def [of "site_inv wb"] answers_weaken intro!: on_db_works idempotency_works)
    (simp add: works_def answers_weaken)

lemma table_works:
  assumes "0 < LockoutThreshold (wb_auth wb)"
  shows "list_all (\<lambda>(mp, ms, t). target_works wb (Must \<in> set ms) t) routes"
  unfolding routes_def page_routes_def account_routes_def booking_routes_def group_routes_def document_routes_def
    governance_routes_def admin_routes_def
  by (simp, intro conjI targets_work sys_rules answer_rules assms; assumption)

text \<open>The middleware in front of a target works, and puts a user in the request that gets past \<open>Must\<close>.\<close>

lemma middleware_works:
  "(\<not> required \<Longrightarrow> works (server_inv wb) (next req)) \<Longrightarrow> (\<And>u. works (server_inv wb) (next (req\<lparr>rq_User := Some u\<rparr>))) \<Longrightarrow>
     0 < LockoutThreshold (wb_auth wb) \<Longrightarrow> works (server_inv wb) (Authenticator wb required next req)"
  "works (server_inv wb) (next req) \<Longrightarrow> works (server_inv wb) (RequirePasswordRotated wb next req)"
  "works (server_inv wb) (next req) \<Longrightarrow> works (server_inv wb) (RequireNotBlacklisted wb next req)"
  "works (server_inv wb) (next req) \<Longrightarrow> works (server_inv wb) (RequireAdmin wb next req)"
  "works (server_inv wb) (next req) \<Longrightarrow> works (server_inv wb) (ReadThroughCache Cache_Get (Cache_Set ttl) next req)"
proof -
  let ?I = "server_inv wb"
  show "works ?I (Authenticator wb required next req)"
    if "\<not> required \<Longrightarrow> works ?I (next req)" "\<And>u. works ?I (next (req\<lparr>rq_User := Some u\<rparr>))" "0 < LockoutThreshold (wb_auth wb)"
    using that unfolding Authenticator_def Let_def works_def
    by (intro conjI) (intro store_rules sys_rules answer_rules on_db_preserves; simp)+
  show "works ?I (RequirePasswordRotated wb next req)" "works ?I (RequireNotBlacklisted wb next req)" "works ?I (RequireAdmin wb next req)"
    if "works ?I (next req)"
    using that unfolding RequirePasswordRotated_def RequireNotBlacklisted_def RequireAdmin_def works_def
    by (intro conjI store_rules sys_rules answer_rules; simp)+
  show "works ?I (ReadThroughCache Cache_Get (Cache_Set ttl) next req)" if ok: "works ?I (next req)"
  proof -
    have miss: "answers ?I (with_header (''X-Cache'', ''MISS'') (next req))"
      using ok by (simp add: works_def answers_with_header)
    have store: "always (if 200 \<le> rs_Status resp \<and> rs_Status resp < 300 \<and> has_prefix (rs_Body resp) ''{''
        then bindE (Cache_Set ttl (cache_key req) (rs_Body resp)) (\<lambda>_. ret resp) else ret resp)" if "good_status (rs_Status resp)" for resp
      using that by (intro answer_rules)
    show ?thesis
      using ok unfolding ReadThroughCache_def works_def
      by (intro conjI) ((intro store_rules sys_rules answer_rules answers_then [OF miss store]; simp add: cached_response_def answer_rules)+)
  qed
qed

lemma chain_works:
  assumes "0 < LockoutThreshold (wb_auth wb)" and "target_works wb auth t"
    and "auth \<longrightarrow> Must \<in> set ms \<or> rq_User req \<noteq> None"
  shows "works (server_inv wb) (run_chain wb param ms t req)"
  using assms(3)
proof (induction ms arbitrary: req)
  case Nil
  then show ?case using assms(2) by (simp add: target_works_def)
next
  case (Cons m ms)
  show ?case
    by (cases m) (use Cons assms(1) in \<open>auto intro!: middleware_works\<close>)
qed

text \<open>A request that a route takes needs no recovery.\<close>

lemma routed:
  assumes "0 < LockoutThreshold (wb_auth wb)" and "map_of routes mp = Some (ms, t)"
  shows "works (server_inv wb) (run_chain wb param ms t req)"
  using table_works [OF assms(1)] map_of_SomeD [OF assms(2)] by (auto simp: list_all_iff intro!: chain_works [OF assms(1)])

lemma serve_keeps:
  assumes "0 < LockoutThreshold (wb_auth wb)"
  shows "preserves (server_inv wb) (serve wb req)"
  unfolding serve_def Recovery_def
  using routed [OF assms] by (auto simp: works_def intro!: store_rules sys_rules split: option.splits)

section \<open>Jobs and seeding\<close>

lemma aggregation_keeps: "preserves (site_inv wb) AnalyticsService_RunAggregation" "preserves (site_inv wb) (AnalyticsService_RunAnomalyDetection s)"
  by (intro sys_rules)+

lemma jobs_keep:
  assumes "j \<in> set (main_jobs wb)"
  shows "preserves (server_inv wb) (runOnce j)"
proof -
  have "list_all (\<lambda>j. preserves (server_inv wb) (j_Run j)) (main_jobs wb)"
    unfolding main_jobs_def by (simp, intro conjI on_db_preserves store_rules sys_rules)
  then have "preserves (server_inv wb) (j_Run j)" using assms by (simp add: list_all_iff)
  then show ?thesis unfolding runOnce_def by (intro store_rules)
qed

lemma insert_groups_keep: "insert_groups_unless_there gs d = Some d' \<Longrightarrow> sys_inv cap cfg d \<Longrightarrow> sys_inv cap cfg d'"
  by (induction gs arbitrary: d) (auto simp: sys_inv_def split: if_splits)

lemma insert_resources_keep: "insert_resources_unless_there rs d = Some d' \<Longrightarrow> sys_inv cap cfg d \<Longrightarrow> sys_inv cap cfg d'"
proof (induction rs arbitrary: d)
  case (Cons r rs)
  have "resource_insertable d r \<Longrightarrow> sys_inv cap cfg (d\<lparr>resources := resources d @ [r]\<rparr>)"
    using Cons.prems(2) by (simp add: sys_inv_def booking_inv_resource)
  then show ?case using Cons by (auto split: if_splits)
qed simp

lemma seed_keeps [sys_rules]: "preserves (sys_inv cap cfg) (Seed (\<lambda>_. seed_sql) file)"
  unfolding Seed_def
  by (intro store_rules preserves_sql)
    (auto simp: seed_sql_def bind_eq_Some_conv intro: insert_groups_keep insert_resources_keep split: option.splits)

lemma make_account_keeps [sys_rules]:
  "0 < LockoutThreshold cfg \<Longrightarrow> preserves (sys_inv cap cfg) (make_account env cfg' name password admin mustRotate)"
  unfolding make_account_def
  by (intro store_rules sys_rules readonly_preserves [OF hash_password_readonly]) (simp add: seeded_user_def new_user_def)

lemma promote_keeps [sys_rules]: "preserves (sys_inv cap cfg) (promote admin u)"
  unfolding promote_def by (intro store_rules sys_rules)

lemma set_cache_keeps [sys_rules]: "preserves (\<lambda>s. I (sv_db s)) (set_cache g)"
  by (simp add: preserves_def set_cache_def)

lemma bootstrap_keeps:
  assumes "0 < LockoutThreshold cfg" "secret_writer_ok write"
  shows "preserves (\<lambda>s. sys_inv cap cfg (sv_db s)) (bootstrap env cfg write c)"
proof -
  have "preserves (\<lambda>s. sys_inv cap cfg (sv_db s)) (write p t)" for p t
    using assms(2) by (auto simp: preserves_def secret_writer_ok_def) (metis prod.collapse)
  then show ?thesis
    unfolding bootstrap_def seedAdminUser_def seedDemoUsers_def seed_account_def generateInitialPassword_def users_GetByUsername_def
    by (intro store_rules sys_rules on_db_preserves preserves_for_each_or_return assms(1))
qed

section \<open>The site\<close>

inductive site_step ::
  "web \<Rightarrow> (cache, backup_file) server world \<Rightarrow> (cache, backup_file) server world \<Rightarrow> bool"
  for wb :: web where
  request: "serve wb req w = (r, w') \<Longrightarrow> site_step wb w w'"
| job: "j \<in> set (main_jobs wb) \<Longrightarrow> runOnce j w = (r, w') \<Longrightarrow> site_step wb w w'"
| collect: "Cache_gc w = (r, w') \<Longrightarrow> site_step wb w w'"

inductive_cases site_stepE: "site_step wb w w'"

lemma site_step_keeps:
  assumes "site_step wb w w'" "0 < LockoutThreshold (wb_auth wb)" "server_inv wb (store w)"
  shows "server_inv wb (store w')"
  using assms(1)
  by (rule site_stepE)
    (use preservesD [OF serve_keeps [OF assms(2)]] preservesD [OF jobs_keep] preservesD [OF cache_keeps(5)] assms(3) in blast)+

end
