(* ===== verification/Restore.thy ===== *)
theory Restore
  imports Startup
begin

text \<open>
  What the chain of backups written by \<open>service/backup.go\<close> can restore. An incremental export relies on
  \<open>updated_at\<close>; the first part looks at every statement of the repositories that writes one of the six
  tables with that column, and finds which changes leave it alone; the second part follows a full backup,
  any sequence of such writes, and the next incremental.
\<close>

section \<open>Actions after an instant\<close>

text \<open>
  \<open>keeps_after t I m\<close>: in a world whose clock shows instants after \<open>t\<close> only, \<open>m\<close> keeps the
  invariant \<open>I\<close> of the store, whatever statements fail.
\<close>

definition keeps_after :: "time \<Rightarrow> (db \<Rightarrow> bool) \<Rightarrow> 'a action \<Rightarrow> bool" where
  "keeps_after t I m \<longleftrightarrow> (\<forall>w r w'. m w = (r, w') \<longrightarrow> (\<forall>k. t < clock w k) \<longrightarrow>
     clock w' = clock w \<and> (I (store w) \<longrightarrow> I (store w')))"

named_theorems after_rules

lemma after_basic [after_rules]:
  "keeps_after t I (ret x)" "keeps_after t I (fail e)" "keeps_after t I new_uuid" "keeps_after t I (query f)"
  by (auto simp: keeps_after_def ret_def fail_def new_uuid_def query_def sql_def Let_def split: sum.splits)

lemma after_sql [after_rules]:
  "(\<And>n d x d'. \<lbrakk>t < n; I d; f n d = Inr (x, d')\<rbrakk> \<Longrightarrow> I d') \<Longrightarrow> keeps_after t I (sql f)"
  unfolding keeps_after_def sql_def Let_def by (auto split: if_splits sum.splits) blast

lemma after_attempt:
  assumes "keeps_after t I m" and "\<And>r. keeps_after t I (k r)"
  shows "keeps_after t I (attempt m k)"
  using assms unfolding keeps_after_def attempt_def by (auto split: prod.splits)

lemma after_bindE [after_rules]:
  "keeps_after t I m \<Longrightarrow> (\<And>x. keeps_after t I (k x)) \<Longrightarrow> keeps_after t I (bindE m k)"
  unfolding bindE_attempt by (rule after_attempt) (auto split: sum.splits intro: after_basic)

lemma after_now:
  assumes "\<And>n. t < n \<Longrightarrow> keeps_after t I (k n)"
  shows "keeps_after t I (bindE now k)"
  unfolding keeps_after_def
proof (intro allI impI)
  fix w r w' assume run: "bindE now k w = (r, w')" and clk: "\<forall>j. t < clock w j"
  let ?w = "w\<lparr>readings := Suc (readings w)\<rparr>"
  have "k (clock w (readings w)) ?w = (r, w')" using run by (simp add: bindE_def now_def)
  then have "clock w' = clock ?w \<and> (I (store ?w) \<longrightarrow> I (store w'))"
    using assms clk unfolding keeps_after_def by fastforce
  then show "clock w' = clock w \<and> (I (store w) \<longrightarrow> I (store w'))" by simp
qed

lemma after_if [after_rules]:
  "\<lbrakk>keeps_after t I m; keeps_after t I m'\<rbrakk> \<Longrightarrow> keeps_after t I (if c then m else m')"
  by simp

lemma after_prod [after_rules]: "(\<And>x y. keeps_after t I (k x y)) \<Longrightarrow> keeps_after t I (case p of (x, y) \<Rightarrow> k x y)"
  by (simp split: prod.splits)

lemma after_transaction [after_rules]:
  assumes "keeps_after t I m" shows "keeps_after t I (transaction m)"
proof -
  have b: "keeps_after t I (bindE (sql (\<lambda>_ d. Inr ((), d))) (\<lambda>_. bindE m (\<lambda>x. bindE (sql (\<lambda>_ d. Inr ((), d))) (\<lambda>_. ret x))))"
    by (intro after_rules assms) auto
  show ?thesis
    unfolding keeps_after_def transaction_def Let_def
    using b [unfolded keeps_after_def, rule_format] by (auto split: prod.splits sum.splits)
qed

section \<open>What the incremental export can miss\<close>

text \<open>
  A row is accounted for when it was changed after the backup, or is the row of the backup, or is that
  row after a foreign key of it was set to NULL.
\<close>

definition accounted :: "time \<Rightarrow> ('r \<Rightarrow> time) \<Rightarrow> ('r \<Rightarrow> 'r \<Rightarrow> bool) \<Rightarrow> 'r list \<Rightarrow> 'r list \<Rightarrow> bool" where
  "accounted t stamp lost old rows \<longleftrightarrow>
     (\<forall>r \<in> set rows. t < stamp r \<or> r \<in> set old \<or> (\<exists>r0 \<in> set old. lost r0 r))"

lemma accounted_same: "accounted t stamp lost rows rows"
  by (simp add: accounted_def)

lemma accounted_snoc: "accounted t stamp lost old rows \<Longrightarrow> t < stamp r \<Longrightarrow> accounted t stamp lost old (rows @ [r])"
  by (auto simp: accounted_def)

lemma accounted_stamped:
  "accounted t stamp lost old rows \<Longrightarrow> (\<And>r. t < stamp (f r)) \<Longrightarrow> accounted t stamp lost old (update_where p f rows)"
  by (auto simp: accounted_def set_update_where)

lemma accounted_fewer: "accounted t stamp lost old rows \<Longrightarrow> accounted t stamp lost old (delete_where p rows)"
  by (auto simp: accounted_def)

lemma accounted_lost:
  assumes "accounted t stamp lost old rows"
    and "\<And>r. p r \<Longrightarrow> lost r (f r)" "\<And>r. stamp (f r) = stamp r" "\<And>r0 r. lost r0 r \<Longrightarrow> \<not> p r"
  shows "accounted t stamp lost old (update_where p f rows)"
  unfolding accounted_def
proof
  fix r assume "r \<in> set (update_where p f rows)"
  then obtain x where x: "x \<in> set rows" "r = (if p x then f x else x)" by (auto simp: set_update_where)
  then show "t < stamp r \<or> r \<in> set old \<or> (\<exists>r0 \<in> set old. lost r0 r)"
    using assms unfolding accounted_def by (cases "p x") force+
qed

definition lost_group :: "booking \<Rightarrow> booking \<Rightarrow> bool" where
  "lost_group b0 b \<longleftrightarrow> b_GroupID b0 \<noteq> None \<and> b = b0\<lparr>b_GroupID := None\<rparr>"

definition lost_organizer :: "group_buy \<Rightarrow> group_buy \<Rightarrow> bool" where
  "lost_organizer g0 g \<longleftrightarrow> gb_OrganizerID g0 \<noteq> None \<and> g = g0\<lparr>gb_OrganizerID := None\<rparr>"

definition lost_host :: "group_reservation \<Rightarrow> group_reservation \<Rightarrow> bool" where
  "lost_host g0 g \<longleftrightarrow> g_OrganizerID g0 \<noteq> None \<and> g = g0\<lparr>g_OrganizerID := None\<rparr>"

definition covered :: "time \<Rightarrow> db \<Rightarrow> db \<Rightarrow> bool" where
  "covered t d0 d \<longleftrightarrow>
     accounted t u_UpdatedAt (\<lambda>_ _. False) (users d0) (users d) \<and>
     accounted t b_UpdatedAt lost_group (bookings d0) (bookings d) \<and>
     accounted t g_UpdatedAt lost_host (group_reservations d0) (group_reservations d) \<and>
     accounted t gb_UpdatedAt lost_organizer (group_buys d0) (group_buys d) \<and>
     accounted t d_UpdatedAt (\<lambda>_ _. False) (documents d0) (documents d) \<and>
     accounted t t_UpdatedAt (\<lambda>_ _. False) (todos d0) (todos d)"

lemma covered_same: "covered t d d"
  by (simp add: covered_def accounted_same)

lemmas accounted_rules = accounted_snoc accounted_stamped accounted_fewer

lemma organizer_lost:
  "accounted t gb_UpdatedAt lost_organizer old rows \<Longrightarrow>
   accounted t gb_UpdatedAt lost_organizer old (update_where (\<lambda>x. gb_OrganizerID x = Some u) (\<lambda>x. x\<lparr>gb_OrganizerID := None\<rparr>) rows)"
  by (rule accounted_lost) (auto simp: lost_organizer_def)

lemma host_lost:
  "accounted t g_UpdatedAt lost_host old rows \<Longrightarrow>
   accounted t g_UpdatedAt lost_host old (update_where (\<lambda>x. g_OrganizerID x = Some u) (\<lambda>x. x\<lparr>g_OrganizerID := None\<rparr>) rows)"
  by (rule accounted_lost) (auto simp: lost_host_def)

lemma group_lost:
  "accounted t b_UpdatedAt lost_group old rows \<Longrightarrow>
   accounted t b_UpdatedAt lost_group old (update_where (\<lambda>b. b_GroupID b = Some i) (\<lambda>b. b\<lparr>b_GroupID := None\<rparr>) rows)"
  by (rule accounted_lost) (auto simp: lost_group_def)

text \<open>Every method of the repositories that writes one of the six tables keeps them accounted for.\<close>

abbreviation (input) accounts :: "time \<Rightarrow> db \<Rightarrow> 'a action \<Rightarrow> bool" where
  "accounts t d0 m \<equiv> keeps_after t (covered t d0) m"

lemma users_accounted:
  "accounts t d0 (users_Create u)" "accounts t d0 (users_SetAdmin i admin)" "accounts t d0 (users_RecordFailedLogin i l)"
  "accounts t d0 (users_ResetFailedLogin i n)" "accounts t d0 (users_SetBlacklist i b reason)"
  "accounts t d0 (users_SetMustRotatePassword i b)" "accounts t d0 (users_UpdatePasswordHash i h)" "accounts t d0 (users_HardDelete i)"
  unfolding users_Create_def users_SetAdmin_def users_RecordFailedLogin_def users_ResetFailedLogin_def users_SetBlacklist_def
    users_SetMustRotatePassword_def users_UpdatePasswordHash_def users_HardDelete_def delete_user_row_def Let_def
  by - (intro after_now after_rules; auto simp: covered_def split: if_splits intro!: accounted_rules organizer_lost host_lost)+

lemma bookings_accounted:
  "accounts t d0 (bookings_Create b)" "accounts t d0 (bookings_UpdateStatus i st)" "accounts t d0 (bookings_Delete i)"
  unfolding bookings_Create_def bookings_UpdateStatus_def bookings_Delete_def Let_def
  by - (intro after_now after_rules; auto simp: covered_def split: if_splits booking_status.splits intro!: accounted_rules)+

lemma groups_accounted:
  "accounts t d0 (groups_Create g)" "accounts t d0 (groups_Update g)" "accounts t d0 (groups_Delete i)"
  unfolding groups_Create_def groups_Update_def groups_Delete_def Let_def
  by - (intro after_now after_rules; auto simp: covered_def split: if_splits intro!: accounted_rules group_lost)+

lemma groupbuys_accounted:
  "accounts t d0 (groupbuys_Create status g)" "accounts t d0 (groupbuys_JoinAtomic i u q)"
  "accounts t d0 (groupbuys_MarkFailedAndReleaseSlots i)" "accounts t d0 (groupbuys_UpdateStatus i st)"
  unfolding groupbuys_Create_def groupbuys_JoinAtomic_def groupbuys_MarkFailedAndReleaseSlots_def groupbuys_UpdateStatus_def
    join_read_def groupbuys_Get_def join_write_def join_decrement_def participant_insert_def take_slots_def release_slots_def Let_def
  by - (intro after_now after_rules; auto simp: covered_def split: if_splits option.splits intro!: accounted_rules)+

lemma documents_accounted:
  "accounts t d0 (documents_Create x)" "accounts t d0 (documents_AppendRevision i content ctype)"
  "accounts t d0 (CreateDocumentWithFirstRevision x content ctype)"
  unfolding documents_Create_def documents_AppendRevision_def CreateDocumentWithFirstRevision_def insert_document_def
    insert_revision_def supersede_def bump_revision_def Let_def
  by - (intro after_now after_rules; auto simp: covered_def split: if_splits intro!: accounted_rules)+

lemma todos_accounted:
  "accounts t d0 (notifications_CreateTodo js x)" "accounts t d0 (notifications_UpdateTodoStatus u i st)"
  unfolding notifications_CreateTodo_def notifications_UpdateTodoStatus_def Let_def
  by - (intro after_now after_rules; auto simp: covered_def split: if_splits option.splits intro!: accounted_rules)+

lemma seeds_accounted: "covered t d0 d \<Longrightarrow> t < n \<Longrightarrow> seed_sql n d = Some d' \<Longrightarrow> covered t d0 d'"
proof -
  have "covered t d0 (d\<lparr>resources := rs\<rparr>) = covered t d0 d" for d rs
    by (simp add: covered_def)
  then have rs: "covered t d0 d \<Longrightarrow> insert_resources_unless_there rs d = Some d' \<Longrightarrow> covered t d0 d'" for rs d d'
    by (induction rs arbitrary: d) (auto split: if_splits)
  have gs: "covered t d0 d \<Longrightarrow> list_all (\<lambda>g. t < g_UpdatedAt g) gs \<Longrightarrow> insert_groups_unless_there gs d = Some d' \<Longrightarrow> covered t d0 d'"
    for gs d d'
  proof (induction gs arbitrary: d)
    case (Cons g gs)
    have "covered t d0 (d\<lparr>group_reservations := group_reservations d @ [g]\<rparr>)"
      using Cons.prems by (simp add: covered_def accounted_snoc)
    then show ?case using Cons by (auto split: if_splits)
  qed simp
  assume "covered t d0 d" "t < n" "seed_sql n d = Some d'"
  moreover from \<open>t < n\<close> have "list_all (\<lambda>g. t < g_UpdatedAt g) (seed_groups n)"
    by (simp add: seed_groups_def)
  ultimately show "covered t d0 d'"
    unfolding seed_sql_def bind_eq_Some_conv using rs gs by blast
qed

section \<open>Writes after a backup\<close>

text \<open>
  The database changes by the methods of the repositories, run at any time after the backup, with any
  arguments and any failures; by the rows of \<open>seed/seed.sql\<close> when a process starts; and in any way that
  leaves the six tables with \<open>updated_at\<close> alone.
\<close>

definition run_after :: "time \<Rightarrow> 'a action \<Rightarrow> db \<Rightarrow> db \<Rightarrow> bool" where
  "run_after t m d d' \<longleftrightarrow> (\<exists>w r w'. store w = d \<and> (\<forall>k. t < clock w k) \<and> m w = (r, w') \<and> store w' = d')"

definition dated_tables ::
    "db \<Rightarrow> user list \<times> booking list \<times> group_reservation list \<times> group_buy list \<times> document list \<times> todo list" where
  "dated_tables d = (users d, bookings d, group_reservations d, group_buys d, documents d, todos d)"

inductive later_write :: "time \<Rightarrow> db \<Rightarrow> db \<Rightarrow> bool" for t where
  user_created: "run_after t (users_Create u) d d' \<Longrightarrow> later_write t d d'"
| admin_set: "run_after t (users_SetAdmin i admin) d d' \<Longrightarrow> later_write t d d'"
| login_failed: "run_after t (users_RecordFailedLogin i l) d d' \<Longrightarrow> later_write t d d'"
| login_reset: "run_after t (users_ResetFailedLogin i n) d d' \<Longrightarrow> later_write t d d'"
| blacklist_set: "run_after t (users_SetBlacklist i blocked reason) d d' \<Longrightarrow> later_write t d d'"
| rotation_set: "run_after t (users_SetMustRotatePassword i must) d d' \<Longrightarrow> later_write t d d'"
| password_set: "run_after t (users_UpdatePasswordHash i h) d d' \<Longrightarrow> later_write t d d'"
| user_deleted: "run_after t (users_HardDelete i) d d' \<Longrightarrow> later_write t d d'"
| booking_created: "run_after t (bookings_Create b) d d' \<Longrightarrow> later_write t d d'"
| booking_status: "run_after t (bookings_UpdateStatus i st) d d' \<Longrightarrow> later_write t d d'"
| booking_deleted: "run_after t (bookings_Delete i) d d' \<Longrightarrow> later_write t d d'"
| group_created: "run_after t (groups_Create g) d d' \<Longrightarrow> later_write t d d'"
| group_updated: "run_after t (groups_Update g) d d' \<Longrightarrow> later_write t d d'"
| group_deleted: "run_after t (groups_Delete i) d d' \<Longrightarrow> later_write t d d'"
| group_buy_created: "run_after t (groupbuys_Create status gb) d d' \<Longrightarrow> later_write t d d'"
| group_buy_joined: "run_after t (groupbuys_JoinAtomic i u q) d d' \<Longrightarrow> later_write t d d'"
| group_buy_failed: "run_after t (groupbuys_MarkFailedAndReleaseSlots i) d d' \<Longrightarrow> later_write t d d'"
| group_buy_status: "run_after t (groupbuys_UpdateStatus i st) d d' \<Longrightarrow> later_write t d d'"
| document_created: "run_after t (documents_Create x) d d' \<Longrightarrow> later_write t d d'"
| revision_appended: "run_after t (documents_AppendRevision i content ctype) d d' \<Longrightarrow> later_write t d d'"
| document_with_revision: "run_after t (CreateDocumentWithFirstRevision x content ctype) d d' \<Longrightarrow> later_write t d d'"
| todo_created: "run_after t (notifications_CreateTodo js y) d d' \<Longrightarrow> later_write t d d'"
| todo_status: "run_after t (notifications_UpdateTodoStatus u i ts) d d' \<Longrightarrow> later_write t d d'"
| seeded: "t < n \<Longrightarrow> seed_sql n d = Some d' \<Longrightarrow> later_write t d d'"
| elsewhere: "dated_tables d' = dated_tables d \<Longrightarrow> later_write t d d'"

lemma run_after_keeps: "run_after t m d d' \<Longrightarrow> keeps_after t I m \<Longrightarrow> I d \<Longrightarrow> I d'"
  unfolding run_after_def keeps_after_def by blast

lemma write_covered: "later_write t d d' \<Longrightarrow> covered t d0 d \<Longrightarrow> covered t d0 d'"
proof (induction rule: later_write.induct)
  case (seeded n d d')
  then show ?case by (auto intro: seeds_accounted)
next
  case (elsewhere d' d)
  then show ?case by (simp add: dated_tables_def covered_def)
qed (blast intro: run_after_keeps users_accounted bookings_accounted groups_accounted groupbuys_accounted
    documents_accounted todos_accounted)+

lemma writes_covered: "(later_write t)\<^sup>*\<^sup>* d d' \<Longrightarrow> covered t d d'"
  by (induction rule: rtranclp_induct) (auto intro: covered_same write_covered)

section \<open>The chain of a restore\<close>

definition chain_rows :: "(string \<Rightarrow> backup_file option) \<Rightarrow> backup list \<Rightarrow> string \<Rightarrow> table_row list" where
  "chain_rows files plan table = concat (map (\<lambda>b. case files (bk_Path b) of
     None \<Rightarrow> [] | Some f \<Rightarrow> (case map_of (bf_tables f) table of None \<Rightarrow> [] | Some rows \<Rightarrow> rows)) plan)"

lemma snapshot_rows:
  "table \<in> set backupTables \<Longrightarrow>
   map_of (bf_tables (snapshot_of kind t since d)) table = Some (filter (newer_row table since) (rows_of d table))"
  by (simp add: snapshot_of_def Let_def dump_of_def map_of_map_restrict)

lemma full_rows: "newer_row table zero_time r"
  by (simp add: newer_row_def)

lemma kinds_apart: "backup_path s ''full'' t \<noteq> backup_path s ''incremental'' t'"
  by (simp add: backup_path_def)

lemma newest_snoc:
  assumes "list_all (\<lambda>x. bk_TakenAt x < bk_TakenAt b) bs"
  shows "newest (bs @ [b]) = Some b"
proof -
  obtain x xs where x: "order_desc bk_TakenAt (bs @ [b]) = x # xs"
    by (metis append_is_Nil_conv list.exhaust not_Cons_self2 set_empty set_order_desc)
  then have s: "sorted (map (\<lambda>r. - bk_TakenAt r) (x # xs))"
    by (metis order_desc_def sorted_sort_key)
  have mem: "set (x # xs) = set bs \<union> {b}"
    by (metis Un_insert_right empty_set list.simps(15) set_append set_order_desc x)
  then have "bk_TakenAt b \<le> bk_TakenAt x" using s by auto
  moreover have "x \<in> set bs \<union> {b}" using mem by auto
  ultimately have "x = b" using assms by (auto simp: list_all_iff)
  with x show ?thesis by (simp add: newest_def)
qed

text \<open>The row of the chain that lacks only a reference which the database has since set to NULL.\<close>

fun lost_reference :: "table_row \<Rightarrow> table_row \<Rightarrow> bool" where
  "lost_reference (BookingRow b0) (BookingRow b) = lost_group b0 b"
| "lost_reference (GroupRow g0) (GroupRow g) = lost_host g0 g"
| "lost_reference (GroupBuyRow g0) (GroupBuyRow g) = lost_organizer g0 g"
| "lost_reference _ _ = False"

lemma dated_rows:
  "rows_of d ''users'' = map UserRow (users d)" "rows_of d ''bookings'' = map BookingRow (bookings d)"
  "rows_of d ''group_reservations'' = map GroupRow (group_reservations d)"
  "rows_of d ''group_buys'' = map GroupBuyRow (group_buys d)" "rows_of d ''documents'' = map DocumentRow (documents d)"
  "rows_of d ''todos'' = map TodoRow (todos d)"
  by (simp_all add: rows_of_def table_rows_def)

lemma covered_rows:
  assumes "covered t d0 d" and "tableHasUpdatedAt table" and "r \<in> set (rows_of d table)"
  shows "r \<in> set (rows_of d0 table) \<or> newer_row table t r \<or> (\<exists>r0 \<in> set (rows_of d0 table). lost_reference r0 r)"
proof -
  have "table \<in> {''users'', ''bookings'', ''group_reservations'', ''group_buys'', ''documents'', ''todos''}"
    using assms(2) by (auto simp: tableHasUpdatedAt_def)
  then show ?thesis
    using assms(1,3) unfolding covered_def accounted_def
    by (elim insertE emptyE) (simp only: dated_rows, fastforce simp: newer_row_def)+
qed

lemma undated_rows:
  assumes "r \<in> set (rows_of d table)" and "\<not> tableHasUpdatedAt table"
  shows "updated_at r = None"
proof -
  have "list_all (\<lambda>(name, rows). \<not> tableHasUpdatedAt name \<longrightarrow> list_all (\<lambda>r. updated_at r = None) rows) (table_rows d)"
    by (simp add: table_rows_def tableHasUpdatedAt_def list_all_iff)
  moreover obtain rows where "(table, rows) \<in> set (table_rows d)" "r \<in> set rows"
    using assms(1) unfolding rows_of_def by (cases "map_of (table_rows d) table") (auto dest: map_of_SomeD)
  ultimately show ?thesis
    using assms(2) by (fastforce simp: list_all_iff)
qed

text \<open>A full backup and the next one after it: the plan of the restore and what its two files hold.\<close>

lemma two_backups:
  assumes "calm w" and "calm w2" and "\<forall>n. clock w n \<noteq> zero_time \<and> clock w2 n \<noteq> zero_time"
    and "BackupService_TakeFull s w = (Inr b0, w1)"
    and "list_all (\<lambda>b. bk_TakenAt b < bk_TakenAt b0) (backups (sv_db (store w)))"
    and "sv_files (store w2) = sv_files (store w1)" and "backups (sv_db (store w2)) = backups (sv_db (store w1))"
    and "BackupService_TakeIncremental s w2 = (Inr b1, w3)" and "bk_TakenAt b0 < bk_TakenAt b1"
  shows "\<exists>w4. on_db BackupService_PlanRestore w3 = (Inr [b0, b1], w4)"
    and "dated_tables (sv_db (store w1)) = dated_tables (sv_db (store w))"
    and "table \<in> set backupTables \<Longrightarrow> chain_rows (sv_files (store w3)) [b0, b1] table =
      rows_of (sv_db (store w)) table @ filter (newer_row table (bk_TakenAt b0)) (rows_of (sv_db (store w2)) table)"
    and "table \<in> set backupTables \<Longrightarrow> chain_rows (sv_files (store w3)) [b1] table =
      filter (newer_row table (bk_TakenAt b0)) (rows_of (sv_db (store w2)) table)"
    and "bk_TakenAt b0 \<noteq> zero_time"
proof -
  let ?d = "sv_db (store w)" and ?d2 = "sv_db (store w2)" and ?t = "bk_TakenAt b0"
  have b0: "bk_Kind b0 = ''full''" "bk_Path b0 = backup_path s ''full'' ?t" "?t = clock w (readings w)"
    and s1: "store w1 = (store w)\<lparr>sv_db := ?d\<lparr>backups := backups ?d @ [b0]\<rparr>,
      sv_files := (sv_files (store w))(bk_Path b0 \<mapsto> snapshot_of ''full'' ?t zero_time ?d)\<rparr>"
    using take_calm [OF assms(1), of s "''full''" zero_time b0 w1] assms(3,4) by (auto simp: BackupService_TakeFull_def)
  show "dated_tables (sv_db (store w1)) = dated_tables ?d"
    using s1 by (simp add: dated_tables_def)
  let ?w = "w2\<lparr>readings := Suc (readings w2), stmts := Suc (stmts w2)\<rparr>"
  have bs: "backups ?d2 = backups ?d @ [b0]" using assms(7) s1 by simp
  then have "on_db backups_LastSuccessful w2 = (Inr b0, ?w)"
    using assms(2) newest_snoc [OF assms(5)] by (simp add: backups_LastSuccessful_def on_db_query_calm)
  then have "BackupService_take s ''incremental'' ?t ?w = (Inr b1, w3)"
    using assms(8) by (simp add: BackupService_TakeIncremental_def attempt_def)
  from take_calm [OF _ this] have b1: "bk_Kind b1 = ''incremental''" "bk_Path b1 = backup_path s ''incremental'' (bk_TakenAt b1)"
    and s3: "store w3 = (store w2)\<lparr>sv_db := ?d2\<lparr>backups := backups ?d2 @ [b1]\<rparr>,
      sv_files := (sv_files (store w2))(bk_Path b1 \<mapsto> snapshot_of ''incremental'' (bk_TakenAt b1) ?t ?d2)\<rparr>"
    and c3: "calm w3"
    using assms(2,3) by auto
  have "list_all (\<lambda>b. bk_TakenAt b < ?t) (filter (\<lambda>b. bk_Kind b = ''full'') (backups ?d))"
    using assms(5) by (auto simp: list_all_iff)
  from newest_snoc [OF this] have full: "newest (filter (\<lambda>b. bk_Kind b = ''full'') (backups (sv_db (store w3)))) = Some b0"
    using b0 b1 bs s3 by simp
  have "filter (incremental_after ?t) (backups (sv_db (store w3))) = [b1]"
    using assms(5,9) b0 b1 bs s3 by (auto simp: incremental_after_def list_all_iff filter_empty_conv)
  then show "\<exists>w4. on_db BackupService_PlanRestore w3 = (Inr [b0, b1], w4)"
    using c3 full by (simp add: on_db_def BackupService_PlanRestore_def backups_LastFull_def backups_IncrementalsAfter_def
        query_calm attempt_def bindE_def ret_def order_asc_def)
  show "chain_rows (sv_files (store w3)) [b0, b1] table = rows_of ?d table @ filter (newer_row table ?t) (rows_of ?d2 table)"
    if "table \<in> set backupTables"
    using that assms(6) b0(2) b1(2) s1 s3 kinds_apart by (simp add: chain_rows_def snapshot_rows full_rows)
  show "chain_rows (sv_files (store w3)) [b1] table = filter (newer_row table ?t) (rows_of ?d2 table)"
    if "table \<in> set backupTables"
    using that s3 by (simp add: chain_rows_def snapshot_rows)
  show "?t \<noteq> zero_time"
    using assms(3) b0(3) by metis
qed

text \<open>
  C36. A full backup and the next incremental make a chain that lacks no row and forgets none. When the
  two backups are taken without a failing statement and the clocks go on, then whatever the repositories
  have written in between, the restore plan is the full backup followed by the incremental; in each
  of the twenty tables, every row the database has at the incremental is in one of the two files, and so is
  every row it had at the full backup, also those deleted since, such as the rows of erased users; and of the
  tables with \<open>updated_at\<close> the incremental repeats no row that has not changed. The
  one thing the chain can miss is a reference set to NULL by a foreign key, which leaves \<open>updated_at\<close>
  alone: then it holds the row as it was, with the organiser who was erased or the group that was
  deleted.
\<close>

theorem restore_chain_covers_and_keeps:
  assumes "calm w" and "calm w2" and "\<forall>n. clock w n \<noteq> zero_time \<and> clock w2 n \<noteq> zero_time"
    and "BackupService_TakeFull s w = (Inr b0, w1)"
    and "list_all (\<lambda>b. bk_TakenAt b < bk_TakenAt b0) (backups (sv_db (store w)))"
    and "(later_write (bk_TakenAt b0))\<^sup>*\<^sup>* (sv_db (store w1)) (sv_db (store w2))"
    and "sv_files (store w2) = sv_files (store w1)" and "backups (sv_db (store w2)) = backups (sv_db (store w1))"
    and "BackupService_TakeIncremental s w2 = (Inr b1, w3)" and "bk_TakenAt b0 < bk_TakenAt b1"
    and "table \<in> {''resources'', ''group_reservations'', ''users'', ''bookings'', ''group_buys'', ''group_buy_participants'',
       ''documents'', ''document_revisions'', ''notifications'', ''todos'', ''notification_deliveries'', ''data_dictionary'',
       ''tags'', ''taggings'', ''consent_records'', ''webhooks'', ''webhook_deliveries'', ''analytics_events'',
       ''analytics_hourly'', ''anomaly_alerts''}"
  shows "\<exists>w4. on_db BackupService_PlanRestore w3 = (Inr [b0, b1], w4) \<and>
    (\<forall>r \<in> set (rows_of (sv_db (store w2)) table).
       r \<in> set (chain_rows (sv_files (store w3)) [b0, b1] table) \<or>
       (\<exists>r0 \<in> set (chain_rows (sv_files (store w3)) [b0, b1] table). lost_reference r0 r)) \<and>
    set (rows_of (sv_db (store w)) table) \<subseteq> set (chain_rows (sv_files (store w3)) [b0, b1] table) \<and>
    (\<forall>r \<in> set (chain_rows (sv_files (store w3)) [b1] table). \<forall>u. updated_at r = Some u \<longrightarrow> bk_TakenAt b0 < u)"
proof -
  note two = two_backups [OF assms(1-5,7-10)]
  have table: "table \<in> set backupTables"
    using assms(11) by (simp add: backupTables_def)
  have "covered (bk_TakenAt b0) (sv_db (store w)) (sv_db (store w2))"
    using writes_covered [OF assms(6)] two(2) by (simp add: covered_def dated_tables_def)
  from covered_rows [OF this] have "r \<in> set (rows_of (sv_db (store w)) table) \<or> newer_row table (bk_TakenAt b0) r \<or>
      (\<exists>r0 \<in> set (rows_of (sv_db (store w)) table). lost_reference r0 r)" if "r \<in> set (rows_of (sv_db (store w2)) table)" for r
    using that by (cases "tableHasUpdatedAt table") (auto simp: newer_row_def)
  moreover have "bk_TakenAt b0 < u"
    if "r \<in> set (filter (newer_row table (bk_TakenAt b0)) (rows_of (sv_db (store w2)) table))" "updated_at r = Some u" for r u
    using that undated_rows [of r "sv_db (store w2)" table] two(5) by (cases "tableHasUpdatedAt table") (auto simp: newer_row_def)
  ultimately show ?thesis
    using two(1) unfolding two(3) [OF table] two(4) [OF table] by (simp add: Ball_def) blast
qed

text \<open>
  User 2, who organises a group buy, is erased between the two backups. The chain has the row of the user,
  and the group buy with the organiser; the row as it is now is in neither file.
\<close>

definition charter :: "uuid option \<Rightarrow> group_buy" where
  "charter u = \<lparr>gb_ID = 30, gb_ResourceID = 20, gb_OrganizerID = u, gb_Title = ''charter'', gb_Description = [],
     gb_Threshold = 2, gb_Capacity = 8, gb_RemainingSlots = 8, gb_StartsAt = 30 * hour, gb_EndsAt = 40 * hour,
     gb_Deadline = 26 * hour, gb_Status = GroupBuyOpen, gb_Version = 0, gb_CreatedAt = 0, gb_UpdatedAt = 0\<rparr>"

definition charter_server :: "(unit, backup_file) server world" where
  "charter_server = demo_server\<lparr>store := (store demo_server)\<lparr>sv_db := (sv_db (store demo_server))\<lparr>group_buys := [charter (Some 2)]\<rparr>\<rparr>\<rparr>"

definition a_day_later :: "(unit, backup_file) server world \<Rightarrow> (unit, backup_file) server world" where
  "a_day_later w = w\<lparr>store := (store w)\<lparr>sv_db := delete_user_row 2 (sv_db (store w))\<rparr>, clock := (\<lambda>_. 24 * hour), uuids := (\<lambda>_. 2)\<rparr>"

lemma erased_after:
  assumes "2 \<in> u_ID ` set (users d)" "t < t'"
  shows "later_write t d (delete_user_row 2 d)"
proof -
  have "users_HardDelete 2 (demo_world d t') = (Inr (), (demo_world d t')\<lparr>store := delete_user_row 2 d,
      readings := Suc (readings (demo_world d t')), stmts := Suc (stmts (demo_world d t'))\<rparr>)"
    using assms(1) by (auto simp: users_HardDelete_def sql_calm)
  then have "run_after t (users_HardDelete 2) d (delete_user_row 2 d)"
    unfolding run_after_def using assms(2) by (intro exI [of _ "demo_world d t'"]) auto
  then show ?thesis by (rule later_write.user_deleted)
qed

theorem restore_chain_covers_and_keeps_witness:
  "\<exists>b0 w1 b1 w3 w4. BackupService_TakeFull demo_backups charter_server = (Inr b0, w1) \<and>
     BackupService_TakeIncremental demo_backups (a_day_later w1) = (Inr b1, w3) \<and>
     on_db BackupService_PlanRestore w3 = (Inr [b0, b1], w4) \<and>
     GroupBuyRow (charter None) \<in> set (rows_of (sv_db (store (a_day_later w1))) ''group_buys'') \<and>
     GroupBuyRow (charter None) \<notin> set (chain_rows (sv_files (store w3)) [b0, b1] ''group_buys'') \<and>
     GroupBuyRow (charter (Some 2)) \<in> set (chain_rows (sv_files (store w3)) [b0, b1] ''group_buys'')"
proof -
  have w: "calm charter_server" "clock charter_server = (\<lambda>_. 0)" "range (uuids charter_server) = {1}"
      "backups (sv_db (store charter_server)) = []"
    and us: "users (sv_db (store charter_server)) = [demo_member 1, demo_member 2]"
      "group_buys (sv_db (store charter_server)) = [charter (Some 2)]"
    by (simp_all add: charter_server_def demo_server_def empty_db_def demo_world_def calm_def)
  have z: "0 \<noteq> zero_time" "24 * hour \<noteq> zero_time" by (simp_all add: zero_time_def)
  have kinds: "''full'' \<in> {''full'', ''incremental''}" "''incremental'' \<in> {''full'', ''incremental''}" by simp_all
  have free: "uuids charter_server n \<notin> bk_ID ` set (backups (sv_db (store charter_server)))" for n using w(4) by simp
  have t0: "clock charter_server n \<noteq> zero_time" for n using w(2) z(1) by simp
  obtain b0 w1 where r0: "BackupService_take demo_backups ''full'' zero_time charter_server = (Inr b0, w1)"
    using take_succeeds [OF w(1) kinds(1) t0 free] by blast
  note full = take_calm [OF w(1) r0 t0]
  let ?w2 = "a_day_later w1"
  have c2: "calm ?w2" "clock ?w2 = (\<lambda>_. 24 * hour)" "uuids ?w2 = (\<lambda>_. 2)"
    and bs: "backups (sv_db (store ?w2)) = [b0]" "bk_ID b0 = 1" "bk_TakenAt b0 = 0" and fs: "sv_files (store ?w2) = sv_files (store w1)"
    using full w by (simp_all add: a_day_later_def calm_def delete_user_row_def Let_def)
  have t2: "clock ?w2 n \<noteq> zero_time" for n using c2(2) z(2) by simp
  have free2: "uuids ?w2 n \<notin> bk_ID ` set (backups (sv_db (store ?w2)))" for n using bs c2(3) by simp
  let ?w = "?w2\<lparr>readings := Suc (readings ?w2), stmts := Suc (stmts ?w2)\<rparr>"
  have last: "on_db backups_LastSuccessful ?w2 = (Inr b0, ?w)"
    using c2(1) bs(1) by (simp add: backups_LastSuccessful_def on_db_query_calm newest_def order_desc_def)
  obtain b1 w3 where r1: "BackupService_take demo_backups ''incremental'' 0 ?w = (Inr b1, w3)"
    using take_succeeds [of ?w "''incremental''" demo_backups 0] c2(1) t2 free2 by auto
  then have r2: "BackupService_TakeIncremental demo_backups ?w2 = (Inr b1, w3)"
    using last bs(3) by (simp add: BackupService_TakeIncremental_def attempt_def)
  have later: "bk_TakenAt b0 < bk_TakenAt b1"
    using take_calm [OF _ r1] c2 t2 bs(3) by simp
  have "users (sv_db (store w1)) = [demo_member 1, demo_member 2]" using full us by simp
  then have "later_write 0 (sv_db (store w1)) (sv_db (store ?w2))"
    using erased_after [of "sv_db (store w1)" 0 1] by (simp add: a_day_later_def demo_member_def)
  then have writes: "(later_write (bk_TakenAt b0))\<^sup>*\<^sup>* (sv_db (store w1)) (sv_db (store ?w2))"
    using bs(3) by simp
  have both: "\<forall>n. clock charter_server n \<noteq> zero_time \<and> clock ?w2 n \<noteq> zero_time" using t0 t2 by simp
  have older: "list_all (\<lambda>b. bk_TakenAt b < bk_TakenAt b0) (backups (sv_db (store charter_server)))" using w(4) by simp
  have same: "backups (sv_db (store ?w2)) = backups (sv_db (store w1))" by (simp add: a_day_later_def delete_user_row_def Let_def)
  note chain = restore_chain_covers_and_keeps [OF w(1) c2(1) both r0 [folded BackupService_TakeFull_def] older writes fs same r2 later,
      of "''group_buys''"]
  note held = two_backups(3) [OF w(1) c2(1) both r0 [folded BackupService_TakeFull_def] older fs same r2 later, of "''group_buys''"]
  have rows: "rows_of (sv_db (store charter_server)) ''group_buys'' = [GroupBuyRow (charter (Some 2))]"
      "rows_of (sv_db (store ?w2)) ''group_buys'' = [GroupBuyRow (charter None)]"
    using us full by (simp_all add: dated_rows a_day_later_def delete_user_row_def Let_def update_where_def charter_def)
  have "\<not> newer_row ''group_buys'' 0 (GroupBuyRow (charter None))"
    using z(1) by (simp add: newer_row_def tableHasUpdatedAt_def charter_def)
  then have "chain_rows (sv_files (store w3)) [b0, b1] ''group_buys'' = [GroupBuyRow (charter (Some 2))]"
    using held rows bs(3) by (simp add: backupTables_def)
  moreover obtain w4 where "on_db BackupService_PlanRestore w3 = (Inr [b0, b1], w4)"
    using chain by auto
  moreover have "charter None \<noteq> charter (Some 2)" by (simp add: charter_def)
  ultimately show ?thesis
    using r0 r2 rows by (auto simp: BackupService_TakeFull_def)
qed

end
