(* ===== verification/Process.thy ===== *)
theory Process
  imports System
begin

text \<open>
  The process: \<open>main\<close> of \<open>cmd/server/main.go\<close>. The first part is how it comes up, step by step, and what the
  site does over a whole deployment: processes that start with any environment, serve, and end, one
  after the other, on the same database and the same key volume. The second part is how it goes down: the
  listener, the requests in flight, the jobs and the pool, whose ends the deferred calls put in order.
\<close>

section \<open>Coming up\<close>

text \<open>
  What the process finds around it: the command line and the environment, the libraries (\<open>lib\<close>: encoders,
  views, routing, hashing), the database server, the migration tool, the seed file, the AEAD of a key.
\<close>

record surroundings =
  su_healthcheck :: bool
  su_env :: environment
  su_http_get :: "string \<Rightarrow> int option"
  su_connector :: connector
  su_migrate :: "unit app"
  su_seed_file :: "string option"
  su_aes_gcm :: "string \<Rightarrow> key_manager"
  su_lib :: web
  su_bcrypt_DefaultCost :: int
  su_put :: "backup_file secret_writer"

definition masterKeyPath :: string where
  "masterKeyPath = ''/app/keys/master.key''"

text \<open>The services as \<open>main\<close> builds them from the configuration and the key.\<close>

definition wire :: "web \<Rightarrow> int \<Rightarrow> config \<Rightarrow> key_manager \<Rightarrow> web" where
  "wire lib bcrypt_DefaultCost c keyMgr =
     (let analyticsSvc = NewAnalyticsService (as_digest (wb_analytics lib)) (as_uuid_text (wb_analytics lib)) (AnalyticsAnonSalt c)
      in lib\<lparr>wb_auth := main_auth_settings bcrypt_DefaultCost c,
             wb_booking := \<lparr>encrypter = Some keyMgr, policy = DefaultBookingPolicy\<rparr>,
             wb_analytics := analyticsSvc,
             wb_governance := (wb_governance lib)\<lparr>gs_analytics := analyticsSvc\<rparr>,
             wb_backups := (wb_backups lib)\<lparr>bs_target := ''/backups''\<rparr>,
             wb_ttl := DefaultTTL\<rparr>)"

text \<open>The key volume is beside the server's state.\<close>

definition load_key :: "(string \<Rightarrow> key_manager) \<Rightarrow> volume \<Rightarrow> (key_manager \<times> volume) app" where
  "load_key aes_gcm v w =
     (case LoadOrCreate aes_gcm masterKeyPath (with_store v w) of
        (Inl e, w') \<Rightarrow> (Inl e, with_store (store w) w')
      | (Inr keyMgr, w') \<Rightarrow> (Inr (keyMgr, store w'), with_store (store w) w'))"

text \<open>Until it listens, \<open>main\<close> ends with an exit code or has services to run.\<close>

datatype start = Exits int | Runs web volume

definition or_exit :: "'a app \<Rightarrow> ('a \<Rightarrow> start app) \<Rightarrow> start app" where
  "or_exit m k = attempt m (\<lambda>r. case r of Inl _ \<Rightarrow> ret (Exits 1) | Inr x \<Rightarrow> k x)"

definition main_start :: "surroundings \<Rightarrow> volume \<Rightarrow> start app" where
  "main_start su v =
     (if su_healthcheck su then ret (Exits (runHealthcheck (su_env su) (su_http_get su)))
      else case Load (su_env su) of
        Inl _ \<Rightarrow> ret (Exits 1)
      | Inr c \<Rightarrow>
          (case fst (Connect (su_connector su) c) of
             Inl _ \<Rightarrow> ret (Exits 1)
           | Inr _ \<Rightarrow>
               or_exit (if RunMigrations c then su_migrate su else ret ()) (\<lambda>_.
               or_exit (if RunSeed c then on_db (Seed (\<lambda>_. seed_sql) (su_seed_file su)) else ret ()) (\<lambda>_.
               or_exit (load_key (su_aes_gcm su) v) (\<lambda>(keyMgr, v').
               let wb = wire (su_lib su) (su_bcrypt_DefaultCost su) c keyMgr in
               bindE (set_cache (\<lambda>_. [])) (\<lambda>_.
               bindE (bootstrap (wb_auth_env wb) (wb_auth wb) (su_put su) c) (\<lambda>_.
               ret (Runs wb v'))))))))"

text \<open>
  Migrations of a schema that is up to date leave the rows as they are; on an empty database they also
  fill the data dictionary and the tags.
\<close>

definition surroundings_ok :: "surroundings \<Rightarrow> bool" where
  "surroundings_ok su \<longleftrightarrow> secret_writer_ok (su_put su) \<and> (\<forall>w r w'. su_migrate su w = (r, w') \<longrightarrow>
     (\<exists>dictionary tgs. sv_db (store w') = (sv_db (store w))\<lparr>data_dictionary := dictionary, tags := tgs\<rparr>))"

section \<open>A deployment\<close>

text \<open>The database and the cache, the key volume, and the services of the process that is up, if one is.\<close>

type_synonym deployment = "(cache, backup_file) server world \<times> volume \<times> web option"

inductive deployment_step :: "(string \<Rightarrow> key_manager) \<Rightarrow> deployment \<Rightarrow> deployment \<Rightarrow> bool" for aes_gcm where
  start: "surroundings_ok su \<Longrightarrow> su_aes_gcm su = aes_gcm \<Longrightarrow> main_start su v w = (Inr (Runs wb v'), w') \<Longrightarrow>
    deployment_step aes_gcm (w, v, None) (w', v', Some wb)"
| no_start: "surroundings_ok su \<Longrightarrow> su_aes_gcm su = aes_gcm \<Longrightarrow> main_start su v w = (Inr (Exits code), w') \<Longrightarrow>
    deployment_step aes_gcm (w, v, x) (w', v, x)"
| runs: "site_step wb w w' \<Longrightarrow> deployment_step aes_gcm (w, v, Some wb) (w', v, Some wb)"
| ends: "deployment_step aes_gcm (w, v, Some wb) (w, v, None)"

text \<open>Every process works with the same policies, and with the key of the volume.\<close>

abbreviation default_inv :: "(cache, backup_file) server \<Rightarrow> bool" where
  "default_inv \<equiv> \<lambda>s. sys_inv 3 (DefaultAuthSettings 0) (sv_db s)"

definition wired :: "(string \<Rightarrow> key_manager) \<Rightarrow> volume \<Rightarrow> web \<Rightarrow> bool" where
  "wired aes_gcm v wb \<longleftrightarrow> policy (wb_booking wb) = DefaultBookingPolicy \<and> LockoutThreshold (wb_auth wb) = 5 \<and>
     (\<exists>bytes. v masterKeyPath = Some bytes \<and> encrypter (wb_booking wb) = Some (aes_gcm bytes))"

lemma sys_inv_threshold: "LockoutThreshold cfg = LockoutThreshold cfg' \<Longrightarrow> sys_inv cap cfg = sys_inv cap cfg'"
  by (simp add: sys_inv_def lockout_inv_def fun_eq_iff)

lemma wired_threshold: "wired aes_gcm v wb \<Longrightarrow> 0 < LockoutThreshold (wb_auth wb)"
  by (simp add: wired_def)

lemma wired_inv:
  assumes "wired aes_gcm v wb" shows "server_inv wb s \<longleftrightarrow> default_inv s"
proof -
  have "sys_inv 3 (wb_auth wb) = sys_inv 3 (DefaultAuthSettings 0)"
    by (rule sys_inv_threshold) (use assms in \<open>simp add: wired_def DefaultAuthSettings_def\<close>)
  then show ?thesis using assms by (simp add: wired_def DefaultBookingPolicy_def)
qed

lemma wire_wired: "v masterKeyPath = Some bytes \<Longrightarrow> wired aes_gcm v (wire lib cost c (aes_gcm bytes))"
  by (simp add: wired_def wire_def Let_def main_auth_settings_def DefaultAuthSettings_def)

lemma load_key_returns:
  assumes "load_key aes_gcm v w = (r, w')"
  shows "store w' = store w \<and> (\<forall>keyMgr v'. r = Inr (keyMgr, v') \<longrightarrow>
    (\<exists>bytes. keyMgr = aes_gcm bytes \<and> v' masterKeyPath = Some bytes \<and> (v masterKeyPath = None \<or> v' = v)))"
  using assms LoadOrCreate_returns [of aes_gcm masterKeyPath "with_store v w"]
  by (auto simp: load_key_def split: prod.splits sum.splits)

lemma or_exit_returns:
  "or_exit m k w = (r, w') \<longleftrightarrow> (\<exists>x w1. m w = (Inr x, w1) \<and> k x w1 = (r, w')) \<or> (\<exists>e. m w = (Inl e, w') \<and> r = Inr (Exits 1))"
  by (auto simp: or_exit_def attempt_def ret_def split: prod.splits sum.splits)

lemma start_steps_keep:
  "preserves I m \<Longrightarrow> (\<And>x. preserves I (k x)) \<Longrightarrow> preserves I (or_exit m k)"
  "preserves (\<lambda>s. J (sv_db s)) (load_key aes_gcm v)"
  "secret_writer_ok put \<Longrightarrow> preserves default_inv (bootstrap env (main_auth_settings n c) put c')"
proof -
  show "preserves I m \<Longrightarrow> (\<And>x. preserves I (k x)) \<Longrightarrow> preserves I (or_exit m k)"
    unfolding or_exit_def by (intro store_rules)
  show "preserves (\<lambda>s. J (sv_db s)) (load_key aes_gcm v)"
    by (rule preservesI) (simp add: load_key_returns)
  have "sys_inv 3 (main_auth_settings n c) = sys_inv 3 (DefaultAuthSettings 0)" "0 < LockoutThreshold (main_auth_settings n c)"
    by (simp_all add: sys_inv_threshold main_auth_settings_def DefaultAuthSettings_def)
  then show "secret_writer_ok put \<Longrightarrow> preserves default_inv (bootstrap env (main_auth_settings n c) put c')"
    using bootstrap_keeps [of "main_auth_settings n c" put 3] by simp
qed

lemma wire_auth [simp]: "wb_auth (wire lib n c keyMgr) = main_auth_settings n c" "wb_auth_env (wire lib n c keyMgr) = wb_auth_env lib"
  by (simp_all add: wire_def Let_def)

lemma main_start_keeps:
  assumes "surroundings_ok su" "main_start su v w = (r, w')" "default_inv (store w)"
  shows "default_inv (store w')"
proof -
  have "sys_inv 3 (DefaultAuthSettings 0) (d\<lparr>data_dictionary := dictionary, tags := tgs\<rparr>) = sys_inv 3 (DefaultAuthSettings 0) d"
    for d dictionary tgs
    by (simp add: sys_inv_def)
  then have "preserves default_inv (su_migrate su)" "secret_writer_ok (su_put su)"
    using assms(1) unfolding surroundings_ok_def by (auto intro!: preservesI) metis
  then have "preserves default_inv (main_start su v)"
    unfolding main_start_def Let_def wire_auth by (intro store_rules start_steps_keep sys_rules on_db_preserves)
  from preservesD [OF this assms(2,3)] show ?thesis .
qed

lemma main_start_runs:
  assumes "main_start su v w = (Inr (Runs wb v'), w')"
  shows "wired (su_aes_gcm su) v' wb \<and> (v masterKeyPath = None \<or> v' = v)"
proof -
  obtain c keyMgr w1 w2 where key: "load_key (su_aes_gcm su) v w1 = (Inr (keyMgr, v'), w2)"
    and wb: "wb = wire (su_lib su) (su_bcrypt_DefaultCost su) c keyMgr"
    using assms
    by (auto simp: main_start_def Let_def or_exit_returns bindE_returns ret_returns split: if_splits sum.splits prod.splits)
  show ?thesis using load_key_returns [OF key] wire_wired unfolding wb by blast
qed

text \<open>What holds after every step of a deployment.\<close>

definition deployment_inv :: "(string \<Rightarrow> key_manager) \<Rightarrow> deployment \<Rightarrow> bool" where
  "deployment_inv aes_gcm s \<longleftrightarrow> (case s of (w, v, x) \<Rightarrow>
     default_inv (store w) \<and> (case x of None \<Rightarrow> True | Some wb \<Rightarrow> wired aes_gcm v wb))"

lemma deployment_step_inv:
  assumes "deployment_step aes_gcm s s'" "deployment_inv aes_gcm s"
  shows "deployment_inv aes_gcm s'"
  using assms(1)
proof (cases rule: deployment_step.cases)
  case (start su v w wb v' w')
  then show ?thesis using assms(2) main_start_keeps [OF start(3,5)] main_start_runs [OF start(5)] by (simp add: deployment_inv_def)
next
  case (no_start su v w code w' x)
  then show ?thesis using assms(2) main_start_keeps [OF no_start(3,5)] by (simp add: deployment_inv_def)
next
  case (runs wb w w' v)
  then have ok: "wired aes_gcm v wb" "default_inv (store w)" using assms(2) by (simp_all add: deployment_inv_def)
  then have "default_inv (store w')" using site_step_keeps [OF runs(3) wired_threshold] wired_inv by blast
  then show ?thesis using runs ok by (simp add: deployment_inv_def)
next
  case (ends w v wb)
  then show ?thesis using assms(2) by (simp add: deployment_inv_def)
qed

lemma deployment_steps_inv:
  "(deployment_step aes_gcm)\<^sup>*\<^sup>* s s' \<Longrightarrow> deployment_inv aes_gcm s \<Longrightarrow> deployment_inv aes_gcm s'"
  by (induction rule: rtranclp_induct) (blast intro: deployment_step_inv)+

text \<open>The key file is written once.\<close>

lemma key_stays:
  assumes "(deployment_step aes_gcm)\<^sup>*\<^sup>* (w, v, x) (w', v', x')" and "v masterKeyPath = Some bytes"
  shows "v' masterKeyPath = Some bytes"
  using assms(1)
proof (induction "(w', v', x')" arbitrary: w' v' x' rule: rtranclp_induct)
  case base
  then show ?case using assms(2) by simp
next
  case (step s)
  obtain w1 v1 x1 where s: "s = (w1, v1, x1)" by (cases s)
  then have "v1 masterKeyPath = Some bytes" using step.hyps(3) by simp
  with step.hyps(2) show ?case unfolding s by cases (auto dest: main_start_runs)
qed

text \<open>
  C1. A deployment never breaks its promises. From an empty database, through any number of processes one
  after the other, each started with any environment, whatever requests, jobs and cache collections they
  run, and whatever statements and system calls fail: at no instant do the confirmed and pending seats
  of a resource exceed its capacity; no user holds two overlapping bookings, nor more than three active
  ones on a day; the participants of a group buy that has not failed have at most the seats it gave out,
  which lie between 0 and its capacity; an account with five failures carries a lock; an idempotency
  key has one row per user; the revisions of a document are numbered without gaps and all but the last
  are superseded; and a webhook delivery that waits has attempts left. (A step is a whole request or job.)
\<close>

theorem site_keeps_its_promises:
  assumes "(deployment_step aes_gcm)\<^sup>*\<^sup>* (w, v, None) (w', v', x)" and "sv_db (store w) = empty_db" and "d = sv_db (store w')"
  shows "(\<forall>r \<in> set (resources d). \<forall>t. occupancy (bookings d) (r_ID r) t \<le> r_Capacity r) \<and>
    no_double_booking d \<and> daily_cap 3 d \<and>
    (\<forall>g \<in> set (group_buys d). 0 \<le> gb_RemainingSlots g \<and> gb_RemainingSlots g \<le> gb_Capacity g \<and>
       (gb_Status g \<noteq> GroupBuyFailed \<longrightarrow> seats_of (gb_ID g) (participants d) \<le> Confirmed g)) \<and>
    (\<forall>u \<in> set (users d). 5 \<le> u_FailedAttempts u \<longrightarrow> u_LockedUntil u \<noteq> None) \<and>
    idem_unique d \<and> documents_inv d \<and> deliveries_ok d"
proof -
  have "deployment_inv aes_gcm (w, v, None)" using assms(2) by (simp add: deployment_inv_def sys_inv_empty)
  from deployment_steps_inv [OF assms(1) this] have "sys_inv 3 (DefaultAuthSettings 0) d"
    by (simp add: deployment_inv_def assms(3))
  then show ?thesis
    by (simp add: sys_inv_def booking_inv_def seats_safe_def seats_inv_def seats_row_def lockout_inv_def keys_ok_def DefaultAuthSettings_def)
qed

text \<open>
  C3. Sealed notes can be opened by every later process. Whatever processes come and go in between, the
  one that is up has the key that the earlier one used: what that one encrypted, this one decrypts.
\<close>

theorem notes_outlive_their_process:
  assumes "(deployment_step aes_gcm)\<^sup>*\<^sup>* (w0, v0, None) (w1, v1, Some wb1)" and "sv_db (store w0) = empty_db"
    and "(deployment_step aes_gcm)\<^sup>*\<^sup>* (w1, v1, Some wb1) (w2, v2, Some wb2)"
    and "encrypter (wb_booking wb1) = Some keyMgr" and "aead_ok keyMgr" and "Encrypt keyMgr notes y = (Inr blob, y')"
  shows "\<exists>keyMgr'. encrypter (wb_booking wb2) = Some keyMgr' \<and> Decrypt keyMgr' blob = Inr notes"
proof -
  have "deployment_inv aes_gcm (w0, v0, None)" using assms(2) by (simp add: deployment_inv_def sys_inv_empty)
  from deployment_steps_inv [OF assms(1) this] have inv: "deployment_inv aes_gcm (w1, v1, Some wb1)" .
  then obtain bytes where key: "v1 masterKeyPath = Some bytes" "keyMgr = aes_gcm bytes"
    using assms(4) by (auto simp: deployment_inv_def wired_def)
  have "wired aes_gcm v2 wb2" using deployment_steps_inv [OF assms(3) inv] by (simp add: deployment_inv_def)
  then have "encrypter (wb_booking wb2) = Some keyMgr" using key_stays [OF assms(3) key(1)] key(2) by (auto simp: wired_def)
  then show ?thesis using Decrypt_Encrypt [OF assms(5,6)] by simp
qed

text \<open>
  C2. Every request is answered. In every state a deployment can reach, a request that the route table
  takes ends in a response of the middleware and the handler, with one of the statuses they know,
  whatever statements fail: no handler looks for a user that is not there, no replayed answer
  lacks its status, and the recovery in front of the routes has nothing to recover from.
\<close>

theorem every_request_is_answered:
  assumes "(deployment_step aes_gcm)\<^sup>*\<^sup>* (w, v, None) (w', v', Some wb)" and "sv_db (store w) = empty_db"
    and "wb_route wb req = Some (m, p, param)" and "map_of routes (m, p) = Some (ms, t)"
  shows "\<exists>resp w''. run_chain wb param ms t req w' = (Inr resp, w'') \<and> serve wb req w' = (Inr resp, w'') \<and>
    rs_Status resp \<in> {200, 201, 202, 302, 400, 401, 403, 404, 409, 422, 423, 424, 500, 503}"
proof -
  have "deployment_inv aes_gcm (w, v, None)" using assms(2) by (simp add: deployment_inv_def sys_inv_empty)
  from deployment_steps_inv [OF assms(1) this] have "wired aes_gcm v' wb" "default_inv (store w')"
    by (simp_all add: deployment_inv_def)
  then have "0 < LockoutThreshold (wb_auth wb)" "server_inv wb (store w')"
    using wired_inv wired_threshold by blast+
  then obtain resp w'' where "run_chain wb param ms t req w' = (Inr resp, w'')" "good_status (rs_Status resp)"
    using routed [OF _ assms(4)] answersD unfolding works_def by blast
  then show ?thesis using assms(3,4) by (auto simp: serve_def Recovery_def attempt_def ret_def good_status_def)
qed

section \<open>An example\<close>

text \<open>An empty database, a database server that answers at once, and the configuration that \<open>env\<close> makes.\<close>

definition new_site :: "(cache, backup_file) server world" where
  "new_site = with_store \<lparr>sv_db = empty_db, sv_cache = [], sv_files = (\<lambda>_. None)\<rparr> (demo_world empty_db second)"


lemma seed_of_nothing: "seed_sql t empty_db = Some (empty_db\<lparr>resources := seed_resources t, group_reservations := seed_groups t\<rparr>)"
  by (simp add: seed_sql_def seed_resources_def seed_groups_def resource_insertable_def group_insertable_def fresh_key_def row_by_def
      empty_db_def references_opt_def int4_def)

lemma bootstrap_keeps_resources:
  "bootstrap env cfg no_secret_file c w = (r, w') \<Longrightarrow> r \<in> range Inr \<and> resources (sv_db (store w')) = resources (sv_db (store w))"
proof
  assume run: "bootstrap env cfg no_secret_file c w = (r, w')"
  then show "r \<in> range Inr" by (auto simp: bootstrap_def attempt_def ret_def split: prod.splits if_splits)
  have db: "preserves (\<lambda>d. resources d = rs) m" if "\<And>c. preserves (\<lambda>d. no_accounts d = c) m" for rs and m :: "'z action"
    by (rule leavesD [OF leavesI [OF that]]) (simp add: no_accounts_def)
  have acts: "preserves (\<lambda>d. no_accounts d = e) (make_account env cfg name pw adm rot)" "preserves (\<lambda>d. no_accounts d = e) (promote adm u)"
    "preserves (\<lambda>d. no_accounts d = e) (users_GetByUsername pl name)" for e name pw adm rot u pl
    unfolding make_account_def promote_def users_GetByUsername_def
    by (intro store_rules readonly_preserves [OF hash_password_readonly])+
  have "preserves (\<lambda>s. resources (sv_db s) = rs) (no_secret_file p t)" for rs p t
    by (auto simp: preserves_def no_secret_file_def os_call_def Let_def)
  then have "preserves (\<lambda>s. resources (sv_db s) = resources (sv_db (store w))) (bootstrap env cfg no_secret_file c)"
    unfolding bootstrap_def seedAdminUser_def seedDemoUsers_def seed_account_def generateInitialPassword_def
    by (intro store_rules on_db_preserves [of "\<lambda>d. resources d = resources (sv_db (store w))"] preserves_for_each_or_return db [OF acts(1)]
        db [OF acts(2)] db [OF acts(3)])
  from preservesD [OF this run] show "resources (sv_db (store w')) = resources (sv_db (store w))" by simp
qed

definition demo_connector :: connector where
  "demo_connector = \<lparr>co_parses = (\<lambda>_. True), co_canceled = (\<lambda>_. False), co_canceled_waiting = (\<lambda>_. False),
     co_opens = (\<lambda>_ _. True), co_pings = (\<lambda>_. True)\<rparr>"

definition demo_surroundings :: "environment \<Rightarrow> surroundings" where
  "demo_surroundings env = \<lparr>su_healthcheck = False, su_env = env, su_http_get = (\<lambda>_. None), su_connector = demo_connector,
     su_migrate = ret (), su_seed_file = Some ''INSERT'', su_aes_gcm = (\<lambda>_. toy_aead), su_lib = demo_web,
     su_bcrypt_DefaultCost = 10, su_put = no_secret_file\<rparr>"

lemma demo_ok: "surroundings_ok (demo_surroundings env)" "su_aes_gcm (demo_surroundings env) = (\<lambda>_. toy_aead)"
proof -
  have "\<exists>dictionary tgs. d = d\<lparr>data_dictionary := dictionary, tags := tgs\<rparr>" for d :: db
    by (intro exI [of _ "data_dictionary d"] exI [of _ "tags d"]) simp
  then show "surroundings_ok (demo_surroundings env)" "su_aes_gcm (demo_surroundings env) = (\<lambda>_. toy_aead)"
    by (simp_all add: surroundings_ok_def demo_surroundings_def no_secret_file_ok ret_def)
qed

lemma demo_connects: "fst (Connect demo_connector c) = Inr 1"
  by (simp add: Connect_def demo_connector_def connect_step maxAttempts_def)

text \<open>A process that does not seed comes up at once; a later one finds the key.\<close>

definition no_seed :: environment where
  "no_seed = salt_only(''RUN_SEED'' := ''off'')"

lemma no_seed_loads: "\<exists>c. Load no_seed = Inr c \<and> \<not> RunSeed c"
proof -
  have trim: "trim_space ''pepper'' = ''pepper''" "trim_space ''off'' = ''off''" by (rule trim_space_plain, simp)+
  have "\<exists>c. Load no_seed = Inr c"
    by (simp add: Load_def no_seed_def salt_only_def getenv_def go_atoi_def is_digit_char_def digits_value_def digit_value_def trim)
  moreover have "\<not> parseBool ''off''" by (simp add: parseBool_def trim ascii_lower_def lower_char_def)
  ultimately show ?thesis using Load_RunSeed by (fastforce simp: no_seed_def salt_only_def getenv_def)
qed

lemma start_without_seed:
  assumes "calm w" "entropy w (drawn w) \<noteq> None" "\<forall>bytes. v masterKeyPath = Some bytes \<longrightarrow> length bytes = 32"
  shows "\<exists>c v' w'. main_start (demo_surroundings no_seed) v w = (Inr (Runs (wire demo_web 10 c toy_aead) v'), w') \<and>
    sv_db (store w') = sv_db (store w) \<and> calm w' \<and> entropy w' = entropy w \<and> (\<exists>bytes. v' masterKeyPath = Some bytes \<and> length bytes = 32)"
proof -
  obtain c where c: "Load no_seed = Inr c" "\<not> RunSeed c" using no_seed_loads by blast
  obtain f where f: "entropy w (drawn w) = Some f" using assms(2) by blast
  show ?thesis
    using assms(1,3) c f
    by (cases "v masterKeyPath")
      (auto simp: main_start_def demo_surroundings_def demo_connects or_exit_def attempt_def ret_def load_key_def LoadOrCreate_def
        bindE_def os_call_calm draw_bytes_def set_cache_def bootstrap_def Let_def calm_def)
qed

lemma first_step: "deployment_step aes_gcm s s' \<Longrightarrow> (deployment_step aes_gcm)\<^sup>*\<^sup>* s s'"
  by (rule r_into_rtranclp)

text \<open>A process that seeds the empty database.\<close>

lemma start_with_seed:
  "\<exists>c v' w'. main_start (demo_surroundings salt_only) (\<lambda>_. None) new_site = (Inr (Runs (wire demo_web 10 c toy_aead) v'), w') \<and>
     resources (sv_db (store w')) = seed_resources second"
proof -
  obtain c where c: "Load salt_only = Inr c" using salt_only_loads by blast
  have on: "RunSeed c" using Load_RunSeed [OF c] by (simp add: getenv_def salt_only_def default_true)
  let ?seeded = "empty_db\<lparr>resources := seed_resources second, group_reservations := seed_groups second\<rparr>"
  have "\<exists>v. Seed (\<lambda>_. seed_sql) (Some ''INSERT'') (with_store empty_db new_site) = (Inr (), v) \<and> store v = ?seeded \<and> calm v \<and>
      entropy v (drawn v) \<noteq> None"
    using seed_of_nothing [of second]
    by (simp add: Seed_def transaction_def sql_calm bindE_def ret_def new_site_def demo_world_def with_store_def Let_def calm_def)
  then obtain v where seed: "Seed (\<lambda>_. seed_sql) (Some ''INSERT'') (with_store empty_db new_site) = (Inr (), v)" "store v = ?seeded"
    and v: "calm v" "entropy v (drawn v) \<noteq> None" by blast
  let ?w = "with_store ((store new_site)\<lparr>sv_db := ?seeded\<rparr>) v"
  have "sv_db (store new_site) = empty_db" by (simp add: new_site_def)
  with seed have seeded: "on_db (Seed (\<lambda>_. seed_sql) (Some ''INSERT'')) new_site = (Inr (), ?w)" by (simp add: on_db_def)
  have "\<exists>key w2. load_key (\<lambda>_. toy_aead) (\<lambda>_. None) ?w = (Inr (toy_aead, key), w2) \<and> store w2 = store ?w"
    using v by (auto simp: load_key_def LoadOrCreate_def bindE_def os_call_calm draw_bytes_def ret_def calm_def)
  then obtain key w2 where key: "load_key (\<lambda>_. toy_aead) (\<lambda>_. None) ?w = (Inr (toy_aead, key), w2)" "store w2 = store ?w" by blast
  let ?w3 = "w2\<lparr>store := (store w2)\<lparr>sv_cache := []\<rparr>\<rparr>"
  obtain r w' where boot: "bootstrap (wb_auth_env demo_web) (main_auth_settings 10 c) no_secret_file c ?w3 = (r, w')" by fastforce
  have "main_start (demo_surroundings salt_only) (\<lambda>_. None) new_site = (Inr (Runs (wire demo_web 10 c toy_aead) key), w')"
    using c on seeded key(1) boot bootstrap_keeps_resources [OF boot]
    by (auto simp: main_start_def demo_surroundings_def demo_connects or_exit_def attempt_def ret_def bindE_def set_cache_def Let_def)
  then show ?thesis using bootstrap_keeps_resources [OF boot] key(2) by auto
qed

theorem site_keeps_its_promises_witness:
  "\<exists>wb v w1 w2 w3. main_start (demo_surroundings salt_only) (\<lambda>_. None) new_site = (Inr (Runs wb v), w1) \<and>
     resources (sv_db (store w1)) = seed_resources second \<and>
     snd (serve wb (page_request ''/api/groups'' []) w1) = w2 \<and> snd (runOnce (hd (main_jobs wb)) w2) = w3 \<and>
     seats_safe (sv_db (store w3)) \<and> no_double_booking (sv_db (store w3))"
proof -
  obtain wb v w1 where one: "main_start (demo_surroundings salt_only) (\<lambda>_. None) new_site = (Inr (Runs wb v), w1)"
    and w1: "resources (sv_db (store w1)) = seed_resources second" using start_with_seed by blast
  obtain r2 w2 where two: "serve wb (page_request ''/api/groups'' []) w1 = (r2, w2)" by fastforce
  obtain r3 w3 where three: "runOnce (hd (main_jobs wb)) w2 = (r3, w3)" by fastforce
  have "hd (main_jobs wb) \<in> set (main_jobs wb)" by (simp add: main_jobs_def)
  then have "(deployment_step (\<lambda>_. toy_aead))\<^sup>*\<^sup>* (new_site, (\<lambda>_. None), None) (w3, v, Some wb)"
    using deployment_step.start [OF demo_ok one] deployment_step.runs [OF site_step.request [OF two]]
      deployment_step.runs [OF site_step.job [OF _ three]]
    by (meson rtranclp.rtrancl_into_rtrancl rtranclp.rtrancl_refl)
  from site_keeps_its_promises [OF this _ refl]
  have "seats_safe (sv_db (store w3)) \<and> no_double_booking (sv_db (store w3))"
    by (simp add: seats_safe_def new_site_def)
  then show ?thesis using one w1 two three by auto
qed

theorem every_request_is_answered_witness:
  "\<exists>wb v w1 resp w2. main_start (demo_surroundings salt_only) (\<lambda>_. None) new_site = (Inr (Runs wb v), w1) \<and>
     run_chain wb [] [Must, Rotated] (plain BookingHandler_ListMine) (page_request ''/api/bookings'' []) w1 = (Inr resp, w2) \<and>
     rs_Status resp \<in> {200, 201, 202, 302, 400, 401, 403, 404, 409, 422, 423, 424, 500, 503}"
proof -
  let ?req = "page_request ''/api/bookings'' []"
  obtain c v w1 where one: "main_start (demo_surroundings salt_only) (\<lambda>_. None) new_site = (Inr (Runs (wire demo_web 10 c toy_aead) v), w1)"
    using start_with_seed by blast
  have route: "wb_route (wire demo_web 10 c toy_aead) ?req = Some (''GET'', ''/api/bookings'', [])"
    by (simp add: wire_def demo_web_def page_request_def Let_def)
  have entry: "map_of routes (''GET'', ''/api/bookings'') = Some ([Must, Rotated], plain BookingHandler_ListMine)"
    by (simp add: routes_def page_routes_def account_routes_def booking_routes_def)
  have empty: "sv_db (store new_site) = empty_db" by (simp add: new_site_def)
  show ?thesis
    using every_request_is_answered [OF first_step [OF deployment_step.start [OF demo_ok one]] empty route entry] one by blast
qed

theorem notes_outlive_their_process_witness:
  "\<exists>wb1 v1 w1 wb2 v2 w2 blob y keyMgr'. main_start (demo_surroundings no_seed) (\<lambda>_. None) new_site = (Inr (Runs wb1 v1), w1) \<and>
     main_start (demo_surroundings no_seed) v1 w1 = (Inr (Runs wb2 v2), w2) \<and>
     Encrypt toy_aead ''hush'' (demo_world empty_db 0) = (Inr blob, y) \<and> encrypter (wb_booking wb2) = Some keyMgr' \<and>
     Decrypt keyMgr' blob = Inr ''hush''"
proof -
  have new: "calm new_site" "entropy new_site (drawn new_site) \<noteq> None" and empty: "sv_db (store new_site) = empty_db"
    by (simp_all add: new_site_def demo_world_def with_store_def calm_def)
  have entropy: "entropy new_site = (\<lambda>_. Some (\<lambda>_. CHR ''A''))" by (simp add: new_site_def demo_world_def with_store_def)
  obtain c1 v1 w1 where one: "main_start (demo_surroundings no_seed) (\<lambda>_. None) new_site = (Inr (Runs (wire demo_web 10 c1 toy_aead) v1), w1)"
    and w1: "calm w1" "entropy w1 = entropy new_site" and v1: "\<exists>bytes. v1 masterKeyPath = Some bytes \<and> length bytes = 32"
    using start_without_seed [OF new, of "\<lambda>_. None"] by auto
  have ready: "entropy w1 (drawn w1) \<noteq> None" "\<forall>bytes. v1 masterKeyPath = Some bytes \<longrightarrow> length bytes = 32"
    using w1(2) v1 by (auto simp: entropy)
  obtain c2 v2 w2 where two: "main_start (demo_surroundings no_seed) v1 w1 = (Inr (Runs (wire demo_web 10 c2 toy_aead) v2), w2)"
    using start_without_seed [of w1 v1] w1(1) ready by blast
  obtain blob y where sealed: "Encrypt toy_aead ''hush'' (demo_world empty_db 0) = (Inr blob, y)"
    by (simp add: Encrypt_def bindE_def draw_bytes_def ret_def demo_world_def toy_aead_def)
  have key: "encrypter (wb_booking (wire demo_web 10 c1 toy_aead)) = Some toy_aead" by (simp add: wire_def Let_def)
  have later: "(deployment_step (\<lambda>_. toy_aead))\<^sup>*\<^sup>* (w1, v1, Some (wire demo_web 10 c1 toy_aead)) (w2, v2, Some (wire demo_web 10 c2 toy_aead))"
    using deployment_step.ends deployment_step.start [OF demo_ok two] by (meson rtranclp.rtrancl_into_rtrancl rtranclp.rtrancl_refl)
  from notes_outlive_their_process [OF first_step [OF deployment_step.start [OF demo_ok one]] empty later key toy_aead_ok sealed]
  show ?thesis using one two sealed by blast
qed

section \<open>Going down\<close>

text \<open>
  Once the runner has started its jobs, one goroutine listens and serves while \<open>main\<close> waits for the
  context, which a signal or the failure of the listener cancels. \<open>Shutdown\<close> closes the listener and waits
  for the requests in flight, at most 15 seconds; then \<open>main\<close> returns and its deferred calls stop the
  jobs and close the pool, in this order. \<open>ListenAndServe\<close> does not listen once \<open>Shutdown\<close> was called.
\<close>

datatype main_phase = Up | ShuttingDown | Returning | Ended

text \<open>The phases come one after the other.\<close>

fun stage :: "main_phase \<Rightarrow> nat" where
  "stage Up = 0" | "stage ShuttingDown = 1" | "stage Returning = 2" | "stage Ended = 3"

lemma stage_inj: "stage m = stage m' \<longleftrightarrow> m = m'"
  by (cases m; cases m') simp_all

instantiation main_phase :: linorder
begin

definition less_eq_main_phase :: "main_phase \<Rightarrow> main_phase \<Rightarrow> bool" where
  "less_eq_main_phase m m' \<longleftrightarrow> stage m \<le> stage m'"

definition less_main_phase :: "main_phase \<Rightarrow> main_phase \<Rightarrow> bool" where
  "less_main_phase m m' \<longleftrightarrow> stage m < stage m'"

instance
  by standard (auto simp: less_eq_main_phase_def less_main_phase_def stage_inj)

end

datatype listener = Unbound | Accepting | Broken | Shut

record process =
  pr_main :: main_phase
  pr_listener :: listener
  pr_requests :: nat
  pr_graceful :: bool
  pr_runner :: runner
  pr_pool_open :: bool
  pr_exit :: "int option"

definition new_process :: process where
  "new_process = \<lparr>pr_main = Up, pr_listener = Unbound, pr_requests = 0, pr_graceful = False, pr_runner = NewRunner,
     pr_pool_open = True, pr_exit = None\<rparr>"

definition spawning :: "runner \<Rightarrow> bool" where
  "spawning r \<longleftrightarrow> (case r_life r of Starting _ \<Rightarrow> True | _ \<Rightarrow> False)"

text \<open>\<open>stop()\<close> cancels the context of the jobs too, which is derived from that of \<open>main\<close>.\<close>

inductive process_step :: "nat \<Rightarrow> process \<Rightarrow> process \<Rightarrow> bool" for n where
  background: "runner_step n (pr_runner s) r \<Longrightarrow> r_life r = r_life (pr_runner s) \<or> spawning (pr_runner s) \<Longrightarrow> pr_exit s = None \<Longrightarrow>
    process_step n s (s\<lparr>pr_runner := r\<rparr>)"
| listen: "pr_listener s = Unbound \<Longrightarrow> \<not> spawning (pr_runner s) \<Longrightarrow> pr_exit s = None \<Longrightarrow>
    process_step n s (s\<lparr>pr_listener := (if pr_main s = Up then Accepting else Shut)\<rparr>)"
| listener_fails: "pr_listener s = Unbound \<or> pr_listener s = Accepting \<Longrightarrow> \<not> spawning (pr_runner s) \<Longrightarrow> pr_main s = Up \<Longrightarrow>
    process_step n s (s\<lparr>pr_listener := Broken, pr_runner := (pr_runner s)\<lparr>r_canceled := True\<rparr>\<rparr>)"
| accept: "pr_listener s = Accepting \<Longrightarrow> process_step n s (s\<lparr>pr_requests := Suc (pr_requests s)\<rparr>)"
| answer: "pr_requests s = Suc k \<Longrightarrow> pr_exit s = None \<Longrightarrow> process_step n s (s\<lparr>pr_requests := k\<rparr>)"
| shutdown: "pr_main s = Up \<Longrightarrow> \<not> spawning (pr_runner s) \<Longrightarrow> r_canceled (pr_runner s) \<Longrightarrow>
    process_step n s (s\<lparr>pr_main := ShuttingDown, pr_listener := (if pr_listener s = Accepting then Shut else pr_listener s)\<rparr>)"
| drained: "pr_main s = ShuttingDown \<Longrightarrow> pr_requests s = 0 \<Longrightarrow>
    process_step n s (s\<lparr>pr_main := Returning, pr_graceful := True\<rparr>)"
| deadline: "pr_main s = ShuttingDown \<Longrightarrow> process_step n s (s\<lparr>pr_main := Returning\<rparr>)"
| stop_jobs: "pr_main s = Returning \<Longrightarrow> runner_step n (pr_runner s) r \<Longrightarrow> process_step n s (s\<lparr>pr_runner := r\<rparr>)"
| close_pool: "pr_main s = Returning \<Longrightarrow> r_life (pr_runner s) = Stopped \<Longrightarrow>
    process_step n s (s\<lparr>pr_main := Ended, pr_pool_open := False, pr_exit := Some 0\<rparr>)"

text \<open>What the order of the calls amounts to.\<close>

definition process_inv :: "nat \<Rightarrow> process \<Rightarrow> bool" where
  "process_inv n s \<longleftrightarrow> runner_inv n (pr_runner s) \<and>
     (pr_pool_open s \<longleftrightarrow> pr_main s \<noteq> Ended) \<and> pr_exit s = (if pr_main s = Ended then Some 0 else None) \<and>
     (pr_main s = Ended \<longrightarrow> r_life (pr_runner s) = Stopped) \<and>
     (r_life (pr_runner s) \<in> {Stopping, Stopped} \<longrightarrow> pr_main s \<in> {Returning, Ended}) \<and>
     (spawning (pr_runner s) \<longrightarrow> pr_main s = Up \<and> pr_listener s = Unbound) \<and>
     (pr_listener s = Accepting \<longrightarrow> pr_main s = Up) \<and> (pr_graceful s \<longrightarrow> pr_requests s = 0 \<and> pr_main s \<in> {Returning, Ended})"

lemma process_inv_new: "process_inv n new_process"
  using runner_inv_new [of n] by (simp add: process_inv_def new_process_def spawning_def NewRunner_def)

lemma runner_step_life:
  assumes "runner_step n r r'"
  shows "r_life r' = r_life r \<or> spawning r \<and> r_life r' \<notin> {Stopping, Stopped} \<or>
    r_life r = Serving \<and> r_life r' = Stopping \<or> r_life r = Stopping \<and> r_life r' = Stopped"
  using assms by (cases rule: runner_step.cases) (auto simp: spawning_def)

lemma cancel_same [simp]: "runner_inv n (r\<lparr>r_canceled := True\<rparr>) = runner_inv n r" "spawning (r\<lparr>r_canceled := True\<rparr>) = spawning r"
  by (simp_all add: runner_inv_def spawning_def)

lemma not_spawning: "r_life r = Stopped \<Longrightarrow> \<not> spawning r"
  by (simp add: spawning_def)

lemma spawning_same: "r_life r' = r_life r \<Longrightarrow> spawning r' = spawning r"
  by (simp add: spawning_def)

lemma process_inv_step:
  assumes "process_step n s s'" "process_inv n s"
  shows "process_inv n s'"
  using assms(1)
proof (cases rule: process_step.cases)
  case (background r)
  have "runner_inv n r" using runner_inv_step [OF background(2)] assms(2) by (simp add: process_inv_def)
  moreover have "r_life r = r_life (pr_runner s) \<or> spawning (pr_runner s) \<and> r_life r \<notin> {Stopping, Stopped}"
    using background(3) runner_step_life [OF background(2)] by (auto simp: spawning_def split: lifecycle.splits)
  ultimately show ?thesis
    using assms(2) background(1,4) spawning_same [of r "pr_runner s"] by (auto simp: process_inv_def)
next
  case (stop_jobs r)
  have "runner_inv n r" using runner_inv_step [OF stop_jobs(3)] assms(2) by (simp add: process_inv_def)
  moreover have "\<not> spawning (pr_runner s)" using assms(2) stop_jobs(2) by (auto simp: process_inv_def)
  then have "\<not> spawning r" using runner_step_life [OF stop_jobs(3)] spawning_same [of r "pr_runner s"] by (auto simp: spawning_def split: lifecycle.splits)
  ultimately show ?thesis using assms(2) stop_jobs(1,2) by (auto simp: process_inv_def)
next
  case listen
  then show ?thesis using assms(2) by (simp add: process_inv_def)
next
  case listener_fails
  then show ?thesis using assms(2) by (simp add: process_inv_def)
next
  case accept
  then have "pr_main s = Up" using assms(2) by (simp add: process_inv_def)
  then show ?thesis using accept assms(2) by (simp add: process_inv_def)
next
  case (answer k)
  then show ?thesis using assms(2) by (simp add: process_inv_def)
next
  case shutdown
  then show ?thesis using assms(2) by (simp add: process_inv_def)
next
  case drained
  then show ?thesis using assms(2) by (simp add: process_inv_def)
next
  case deadline
  then show ?thesis using assms(2) by (simp add: process_inv_def)
next
  case close_pool
  then show ?thesis using assms(2) not_spawning by (simp add: process_inv_def)
qed

lemma process_reaches_inv: "(process_step n)\<^sup>*\<^sup>* new_process s \<Longrightarrow> process_inv n s"
  by (induction rule: rtranclp_induct) (auto intro: process_inv_new process_inv_step)

text \<open>\<open>main\<close> never goes back, and a process that has ended does nothing more.\<close>

lemma goes_forward: "process_step n s s' \<Longrightarrow> pr_main s \<le> pr_main s'"
  by (erule process_step.cases) (simp_all add: less_eq_main_phase_def)

lemma goes_on_forward: "(process_step n)\<^sup>*\<^sup>* s s' \<Longrightarrow> pr_main s \<le> pr_main s'"
  by (induction rule: rtranclp_induct) (auto dest: goes_forward)

lemma ended_stays: "process_step n s s' \<Longrightarrow> process_inv n s \<Longrightarrow> pr_main s = Ended \<Longrightarrow> s' = s"
  by (erule process_step.cases) (auto simp: process_inv_def)

text \<open>Nothing blocks the way down: whatever the state, there is a way to the end once a signal has come.\<close>

fun work :: "Jobs.phase \<Rightarrow> nat" where
  "work Working = 2" | "work Pausing = 1" | "work Gone = 0"

lemma work_less: "i < length ps \<Longrightarrow> work p < work (ps ! i) \<Longrightarrow> sum_list (map work (ps[i := p])) < sum_list (map work ps)"
  by (induction ps arbitrary: i) (auto simp: nth_Cons split: nat.splits)

lemma runner_can_stop:
  "runner_inv n r \<Longrightarrow> r_life r = Stopping \<Longrightarrow> r_canceled r \<Longrightarrow> \<exists>r'. (runner_step n)\<^sup>*\<^sup>* r r' \<and> r_life r' = Stopped"
proof (induction "sum_list (map work (r_phases r))" arbitrary: r rule: less_induct)
  case less
  have go: "\<exists>r''. (runner_step n)\<^sup>*\<^sup>* r r'' \<and> r_life r'' = Stopped"
    if "runner_step n r r'" "r_life r' = Stopping" "r_canceled r'" "sum_list (map work (r_phases r')) < sum_list (map work (r_phases r))" for r'
    using less.hyps [OF that(4) runner_inv_step [OF that(1) less.prems(1)] that(2,3)] that(1)
    by (meson converse_rtranclp_into_rtranclp)
  show ?case
  proof (cases "r_wg r = 0")
    case True
    then show ?thesis using runner_step.stopped [OF less.prems(2), of n] by (intro exI [of _ "r\<lparr>r_life := Stopped\<rparr>"]) auto
  next
    case False
    then obtain i where i: "i < length (r_phases r)" "r_phases r ! i \<noteq> Gone"
      using less.prems(1) none_alive [of "r_phases r"] by (auto simp: runner_inv_def)
    show ?thesis
    proof (cases "r_phases r ! i")
      case Working
      then show ?thesis using go [OF runner_step.finish [OF i(1)]] i(1) less.prems(2,3) by (simp add: work_less)
    next
      case Pausing
      then show ?thesis using go [OF runner_step.leave [OF i(1)]] i(1) less.prems(2,3) by (simp add: work_less)
    qed (use i(2) in simp)
  qed
qed

lemma stop_jobs_steps:
  "(runner_step n)\<^sup>*\<^sup>* (pr_runner s) r \<Longrightarrow> pr_main s = Returning \<Longrightarrow> (process_step n)\<^sup>*\<^sup>* s (s\<lparr>pr_runner := r\<rparr>)"
proof (induction rule: rtranclp_induct)
  case (step r r')
  then show ?case using process_step.stop_jobs [of "s\<lparr>pr_runner := r\<rparr>" n r'] by (simp add: rtranclp.rtrancl_into_rtrancl)
qed simp

definition can_end :: "nat \<Rightarrow> process \<Rightarrow> bool" where
  "can_end n s \<longleftrightarrow> (\<exists>s'. (process_step n)\<^sup>*\<^sup>* s s' \<and> pr_main s' = Ended)"

lemma can_end_step: "process_step n s s' \<Longrightarrow> can_end n s' \<Longrightarrow> can_end n s"
  unfolding can_end_def by (meson converse_rtranclp_into_rtranclp)

lemma returning_can_end:
  assumes "process_inv n s" "pr_main s = Returning"
  shows "can_end n s"
proof -
  let ?r = "pr_runner s"
  have "\<exists>r. (runner_step n)\<^sup>*\<^sup>* ?r r \<and> r_life r = Stopped"
  proof (cases "r_life ?r")
    case Serving
    have stop: "runner_step n ?r (?r\<lparr>r_life := Stopping, r_canceled := True\<rparr>)" by (rule runner_step.stop [OF Serving])
    have "runner_inv n ?r" using assms(1) by (simp add: process_inv_def)
    from runner_can_stop [OF runner_inv_step [OF stop this]] show ?thesis using stop by (auto intro: converse_rtranclp_into_rtranclp)
  next
    case Stopping
    have signal: "runner_step n ?r (?r\<lparr>r_canceled := True\<rparr>)" by (rule runner_step.signal)
    have "runner_inv n ?r" using assms(1) by (simp add: process_inv_def)
    from runner_can_stop [OF runner_inv_step [OF signal this]] show ?thesis
      using signal Stopping by (auto intro: converse_rtranclp_into_rtranclp)
  qed (use assms in \<open>auto simp: process_inv_def spawning_def\<close>)
  then obtain r where "(process_step n)\<^sup>*\<^sup>* s (s\<lparr>pr_runner := r\<rparr>)" "r_life r = Stopped" using stop_jobs_steps assms(2) by blast
  moreover have "process_step n (s\<lparr>pr_runner := r\<rparr>) (s\<lparr>pr_runner := r, pr_main := Ended, pr_pool_open := False, pr_exit := Some 0\<rparr>)"
    using process_step.close_pool [of "s\<lparr>pr_runner := r\<rparr>" n] assms(2) \<open>r_life r = Stopped\<close> by simp
  ultimately show ?thesis
    unfolding can_end_def
    by (intro exI [of _ "s\<lparr>pr_runner := r, pr_main := Ended, pr_pool_open := False, pr_exit := Some 0\<rparr>"])
      (simp add: rtranclp.rtrancl_into_rtrancl)
qed

lemma past_the_signal_can_end:
  assumes "process_inv n s" "pr_main s \<noteq> Up"
  shows "can_end n s"
proof (cases "pr_main s")
  case Ended
  then show ?thesis unfolding can_end_def by blast
next
  case Returning
  then show ?thesis using returning_can_end assms(1) by blast
next
  case ShuttingDown
  note step = process_step.deadline [OF ShuttingDown, of n]
  show ?thesis by (rule can_end_step [OF step returning_can_end [OF process_inv_step [OF step assms(1)]]]) simp
qed (use assms(2) in simp)

lemma canceled_can_end:
  assumes "process_inv n s" "pr_main s = Up" "r_canceled (pr_runner s)" "\<not> spawning (pr_runner s)"
  shows "can_end n s"
proof -
  note step = process_step.shutdown [OF assms(2,4,3), of n]
  show ?thesis by (rule can_end_step [OF step past_the_signal_can_end [OF process_inv_step [OF step assms(1)]]]) simp
qed

lemma background_can_end:
  assumes "runner_step n (pr_runner s) r" "r_life r = r_life (pr_runner s) \<or> spawning (pr_runner s)" "process_inv n s" "pr_main s = Up"
    and "process_inv n (s\<lparr>pr_runner := r\<rparr>) \<Longrightarrow> can_end n (s\<lparr>pr_runner := r\<rparr>)"
  shows "can_end n s"
proof -
  have "pr_exit s = None" using assms(3,4) by (simp add: process_inv_def)
  note step = process_step.background [OF assms(1,2) this]
  show ?thesis by (rule can_end_step [OF step assms(5)]) (rule process_inv_step [OF step assms(3)])
qed

lemma process_can_end: "process_inv n s \<Longrightarrow> can_end n s"
proof (cases "pr_main s = Up")
  case up: True
  have serving: "can_end n s" if "process_inv n s" "pr_main s = Up" "\<not> spawning (pr_runner s)" for s
    by (rule background_can_end [OF runner_step.signal _ that(1,2)]) (use that in \<open>auto intro!: canceled_can_end\<close>)
  have starting: "can_end n s" if "process_inv n s" "pr_main s = Up" "r_life (pr_runner s) = Starting k" "k \<le> n" for s k
    using that
  proof (induction "n - k" arbitrary: s k)
    case 0
    then have life: "r_life (pr_runner s) = Starting n" by simp
    show ?case
    proof (rule background_can_end [OF runner_step.started [OF life] _ 0(2,3)])
      show "r_life (pr_runner s\<lparr>r_life := Serving\<rparr>) = r_life (pr_runner s) \<or> spawning (pr_runner s)" by (simp add: spawning_def life)
      show "can_end n (s\<lparr>pr_runner := pr_runner s\<lparr>r_life := Serving\<rparr>\<rparr>)"
        if "process_inv n (s\<lparr>pr_runner := pr_runner s\<lparr>r_life := Serving\<rparr>\<rparr>)"
        by (rule serving [OF that]) (use 0(3) in \<open>simp_all add: spawning_def\<close>)
    qed
  next
    case (Suc j)
    then have "k < n" by simp
    from runner_step.spawn [OF Suc.prems(3) this] show ?case
      by (rule background_can_end [OF _ _ Suc.prems(1,2)])
        (use Suc in \<open>auto simp: spawning_def intro!: Suc.hyps(1) [of "Suc k"]\<close>)
  qed
  assume inv: "process_inv n s"
  show ?thesis
  proof (cases "spawning (pr_runner s)")
    case True
    then obtain k where k: "r_life (pr_runner s) = Starting k" by (auto simp: spawning_def split: lifecycle.splits)
    moreover have "k \<le> n" using inv k by (simp add: process_inv_def runner_inv_def)
    ultimately show ?thesis using starting inv up by blast
  qed (use serving inv up in blast)
qed (simp add: past_the_signal_can_end)

text \<open>
  C40. The shutdown is orderly. When the pool is closed, every job has been run to its end at least
  once and all their goroutines have left, no more connections are accepted, no request is in flight
  unless the 15 seconds of the shutdown ran out, the exit code is 0 (also when it was the listener that
  failed), and nothing happens in the process any more. \<open>main\<close> never goes back to an earlier phase, and
  nothing blocks its way: from every state of the process, a signal and the ends of the runs under way
  can take it to that state.
\<close>

theorem shutdown_is_orderly:
  assumes "(process_step n)\<^sup>*\<^sup>* new_process s"
  shows "(\<not> pr_pool_open s \<longrightarrow>
      length (r_phases (pr_runner s)) = n \<and> list_all (\<lambda>p. p = Gone) (r_phases (pr_runner s)) \<and>
      list_all (\<lambda>k. 0 < k) (r_finished (pr_runner s)) \<and> pr_listener s \<noteq> Accepting \<and>
      (pr_graceful s \<longrightarrow> pr_requests s = 0) \<and> pr_exit s = Some 0 \<and> (\<forall>s'. (process_step n)\<^sup>*\<^sup>* s s' \<longrightarrow> s' = s)) \<and>
    (\<forall>s'. (process_step n)\<^sup>*\<^sup>* s s' \<longrightarrow> pr_main s \<le> pr_main s') \<and>
    (\<exists>s'. (process_step n)\<^sup>*\<^sup>* s s' \<and> \<not> pr_pool_open s')"
proof (intro conjI impI allI)
  have inv: "process_inv n s" by (rule process_reaches_inv [OF assms])
  then have runner: "runner_inv n (pr_runner s)" by (simp add: process_inv_def)
  obtain s' where s': "(process_step n)\<^sup>*\<^sup>* s s'" "pr_main s' = Ended" using process_can_end [OF inv] unfolding can_end_def by blast
  moreover have "process_inv n s'" by (rule process_reaches_inv [OF rtranclp_trans [OF assms s'(1)]])
  ultimately show "\<exists>s'. (process_step n)\<^sup>*\<^sup>* s s' \<and> \<not> pr_pool_open s'" by (auto simp: process_inv_def)
  show "pr_main s \<le> pr_main s'" if "(process_step n)\<^sup>*\<^sup>* s s'" for s' by (rule goes_on_forward [OF that])
  assume "\<not> pr_pool_open s"
  then have ended: "pr_main s = Ended" "r_life (pr_runner s) = Stopped" using inv by (auto simp: process_inv_def)
  show "length (r_phases (pr_runner s)) = n" "list_all (\<lambda>p. p = Gone) (r_phases (pr_runner s))" "list_all (\<lambda>k. 0 < k) (r_finished (pr_runner s))"
    using stopped_runner [OF runner ended(2)] by simp_all
  show "pr_listener s \<noteq> Accepting" "pr_exit s = Some 0" "pr_graceful s \<Longrightarrow> pr_requests s = 0" using inv ended by (auto simp: process_inv_def)
  show "s' = s" if "(process_step n)\<^sup>*\<^sup>* s s'" for s'
    using that by (induction rule: rtranclp_induct) (use ended_stays inv ended(1) in blast)+
qed

text \<open>One job and one request: a signal comes while both are under way.\<close>

definition one_job :: "lifecycle \<Rightarrow> Jobs.phase \<Rightarrow> nat \<Rightarrow> int \<Rightarrow> bool \<Rightarrow> runner" where
  "one_job l p k wg c = \<lparr>r_life = l, r_phases = [p], r_ticks = [False], r_finished = [k], r_wg = wg, r_canceled = c\<rparr>"

lemma one_job_sel [simp]:
  "r_life (one_job l p k wg c) = l" "r_phases (one_job l p k wg c) = [p]" "r_finished (one_job l p k wg c) = [k]"
  "r_canceled (one_job l p k wg c) = c"
  by (simp_all add: one_job_def)

lemma one_job_steps:
  "runner_step 1 NewRunner (one_job (Starting 1) Working 0 1 False)"
  "runner_step 1 (one_job (Starting 1) Working 0 1 False) (one_job Serving Working 0 1 False)"
  "runner_step 1 (one_job Serving Working 0 1 False) (one_job Serving Working 0 1 True)"
  "runner_step 1 (one_job Serving Working 0 1 True) (one_job Stopping Working 0 1 True)"
  "runner_step 1 (one_job Stopping Working 0 1 True) (one_job Stopping Pausing 1 1 True)"
  "runner_step 1 (one_job Stopping Pausing 1 1 True) (one_job Stopping Gone 1 0 True)"
  "runner_step 1 (one_job Stopping Gone 1 0 True) (one_job Stopped Gone 1 0 True)"
  using runner_step.spawn [of NewRunner 0 1] runner_step.started [of "one_job (Starting 1) Working 0 1 False" 1]
    runner_step.signal [of 1 "one_job Serving Working 0 1 False"] runner_step.stop [of "one_job Serving Working 0 1 True" 1]
    runner_step.finish [of 0 "one_job Stopping Working 0 1 True" 1] runner_step.leave [of 0 "one_job Stopping Pausing 1 1 True" 1]
    runner_step.stopped [of "one_job Stopping Gone 1 0 True" 1]
  by (simp_all add: one_job_def NewRunner_def)

definition snapshot :: "main_phase \<Rightarrow> listener \<Rightarrow> nat \<Rightarrow> runner \<Rightarrow> process" where
  "snapshot m l q r = \<lparr>pr_main = m, pr_listener = l, pr_requests = q, pr_graceful = (m = Returning \<or> m = Ended), pr_runner = r,
     pr_pool_open = (m \<noteq> Ended), pr_exit = (if m = Ended then Some 0 else None)\<rparr>"

lemma one_process:
  "(process_step 1)\<^sup>*\<^sup>* new_process (snapshot Ended Shut 0 (one_job Stopped Gone 1 0 True))"
proof -
  note j = one_job_steps and [simp] = snapshot_def spawning_def
  have "process_step 1 new_process (snapshot Up Unbound 0 (one_job (Starting 1) Working 0 1 False))"
    using process_step.background [of 1 new_process, OF _ _ _] j(1) by (simp add: new_process_def NewRunner_def)
  moreover have "process_step 1 (snapshot Up Unbound 0 (one_job (Starting 1) Working 0 1 False)) (snapshot Up Unbound 0 (one_job Serving Working 0 1 False))"
    using process_step.background [OF _ _ _, of 1 "snapshot Up Unbound 0 (one_job (Starting 1) Working 0 1 False)"] j(2) by simp
  moreover have "process_step 1 (snapshot Up Unbound 0 (one_job Serving Working 0 1 False)) (snapshot Up Accepting 0 (one_job Serving Working 0 1 False))"
    using process_step.listen [of "snapshot Up Unbound 0 (one_job Serving Working 0 1 False)" 1] by simp
  moreover have "process_step 1 (snapshot Up Accepting 0 (one_job Serving Working 0 1 False)) (snapshot Up Accepting 1 (one_job Serving Working 0 1 False))"
    using process_step.accept [of "snapshot Up Accepting 0 (one_job Serving Working 0 1 False)" 1] by simp
  moreover have "process_step 1 (snapshot Up Accepting 1 (one_job Serving Working 0 1 False)) (snapshot Up Accepting 1 (one_job Serving Working 0 1 True))"
    using process_step.background [of 1 "snapshot Up Accepting 1 (one_job Serving Working 0 1 False)"] j(3) by simp
  moreover have "process_step 1 (snapshot Up Accepting 1 (one_job Serving Working 0 1 True)) (snapshot ShuttingDown Shut 1 (one_job Serving Working 0 1 True))"
    using process_step.shutdown [of "snapshot Up Accepting 1 (one_job Serving Working 0 1 True)" 1] by simp
  moreover have "process_step 1 (snapshot ShuttingDown Shut 1 (one_job Serving Working 0 1 True)) (snapshot ShuttingDown Shut 0 (one_job Serving Working 0 1 True))"
    using process_step.answer [of "snapshot ShuttingDown Shut 1 (one_job Serving Working 0 1 True)" 0 1] by simp
  moreover have "process_step 1 (snapshot ShuttingDown Shut 0 (one_job Serving Working 0 1 True)) (snapshot Returning Shut 0 (one_job Serving Working 0 1 True))"
    using process_step.drained [of "snapshot ShuttingDown Shut 0 (one_job Serving Working 0 1 True)" 1] by simp
  moreover have "process_step 1 (snapshot Returning Shut 0 r) (snapshot Returning Shut 0 r')" if "runner_step 1 r r'" for r r'
    using process_step.stop_jobs [of "snapshot Returning Shut 0 r" 1 r'] that by simp
  moreover have "process_step 1 (snapshot Returning Shut 0 (one_job Stopped Gone 1 0 True)) (snapshot Ended Shut 0 (one_job Stopped Gone 1 0 True))"
    using process_step.close_pool [of "snapshot Returning Shut 0 (one_job Stopped Gone 1 0 True)" 1] by simp
  ultimately show ?thesis using j(4-7) by (meson converse_rtranclp_into_rtranclp rtranclp.rtrancl_refl)
qed

theorem shutdown_is_orderly_witness:
  "list_all (\<lambda>k. 0 < k) (r_finished (pr_runner (snapshot Ended Shut 0 (one_job Stopped Gone 1 0 True)))) \<and>
     pr_exit (snapshot Ended Shut 0 (one_job Stopped Gone 1 0 True)) = Some 0"
  using shutdown_is_orderly [OF one_process] by (simp add: snapshot_def)

end
