(* ===== verification/Spec2Isabelle.thy ===== *)
theory Spec2Isabelle
  imports Booking_Service Group_Buy_Races Auth_Service Idempotency Documents Erasure Availability Webhooks Labels System Restore Answers Process
begin

text \<open>
  HarborWorks, a booking hub for marina slips and event spaces: Go, Gin and PostgreSQL with server-side HTML.
  This development models the server from the route table down to the SQL statements and proves what its
  parts promise to each other and to the people who use it. Paths are relative to the directory
  \<open>internal\<close> of the repository unless they start with \<open>cmd/\<close>, \<open>migrations/\<close> or \<open>seed/\<close>.

  \<^bold>\<open>How the program is put together.\<close> A request enters the router (\<open>api/router.go\<close>), passes the middleware
  of its route (session, password rotation, blacklist, administrator, response cache, idempotency) and
  reaches a handler (\<open>api/handlers\<close>), which binds the request, calls a service (\<open>service\<close>) and writes the
  answer. A service checks the rules of the business and calls repositories (\<open>repository\<close>), where a method is
  one SQL statement or one transaction. Beside the requests, seven background jobs
  (\<open>infrastructure/jobs\<close>, \<open>cmd/server/main.go\<close>) work on the same database: hourly counts, anomaly
  detection, the sweep of group buys, the deletion of accounts, webhook deliveries and two backups.

  \<^bold>\<open>How it is modelled.\<close> Effects has the actions: a Go function that returns \<open>(T, error)\<close> is an \<open>('d, T) io\<close>,
  which takes a world to an error or a value and to the world after. A world holds the store and the
  oracles: the clock, the UUIDs, the random generator, and which statements fail; and it records the requests
  posted to other hosts. Nothing is assumed of the oracles that a theorem does not state (\<open>calm\<close>: no statement fails). \<open>bindE\<close> is
  \<open>if err != nil { return err }\<close>, \<open>attempt\<close> inspects the error, \<open>ignoring\<close> drops it, \<open>transaction\<close> rolls back on
  every way out but a commit. A panic of a handler is an error that leaves it. Schema has the database:
  a list of rows per table, the keys, checks and references of the migrations as guards of the
  inserts, and the cascades of a deleted user. Server puts the response cache and the backup files
  beside the database, and \<open>on_db\<close> runs a database action inside that state.

  \<^item> Prelude: identifiers, instants, Go strings (bytes, UTF-8 decoding, \<open>TrimSpace\<close>), SQL's list operations and
    their lemmas. Effects: actions, the rule collections \<open>returns\<close> (what a successful run did),
    \<open>store_rules\<close> (\<open>readonly\<close>, \<open>all_or_nothing\<close>, \<open>preserves\<close>) and \<open>run_defs\<close> (evaluation).
  \<^item> Domain (\<open>domain\<close>): every struct and enumeration, the booking state machine, masks, the password policy.
    Labels (\<open>views/labels.go\<close>).
  \<^item> Accounts (\<open>repository/user.go\<close>, \<open>session.go\<close>, \<open>captcha.go\<close>) and Auth_Service (\<open>service/auth.go\<close>): a login
    passed every check; a locked account refuses the right password and leaks nothing about it; a CAPTCHA
    serves one try; a session ends at its cap; the password scan equals its specification.
  \<^item> Bookings (\<open>repository/booking.go\<close>, \<open>resource.go\<close>), Crypto (\<open>infrastructure/crypto\<close>), Booking_Service
    (\<open>service/booking.go\<close>): a request is refused by the first gate it fails and accepted exactly when it passes
    all; status changes follow the state machine; notes are sealed for everybody but the owner; and two
    interleaved requests can oversell a resource. Availability (\<open>service/resource.go\<close>): the report of a day
    agrees with the SQL seat count.
  \<^item> GroupBuys (\<open>repository/groupbuy.go\<close>), Group_Buy_Service (\<open>service/groupbuy.go\<close>), Group_Buy_Races: joins
    and the sweep, alone and interleaved at their statements (\<open>race_step\<close>): no oversell, one row per client, at
    most three attempts each; and a sweep can be undone by a join in flight. Group_Reservations
    (\<open>repository/group.go\<close>, \<open>service/group.go\<close>, the projection of \<open>handlers/group.go\<close>).
  \<^item> Idempotency (\<open>repository/idempotency.go\<close>, \<open>api/middleware/idempotency.go\<close>): a retry gets the first answer;
    any number of requests in flight together (\<open>traffic_step\<close>) have one effect per key; a key that never
    finished stays shut.
  \<^item> Documents and Rendering (\<open>repository/document.go\<close>, \<open>service/document.go\<close>): the chain of revisions, the
    PDF byte for byte, read back by a reader of the file format (Pdf_Reader), the drawing of the check-in pass. Notifications
    (\<open>repository/notification.go\<close>, \<open>service/notification.go\<close>).
  \<^item> Analytics (\<open>repository/analytics.go\<close>, \<open>service/analytics.go\<close>): hourly counts, baselines, and the
    alerts against a count of the events. Governance,
    Csv and Erasure (\<open>repository/governance.go\<close>, \<open>service/governance.go\<close>): the CSV reader and writer of Go, the
    import as all or nothing, consent, and the executor that erases accounts and nothing else.
  \<^item> Webhooks (\<open>repository/webhook.go\<close>, \<open>service/webhook.go\<close>): delivery cycles use up attempts, and
    an answer that makes them post the same requests for ever. Backups (\<open>repository/backup.go\<close>, \<open>service/backup.go\<close>)
    and Restore: what the chain of a full backup and the next incremental covers after any of the repository
    writes in between (\<open>later_write\<close>), and the one kind of change it misses.
  \<^item> Cache (\<open>infrastructure/cache\<close>), Web (\<open>api/middleware/auth.go\<close>, \<open>cache.go\<close>), Handlers and Admin_Handlers
    (\<open>api/handlers\<close>), Router (\<open>api/router.go\<close>): the route table enforces the access policy, and the cache
    undoes the masking of organisers. Answers: every request that reaches a
    handler is answered by it, without a panic and with a status of a fixed set.
  \<^item> Startup (\<open>infrastructure/config\<close>, \<open>database\<close>, \<open>logger\<close>, \<open>seed/seed.sql\<close>, the seeding in \<open>cmd/server/main.go\<close>),
    Jobs (\<open>infrastructure/jobs\<close>): the goroutines of the runner as a step relation.
  \<^item> Invariants and System: the invariants of the components, each kept by the operations that own its
    tables and blind to the others (locale \<open>component\<close>); requests, jobs and cache collections (\<open>site_step\<close>)
    keep them all, and every request on a route is answered.
  \<^item> Process (\<open>main\<close> of \<open>cmd/server/main.go\<close>): the stages of the start and the wiring of the services
    (\<open>main_start\<close>); whole deployments, process after process with any environment on one database and one
    key volume (\<open>deployment_step\<close>), in which the invariants hold at every instant and sealed notes stay
    readable; and the way down: listener, signal, requests in flight, jobs and pool (\<open>process_step\<close>).

  \<^bold>\<open>Interfaces.\<close> Four contracts are locales, interpreted on the model's own definitions: \<open>join_store\<close> (what the
  retry loop of a join needs of the repository, by \<open>groupbuys_JoinAtomic\<close>), \<open>reservations\<close> (what the
  idempotency middleware needs of its table, by \<open>idemRepo\<close>), \<open>ttl_cache\<close> (what the read-through middleware needs
  of the cache, by \<open>Cache_Get\<close> and \<open>Cache_Set\<close>) and \<open>component\<close> (one interpretation per component).

  \<^bold>\<open>Bounds.\<close> Nothing runs on fuel. Loops over lists recurse structurally; scanners (UTF-8, CSV) have a measure on the
  text that is left, the slots of a day one on the time that is left, the attempts to reach the database
  one on the attempts that are left. The retry loop of a join counts its attempts down from three as in the
  code. Go's \<open>int\<close> and instants are unbounded integers, except where the code can wrap: the days of
  a report times 24 hours, the delay of a delivery and the pool size are machine words.

  \<^bold>\<open>Where model and program differ.\<close> Instants have nanoseconds also in the database, where PostgreSQL rounds to
  microseconds. Averages and ratios are exact rationals, not doubles. Collation, the case tables of
  Unicode and \<open>LOWER\<close> are parameters. Text with a NUL byte or of invalid UTF-8, which PostgreSQL refuses, is
  refused in the model only where a webhook's answer is stored. The headers a response had before a
  panic are lost. A response holds the value its JSON or HTML is made of, and the encoders are
  parameters, as are Gin's binding, URL parsing, UUID syntax, bcrypt, AES, SHA-256, the PNG raster, the resolver
  and the HTTP client. \<open>Cache.Get\<close> unlocks between its lookup and the removal of a stale entry; here it is one
  step. A step of \<open>site_step\<close> is a whole request or job, and of \<open>deployment_step\<close> a whole
  start; interleavings at the level of statements are treated for bookings, group buys and idempotency keys,
  where operations compete; a request without an Idempotency-Key, which the middleware passes on, is no
  step of \<open>traffic_step\<close>. \<open>new_uuid\<close> always returns, where \<open>uuid.New\<close> panics when the system has no entropy.
  Gin's redirects between a path and the same path with a trailing slash are not modelled: such a path has
  no route here. The 15 seconds of the shutdown may run out at any time, and closing the pool takes
  one step, where the library waits for the connections in use.

  \<^bold>\<open>Not modelled.\<close> The templates (\<open>views/*.templ\<close>) and their static files, which only format what a page is
  given; log lines; \<open>Migrate\<close> and \<open>MigrateURL\<close>, which hand the migration files to a library (the tables they
  create are in Schema); the interfaces and constructors that only tie structs together; the unit, API and
  browser tests, and the container files.
\<close>

end
